(* ===== verification/Vault_Prelude.thy ===== *)
theory Vault_Prelude
  imports Main "HOL-Library.Word" "HOL-Library.List_Lexorder" "HOL-Library.Char_ord"
begin

text \<open>
  The shared vocabulary of the development: bytes and byte strings, the result
  type of fallible operations (Rust's \<open>Result\<close> extended with the outcome of a
  panic), the \<open>?\<close> operator in state-passing style, and the ordered
  association lists that stand for \<open>BTreeMap\<close>. Nothing in this theory is
  specific to one component.
\<close>

section \<open>Collections of facts\<close>

named_theorems vault_simps \<open>unfolding equations for the state-passing combinators\<close>
named_theorems ext_laws \<open>projections of the documented laws of third-party code\<close>

section \<open>Bytes, strings and machine integers\<close>

type_synonym byte = "8 word"
type_synonym bytes = "byte list"
type_synonym u32 = "32 word"
type_synonym u64 = "64 word"

text \<open>
  A Rust \<open>str\<close> is a sequence of UTF-8 bytes; HOL's \<^typ>\<open>string\<close> is a list of
  8-bit characters, so \<^term>\<open>length s\<close> is \<open>s.len()\<close> and \<open>as_bytes\<close>
  is a change of representation.
\<close>

definition as_bytes :: "string \<Rightarrow> bytes" where
  "as_bytes s = map of_char s"

lemma of_char_byte_inj: "(of_char c :: byte) = of_char d \<longleftrightarrow> c = d"
proof
  assume eq: "(of_char c :: byte) = of_char d"
  have bound: "of_char x < (256 :: nat)" for x :: char
    by simp
  have un: "unat (of_char x :: byte) = of_char x" for x :: char
  proof -
    have "unat (of_nat (of_char x) :: byte) = of_char x"
      using bound [of x] by (simp add: unat_of_nat take_bit_eq_mod)
    then show ?thesis
      by (simp only: of_nat_of_char)
  qed
  from arg_cong [OF eq, of unat] have "(of_char c :: nat) = of_char d"
    by (simp only: un)
  then show "c = d"
    by simp
qed simp

lemma as_bytes_inj [simp]: "as_bytes s = as_bytes t \<longleftrightarrow> s = t"
  unfolding as_bytes_def
  by (rule inj_map_eq_map) (simp add: inj_def of_char_byte_inj)

lemma length_as_bytes [simp]: "length (as_bytes s) = length s"
  by (simp add: as_bytes_def)

text \<open>\<open>str::strip_prefix\<close>.\<close>

fun strip_prefix :: "'a list \<Rightarrow> 'a list \<Rightarrow> 'a list option" where
  "strip_prefix [] s = Some s"
| "strip_prefix (p # ps) [] = None"
| "strip_prefix (p # ps) (c # s) = (if p = c then strip_prefix ps s else None)"

lemma strip_prefix_Some [simp]: "strip_prefix p s = Some r \<longleftrightarrow> s = p @ r"
  by (induction p s rule: strip_prefix.induct) auto

text \<open>The decimal rendering of an unsigned number.\<close>

definition digit_char :: "nat \<Rightarrow> char" where
  "digit_char n = char_of (48 + n)"

fun show_nat :: "nat \<Rightarrow> string" where
  "show_nat n = (if n < 10 then [digit_char n] else show_nat (n div 10) @ [digit_char (n mod 10)])"

declare show_nat.simps [simp del]

section \<open>Results, panics and the question-mark operator\<close>

datatype ('a, 'e) result = Ok 'a | Err 'e | Panic string

fun is_panic :: "('a, 'e) result \<Rightarrow> bool" where
  "is_panic (Panic _) = True"
| "is_panic _ = False"

fun is_ok :: "('a, 'e) result \<Rightarrow> bool" where
  "is_ok (Ok _) = True"
| "is_ok _ = False"

fun map_err :: "('e \<Rightarrow> 'f) \<Rightarrow> ('a, 'e) result \<Rightarrow> ('a, 'f) result" where
  "map_err f (Ok a) = Ok a"
| "map_err f (Err e) = Err (f e)"
| "map_err f (Panic m) = Panic m"

fun bind_res :: "('a, 'e) result \<Rightarrow> ('a \<Rightarrow> ('b, 'e) result) \<Rightarrow> ('b, 'e) result" where
  "bind_res (Ok a) k = k a"
| "bind_res (Err e) k = Err e"
| "bind_res (Panic m) k = Panic m"

text \<open>\<open>expr?\<close> on an operation that also changes the state.\<close>

fun try_op :: "('a, 'e) result \<times> 's \<Rightarrow> ('a \<Rightarrow> 's \<Rightarrow> ('b, 'e) result \<times> 's) \<Rightarrow> ('b, 'e) result \<times> 's" where
  "try_op (Ok a, s) k = k a s"
| "try_op (Err e, s) k = (Err e, s)"
| "try_op (Panic m, s) k = (Panic m, s)"

fun map_err_op :: "('e \<Rightarrow> 'f) \<Rightarrow> ('a, 'e) result \<times> 's \<Rightarrow> ('a, 'f) result \<times> 's" where
  "map_err_op f (r, s) = (map_err f r, s)"

declare try_op.simps [vault_simps] map_err.simps [vault_simps] map_err_op.simps [vault_simps]

lemma map_err_Ok_iff [simp]: "map_err f r = Ok a \<longleftrightarrow> r = Ok a"
  by (cases r) auto

lemma map_err_Panic_iff [simp]: "map_err f r = Panic m \<longleftrightarrow> r = Panic m"
  by (cases r) auto

lemma map_err_Err_iff: "map_err f r = Err e \<longleftrightarrow> (\<exists>e'. r = Err e' \<and> e = f e')"
  by (cases r) auto

lemma is_panic_map_err [simp]: "is_panic (map_err f r) = is_panic r"
  by (cases r) auto

lemma bind_res_Ok_iff: "bind_res r k = Ok b \<longleftrightarrow> (\<exists>a. r = Ok a \<and> k a = Ok b)"
  by (cases r) auto

lemma is_panic_bind_res:
  "is_panic (bind_res r k) \<longleftrightarrow> is_panic r \<or> (\<exists>a. r = Ok a \<and> is_panic (k a))"
  by (cases r) auto

lemma is_panic_iff: "is_panic r \<longleftrightarrow> (\<exists>m. r = Panic m)"
  by (cases r) auto

lemma try_op_Ok_iff:
  "try_op m k = (Ok b, s') \<longleftrightarrow> (\<exists>a s. m = (Ok a, s) \<and> k a s = (Ok b, s'))"
  by (cases "(m, k)" rule: try_op.cases) auto

text \<open>The state after a last step does not depend on the value it returns.\<close>

lemma snd_try_op_answer: "snd (try_op m (\<lambda>_ s. (Ok a, f s))) = snd (try_op m (\<lambda>_ s. (Ok b, f s)))"
  by (cases m; cases "fst m") auto

lemma try_op_answer_Panic: "try_op m (\<lambda>_ s. (Ok a, f s)) = (Panic e, s') \<longleftrightarrow> m = (Panic e, s')"
  by (cases m; cases "fst m") auto

text \<open>\<open>Option<Result<T, E>>::transpose\<close>, the shape of an optional fallible conversion.\<close>

fun transpose_res :: "('a, 'e) result option \<Rightarrow> ('a option, 'e) result" where
  "transpose_res None = Ok None"
| "transpose_res (Some (Ok a)) = Ok (Some a)"
| "transpose_res (Some (Err e)) = Err e"
| "transpose_res (Some (Panic m)) = Panic m"

section \<open>Ordered association lists (\<open>BTreeMap\<close>)\<close>

text \<open>
  A \<open>BTreeMap<K, V>\<close> is the list of its entries in ascending key order.
  Insertion replaces the value of a key that is already there, as the Rust
  method does.
\<close>

type_synonym ('k, 'v) btree = "('k \<times> 'v) list"

definition btree_ok :: "('k::linorder, 'v) btree \<Rightarrow> bool" where
  "btree_ok t \<longleftrightarrow> sorted_wrt (<) (map fst t)"

fun btree_insert :: "'k::linorder \<Rightarrow> 'v \<Rightarrow> ('k, 'v) btree \<Rightarrow> ('k, 'v) btree" where
  "btree_insert k v [] = [(k, v)]"
| "btree_insert k v (e # t) =
     (if fst e < k then e # btree_insert k v t
      else if fst e = k then (k, v) # t
      else (k, v) # e # t)"

definition entries_remove :: "'k \<Rightarrow> ('k, 'v) btree \<Rightarrow> ('k, 'v) btree" where
  "entries_remove k t = filter (\<lambda>e. fst e \<noteq> k) t"

definition entries_retain :: "('k \<Rightarrow> 'v \<Rightarrow> bool) \<Rightarrow> ('k, 'v) btree \<Rightarrow> ('k, 'v) btree" where
  "entries_retain p t = filter (\<lambda>e. p (fst e) (snd e)) t"

lemma btree_ok_Nil [simp]: "btree_ok []"
  by (simp add: btree_ok_def)

lemma btree_ok_Cons:
  "btree_ok (e # t) \<longleftrightarrow> (\<forall>f \<in> set t. fst e < fst f) \<and> btree_ok t"
  by (auto simp: btree_ok_def)

lemma btree_ok_distinct: "btree_ok t \<Longrightarrow> distinct (map fst t)"
  by (auto simp: btree_ok_def strict_sorted_iff)

lemma btree_ok_filter: "btree_ok t \<Longrightarrow> btree_ok (filter p t)"
  by (induction t) (auto simp: btree_ok_Cons)

lemma btree_ok_remove [simp]: "btree_ok t \<Longrightarrow> btree_ok (entries_remove k t)"
  by (simp add: entries_remove_def btree_ok_filter)

lemma btree_ok_retain [simp]: "btree_ok t \<Longrightarrow> btree_ok (entries_retain p t)"
  by (simp add: entries_retain_def btree_ok_filter)

lemma fst_set_btree_insert: "fst ` set (btree_insert k v t) = insert k (fst ` set t)"
  by (induction t) (auto split: if_splits)

lemma set_btree_insert: "set (btree_insert k v t) \<subseteq> insert (k, v) (set t)"
  by (induction t) auto

lemma btree_ok_insert [simp]: "btree_ok t \<Longrightarrow> btree_ok (btree_insert k v t)"
proof (induction t)
  case Nil
  then show ?case by (simp add: btree_ok_def)
next
  case (Cons e t)
  have less: "\<forall>f \<in> set (btree_insert k v t). fst e < fst f" if "fst e < k"
  proof
    fix f assume "f \<in> set (btree_insert k v t)"
    then have "fst f \<in> insert k (fst ` set t)"
      using fst_set_btree_insert [of k v t] by blast
    then show "fst e < fst f"
      using that Cons.prems by (auto simp: btree_ok_Cons)
  qed
  show ?case
    using Cons less by (auto simp: btree_ok_Cons) 
qed

lemma btree_insert_snoc: "\<forall>e \<in> set t. fst e < k \<Longrightarrow> btree_insert k v t = t @ [(k, v)]"
  by (induction t) auto

lemma map_of_btree_insert [simp]:
  "btree_ok t \<Longrightarrow> map_of (btree_insert k v t) = (map_of t)(k \<mapsto> v)"
  by (induction t) (auto simp: btree_ok_Cons fun_eq_iff)

lemma map_of_entries_remove [simp]: "map_of (entries_remove k t) = (map_of t)(k := None)"
  by (induction t) (auto simp: entries_remove_def fun_eq_iff)

lemma map_of_entries_retain:
  assumes "distinct (map fst t)"
  shows "map_of (entries_retain p t) k =
    (case map_of t k of None \<Rightarrow> None | Some v \<Rightarrow> if p k v then Some v else None)"
  using assms
proof (induction t)
  case (Cons e t)
  have "map_of t (fst e) = None"
    using Cons.prems by (simp add: map_of_eq_None_iff)
  then show ?case
    using Cons by (auto simp: entries_retain_def split: option.splits)
qed (simp add: entries_retain_def)

text \<open>How many entries a \<open>retain\<close> drops, as a cardinality.\<close>

lemma length_entries_retain:
  assumes "distinct (map fst t)"
  shows "length t - length (entries_retain p t) =
    card {k. \<exists>v. map_of t k = Some v \<and> \<not> p k v}"
proof -
  have inj: "inj_on fst {e \<in> set t. \<not> p (fst e) (snd e)}"
    using assms by (auto simp: distinct_map intro: inj_on_subset)
  have "{k. \<exists>v. map_of t k = Some v \<and> \<not> p k v} = fst ` {e \<in> set t. \<not> p (fst e) (snd e)}"
    using assms by (force simp: map_of_eq_Some_iff image_iff)
  then have "card {k. \<exists>v. map_of t k = Some v \<and> \<not> p k v} = card {e \<in> set t. \<not> p (fst e) (snd e)}"
    by (simp add: card_image [OF inj])
  also have "\<dots> = length (filter (\<lambda>e. \<not> p (fst e) (snd e)) t)"
    using assms by (simp add: distinct_map flip: distinct_card)
  also have "\<dots> = length t - length (entries_retain p t)"
    using sum_length_filter_compl [of "\<lambda>e. p (fst e) (snd e)" t]
    by (simp add: entries_retain_def)
  finally show ?thesis by simp
qed

text \<open>A list of summands, one of which is replaced.\<close>

lemma sum_list_update_less:
  "\<lbrakk>i < length xs; f y < f (xs ! i)\<rbrakk> \<Longrightarrow> sum_list (map f (xs[i := y])) < (sum_list (map f xs) :: nat)"
  by (induction xs arbitrary: i) (auto split: nat.splits)

lemma sum_list_update_nat:
  "i < length xs \<Longrightarrow> sum_list (map f (xs[i := y])) + f (xs ! i) = sum_list (map f xs) + (f y :: nat)"
  by (induction xs arbitrary: i) (auto split: nat.splits)

end
