(* ===== verification/Vault_Error.thy ===== *)
theory Vault_Error
  imports Vault_Prelude
begin

text \<open>
  \<^verbatim>\<open>src/error.rs\<close>: the two error enums, their JSON-RPC codes and
  the text that \<open>thiserror\<close> derives from the \<open>#[error(..)]\<close>
  attributes. The payload of an I/O or JSON error is its rendered message.
\<close>

datatype storage_error = Io string | Json string | NotFound

datatype vault_error =
    ProofNotFound
  | ProofExpired
  | DecryptionFailed
  | InvalidClaimId
  | InvalidParameter string
  | Storage storage_error
  | Serialization string

fun rpc_code :: "vault_error \<Rightarrow> int" where
  "rpc_code ProofNotFound = - 32001"
| "rpc_code ProofExpired = - 32002"
| "rpc_code InvalidClaimId = - 32003"
| "rpc_code DecryptionFailed = - 32004"
| "rpc_code (InvalidParameter _) = - 32006"
| "rpc_code (Storage _) = - 32005"
| "rpc_code (Serialization _) = - 32005"

fun storage_error_display :: "storage_error \<Rightarrow> string" where
  "storage_error_display (Io m) = ''I/O error: '' @ m"
| "storage_error_display (Json m) = ''JSON error: '' @ m"
| "storage_error_display NotFound = ''Record not found''"

fun vault_error_display :: "vault_error \<Rightarrow> string" where
  "vault_error_display ProofNotFound = ''Proof not found''"
| "vault_error_display ProofExpired = ''Proof has expired''"
| "vault_error_display DecryptionFailed = ''Decryption failed''"
| "vault_error_display InvalidClaimId = ''Invalid claim ID format''"
| "vault_error_display (InvalidParameter m) = ''Invalid parameter: '' @ m"
| "vault_error_display (Storage e) = ''Storage error: '' @ storage_error_display e"
| "vault_error_display (Serialization m) = ''Serialization error: '' @ m"

lemma rpc_code_internal:
  "rpc_code e = - 32005 \<longleftrightarrow> (\<exists>se. e = Storage se) \<or> (\<exists>m. e = Serialization m)"
  by (cases e) auto

lemma rpc_code_decryption: "rpc_code e = - 32004 \<longleftrightarrow> e = DecryptionFailed"
  by (cases e) auto

end
