(* ===== verification/Externals.thy ===== *)
theory Externals
  imports Vault_Error
begin

text \<open>
  The third-party code the vault calls, as parameters. A value of the record
  \<open>ext\<close> is one choice of the functions of the crates \<open>base64\<close>,
  \<open>uuid\<close>, \<open>aes-gcm\<close>, \<open>serde_json\<close>, \<open>chrono\<close>,
  \<open>http\<close> and \<open>subtle\<close> that the sources use; every model
  definition takes it as an argument. The predicates after it state the
  documented behaviour of those crates that the vault relies on, one predicate
  per crate, and a theorem names exactly those it needs.

  An instant (\<open>DateTime<Utc>\<close>) is its number of nanoseconds since the
  epoch and a \<open>TimeDelta\<close> a number of nanoseconds: chrono orders instants
  chronologically.
\<close>

type_synonym datetime = int
type_synonym timedelta = int

section \<open>JSON documents\<close>

text \<open>
  The documents of \<open>serde_json\<close>: numbers are the crate's three
  representations, a float by its bit pattern; an object lists its entries in the order
  of the text.
\<close>

datatype json_number = PosInt u64 | NegInt u64 | Float u64

datatype json =
    JNull
  | JBool bool
  | JNumber json_number
  | JString string
  | JArray "json list"
  | JObject "(string \<times> json) list"

fun json_depth :: "json \<Rightarrow> nat" where
  "json_depth (JArray vs) = Suc (foldr (\<lambda>v. max (json_depth v)) vs 0)"
| "json_depth (JObject kvs) = Suc (foldr (\<lambda>kv. max (json_depth (snd kv))) kvs 0)"
| "json_depth _ = 0"

fun json_floatless :: "json \<Rightarrow> bool" where
  "json_floatless (JNumber (Float _)) = False"
| "json_floatless (JArray vs) = (\<forall>v \<in> set vs. json_floatless v)"
| "json_floatless (JObject kvs) = (\<forall>kv \<in> set kvs. json_floatless (snd kv))"
| "json_floatless _ = True"

text \<open>
  The documents that \<open>serde_json\<close> promises to read back as written: those
  below its recursion limit and without floats, whose parsing is exact only
  with the \<open>float_roundtrip\<close> feature, which the vault does not enable.
\<close>

definition json_exact :: "json \<Rightarrow> bool" where
  "json_exact v \<longleftrightarrow> json_floatless v \<and> json_depth v < 128"

text \<open>
  A \<open>serde_json::Value\<close> keeps the entries of an object in a \<open>BTreeMap\<close>
  (the \<open>preserve_order\<close> feature is off): reading a text into a \<open>Value\<close>
  orders the keys and lets the last of equal keys win.
\<close>

fun json_value :: "json \<Rightarrow> json" where
  "json_value (JArray vs) = JArray (map json_value vs)"
| "json_value (JObject kvs) =
     JObject (fold (\<lambda>kv. btree_insert (fst kv) (snd kv)) (map (\<lambda>kv. (fst kv, json_value (snd kv))) kvs) [])"
| "json_value v = v"

definition is_value :: "json \<Rightarrow> bool" where
  "is_value v \<longleftrightarrow> json_value v = v"

section \<open>The parameters\<close>

record ext =
  base64_url_encode :: "bytes \<Rightarrow> string"
  base64_url_decode :: "string \<Rightarrow> bytes option"
  base64_std_encode :: "bytes \<Rightarrow> string"
  base64_std_decode :: "string \<Rightarrow> bytes option"
  uuid_simple :: "bytes \<Rightarrow> string"
  uuid_hyphenated :: "bytes \<Rightarrow> string"
  aes_gcm_encrypt :: "bytes \<Rightarrow> bytes \<Rightarrow> bytes \<Rightarrow> bytes option"
  aes_gcm_decrypt :: "bytes \<Rightarrow> bytes \<Rightarrow> bytes \<Rightarrow> bytes option"
  serde_to_vec :: "json \<Rightarrow> (bytes, string) result"
  serde_to_vec_pretty :: "json \<Rightarrow> (bytes, string) result"
  serde_to_string :: "json \<Rightarrow> string"
  serde_from_slice :: "bytes \<Rightarrow> (json, string) result"
  chrono_seconds :: "int \<Rightarrow> timedelta option"
  chrono_add :: "datetime \<Rightarrow> timedelta \<Rightarrow> datetime option"
  chrono_max :: datetime
  chrono_serialize :: "datetime \<Rightarrow> string"
  chrono_deserialize :: "string \<Rightarrow> datetime option"
  chrono_to_rfc3339 :: "datetime \<Rightarrow> string"
  chrono_parse_rfc3339 :: "string \<Rightarrow> (datetime, string) result"
  header_to_str :: "bytes \<Rightarrow> string option"
  ct_eq :: "bytes \<Rightarrow> bytes \<Rightarrow> bool"

text \<open>\<open>from_slice::<Value>\<close>.\<close>

definition value_from_slice :: "ext \<Rightarrow> bytes \<Rightarrow> (json, string) result" where
  "value_from_slice E bs = bind_res (serde_from_slice E bs) (\<lambda>j. Ok (json_value j))"

section \<open>What the crates document\<close>

text \<open>
  \<open>URL_SAFE_NO_PAD\<close>: RFC 4648 section 5 without padding; decoding is strict
  (no padding, no stray trailing bits), so a text that decodes is the encoding
  of what it decodes to.
\<close>

definition base64_url_laws :: "ext \<Rightarrow> bool" where
  "base64_url_laws E \<longleftrightarrow>
     (\<forall>bs. base64_url_decode E (base64_url_encode E bs) = Some bs) \<and>
     (\<forall>s bs. base64_url_decode E s = Some bs \<longrightarrow> base64_url_encode E bs = s) \<and>
     (\<forall>bs. length (base64_url_encode E bs) = (4 * length bs + 2) div 3)"

definition base64_std_laws :: "ext \<Rightarrow> bool" where
  "base64_std_laws E \<longleftrightarrow> (\<forall>bs. base64_std_decode E (base64_std_encode E bs) = Some bs)"

text \<open>The two textual forms of a UUID determine its 16 bytes.\<close>

definition uuid_laws :: "ext \<Rightarrow> bool" where
  "uuid_laws E \<longleftrightarrow>
     inj_on (uuid_hyphenated E) {bs. length bs = 16} \<and>
     inj_on (uuid_simple E) {bs. length bs = 16}"

text \<open>
  AES-256-GCM: decryption inverts encryption under the same key and nonce, and
  encryption only refuses plaintexts beyond the mode's limit of \<open>2^36\<close> bytes.
\<close>

definition aead_laws :: "ext \<Rightarrow> bool" where
  "aead_laws E \<longleftrightarrow>
     (\<forall>k n p c. length k = 32 \<and> length n = 12 \<and> aes_gcm_encrypt E k n p = Some c \<longrightarrow>
        aes_gcm_decrypt E k n c = Some p) \<and>
     (\<forall>k n p. length k = 32 \<and> length n = 12 \<and> length p \<le> 2 ^ 36 \<longrightarrow>
        aes_gcm_encrypt E k n p \<noteq> None)"

text \<open>
  \<open>serde_json\<close>: a \<open>Value\<close> always serialises, the compact bytes are
  those of its \<open>Display\<close>, and both the compact and the pretty form of an
  exact document read back as the document.
\<close>

definition serde_json_laws :: "ext \<Rightarrow> bool" where
  "serde_json_laws E \<longleftrightarrow>
     (\<forall>v. serde_to_vec E v = Ok (as_bytes (serde_to_string E v))) \<and>
     (\<forall>v. json_exact v \<longrightarrow> serde_from_slice E (as_bytes (serde_to_string E v)) = Ok v) \<and>
     (\<forall>v. \<exists>bs. serde_to_vec_pretty E v = Ok bs \<and> (json_exact v \<longrightarrow> serde_from_slice E bs = Ok v)) \<and>
     (\<forall>bs m. serde_from_slice E bs \<noteq> Panic m)"

text \<open>
  \<open>chrono\<close>: \<open>Duration::seconds\<close> panics (here \<^const>\<open>None\<close>) beyond
  \<open>i64::MAX\<close> milliseconds, and \<open>DateTime + TimeDelta\<close> panics when the
  sum leaves the range of \<open>DateTime\<close>; both are exact otherwise.
\<close>

definition max_duration_seconds :: int where
  "max_duration_seconds = 9223372036854775"

definition chrono_arith_laws :: "ext \<Rightarrow> bool" where
  "chrono_arith_laws E \<longleftrightarrow>
     (\<forall>s. chrono_seconds E s =
        (if \<bar>s\<bar> \<le> max_duration_seconds then Some (s * 1000000000) else None)) \<and>
     (\<forall>t d. 0 \<le> t \<and> 0 \<le> d \<longrightarrow>
        chrono_add E t d = (if t + d \<le> chrono_max E then Some (t + d) else None))"

text \<open>The serde form of an instant reads back exactly.\<close>

definition chrono_serde_laws :: "ext \<Rightarrow> bool" where
  "chrono_serde_laws E \<longleftrightarrow> (\<forall>t. chrono_deserialize E (chrono_serialize E t) = Some t)"

text \<open>
  RFC 3339 text: on the years 0 to 9999, the range of that format, the text of a
  UTC instant parses back and the byte order of two texts is the order of the
  instants.
\<close>

definition rfc3339_range :: "datetime \<Rightarrow> bool" where
  "rfc3339_range t \<longleftrightarrow> - 62167219200 * 1000000000 \<le> t \<and> t < 253402300800 * 1000000000"

definition chrono_rfc3339_laws :: "ext \<Rightarrow> bool" where
  "chrono_rfc3339_laws E \<longleftrightarrow>
     (\<forall>t. rfc3339_range t \<longrightarrow> chrono_parse_rfc3339 E (chrono_to_rfc3339 E t) = Ok t) \<and>
     (\<forall>t u. rfc3339_range t \<and> rfc3339_range u \<longrightarrow>
        (chrono_to_rfc3339 E t \<le> chrono_to_rfc3339 E u \<longleftrightarrow> t \<le> u)) \<and>
     (\<forall>s m. chrono_parse_rfc3339 E s \<noteq> Panic m)"

text \<open>
  A year after 9999 is printed with an explicit plus sign, which the RFC 3339
  parser refuses; the text of an instant in range begins with a digit.
\<close>

definition chrono_expanded_year_laws :: "ext \<Rightarrow> bool" where
  "chrono_expanded_year_laws E \<longleftrightarrow>
     (\<forall>t. 253402300800 * 1000000000 \<le> t \<longrightarrow>
        (\<exists>s. chrono_to_rfc3339 E t = CHR ''+'' # s) \<and>
        (\<exists>m. chrono_parse_rfc3339 E (chrono_to_rfc3339 E t) = Err m)) \<and>
     (\<forall>t. rfc3339_range t \<longrightarrow> (\<exists>c s. chrono_to_rfc3339 E t = c # s \<and> CHR ''0'' \<le> c \<and> c \<le> CHR ''9''))"

text \<open>
  \<open>HeaderValue::to_str\<close> accepts visible ASCII only and changes nothing;
  \<open>ConstantTimeEq\<close> on slices is equality.
\<close>

definition visible_ascii :: "byte \<Rightarrow> bool" where
  "visible_ascii b \<longleftrightarrow> 32 \<le> b \<and> b < 127 \<or> b = 9"

definition header_laws :: "ext \<Rightarrow> bool" where
  "header_laws E \<longleftrightarrow>
     (\<forall>v s. header_to_str E v = Some s \<longleftrightarrow> v = as_bytes s \<and> list_all visible_ascii v)"

definition ct_eq_laws :: "ext \<Rightarrow> bool" where
  "ct_eq_laws E \<longleftrightarrow> (\<forall>a b. ct_eq E a b \<longleftrightarrow> a = b)"

section \<open>Using the laws\<close>

lemma base64_urlD [ext_laws]:
  assumes "base64_url_laws E"
  shows "base64_url_decode E (base64_url_encode E bs) = Some bs"
    and "base64_url_decode E s = Some bs \<Longrightarrow> base64_url_encode E bs = s"
    and "length (base64_url_encode E bs) = (4 * length bs + 2) div 3"
  using assms by (simp_all add: base64_url_laws_def)

lemma base64_stdD [ext_laws]:
  "base64_std_laws E \<Longrightarrow> base64_std_decode E (base64_std_encode E bs) = Some bs"
  by (simp add: base64_std_laws_def)

lemma uuid_hyphenated_inj [ext_laws]:
  "\<lbrakk>uuid_laws E; length a = 16; length b = 16\<rbrakk> \<Longrightarrow>
     uuid_hyphenated E a = uuid_hyphenated E b \<longleftrightarrow> a = b"
  by (auto simp: uuid_laws_def inj_on_def)

lemma aead_roundtrip [ext_laws]:
  "\<lbrakk>aead_laws E; length k = 32; length n = 12; aes_gcm_encrypt E k n p = Some c\<rbrakk> \<Longrightarrow>
     aes_gcm_decrypt E k n c = Some p"
  by (auto simp: aead_laws_def)

lemma aead_encrypts [ext_laws]:
  assumes "aead_laws E" "length k = 32" "length n = 12" "length p \<le> 2 ^ 36"
  obtains c where "aes_gcm_encrypt E k n p = Some c" "aes_gcm_decrypt E k n c = Some p"
proof -
  have "aes_gcm_encrypt E k n p \<noteq> None"
    using assms by (simp add: aead_laws_def)
  then show thesis
    using that aead_roundtrip [OF assms(1-3)] by blast
qed

lemma rfc3339D [ext_laws]:
  assumes "chrono_rfc3339_laws E"
  shows "rfc3339_range t \<Longrightarrow> chrono_parse_rfc3339 E (chrono_to_rfc3339 E t) = Ok t"
    and "\<lbrakk>rfc3339_range t; rfc3339_range u\<rbrakk> \<Longrightarrow>
      chrono_to_rfc3339 E t \<le> chrono_to_rfc3339 E u \<longleftrightarrow> t \<le> u"
    and "chrono_parse_rfc3339 E s \<noteq> Panic m"
  using assms by (auto simp: chrono_rfc3339_laws_def)

end
