(* ===== verification/Reference_Externals.thy ===== *)
theory Reference_Externals
  imports Externals
begin

text \<open>
  One concrete value of \<open>ext\<close>, for which all the documented laws hold. It
  shows that the laws are consistent and gives the theorems with such a
  hypothesis a concrete instance. The base64 codecs, the UUID forms and the
  arithmetic of instants are those of the crates; the cipher, the document format
  and the timestamp text are simple stand-ins with the same laws, and nothing in
  the development depends on their shape.
\<close>

section \<open>Base64\<close>

definition url_alphabet :: string where
  "url_alphabet = ''ABCDEFGHIJKLMNOPQRSTUVWXYZabcdefghijklmnopqrstuvwxyz0123456789-_''"

definition std_alphabet :: string where
  "std_alphabet = ''ABCDEFGHIJKLMNOPQRSTUVWXYZabcdefghijklmnopqrstuvwxyz0123456789+/''"

text \<open>Three bytes make four groups of six bits; a rest of one or two bytes makes two or three.\<close>

fun sextets :: "nat list \<Rightarrow> nat list" where
  "sextets [] = []"
| "sextets [a] = [a div 4, a mod 4 * 16]"
| "sextets [a, b] = [a div 4, a mod 4 * 16 + b div 16, b mod 16 * 4]"
| "sextets (a # b # c # r) =
     [a div 4, a mod 4 * 16 + b div 16, b mod 16 * 4 + c div 64, c mod 64] @ sextets r"

fun octets :: "nat list \<Rightarrow> nat list" where
  "octets (x # y # z # w # r) = [x * 4 + y div 16, y mod 16 * 16 + z div 4, z mod 4 * 64 + w] @ octets r"
| "octets [x, y, z] = [x * 4 + y div 16, y mod 16 * 16 + z div 4]"
| "octets [x, y] = [x * 4 + y div 16]"
| "octets _ = []"

definition alphabet_index :: "string \<Rightarrow> char \<Rightarrow> nat" where
  "alphabet_index al c = length (takeWhile (\<lambda>d. d \<noteq> c) al)"

definition b64_encode :: "string \<Rightarrow> bytes \<Rightarrow> string" where
  "b64_encode al bs = map (\<lambda>i. al ! i) (sextets (map unat bs))"

definition b64_decode :: "string \<Rightarrow> string \<Rightarrow> bytes option" where
  "b64_decode al s =
     (let bs = map of_nat (octets (map (alphabet_index al) s)) in
      if b64_encode al bs = s then Some bs else None)"

definition b64_pad :: "string \<Rightarrow> string" where
  "b64_pad s = s @ replicate ((4 - length s mod 4) mod 4) (CHR ''='')"

lemma octet_arith:
  fixes a b c :: nat
  shows "b < 256 \<Longrightarrow> a div 4 * 4 + (a mod 4 * 16 + b div 16) div 16 = a"
    and "\<lbrakk>b < 256; c < 256\<rbrakk> \<Longrightarrow>
      (a mod 4 * 16 + b div 16) mod 16 * 16 + (b mod 16 * 4 + c div 64) div 4 = b"
    and "\<lbrakk>b < 256; c < 256\<rbrakk> \<Longrightarrow> (b mod 16 * 4 + c div 64) mod 4 * 64 + c mod 64 = c"
  using div_less_iff_less_mult [of 16 b 16] div_less_iff_less_mult [of 64 c 4]
  by (simp_all add: mult.commute)

lemma octets_sextets: "\<forall>x \<in> set xs. x < 256 \<Longrightarrow> octets (sextets xs) = xs"
proof (induction xs rule: sextets.induct)
  case (2 a)
  then show ?case using octet_arith(1) [where a = a and b = 0] by simp
next
  case (3 a b)
  then show ?case using octet_arith(1) [where a = a and b = b] octet_arith(2) [where a = a and b = b and c = 0] by simp
next
  case (4 a b c r)
  then show ?case 
    using octet_arith(1) [where a = a and b = b] octet_arith(2) [where a = a and b = b and c = c]
      octet_arith(3) [where b = b and c = c] by simp
qed simp

lemma sextet_bounds:
  fixes a b c :: nat
  assumes "a < 256" "b < 256" "c < 256"
  shows "a div 4 < 64" "a mod 4 * 16 + b div 16 < 64" "b mod 16 * 4 + c div 64 < 64"
proof -
  have "a mod 4 \<le> 3" "b mod 16 \<le> 15" "b div 16 < 16" "c div 64 < 4"
    using assms mod_less_divisor [of 4 a] mod_less_divisor [of 16 b]
    by (linarith | simp add: div_less_iff_less_mult)+
  then show "a div 4 < 64" "a mod 4 * 16 + b div 16 < 64" "b mod 16 * 4 + c div 64 < 64"
    using assms by (simp_all add: div_less_iff_less_mult)
qed

lemma sextets_bound: "\<forall>x \<in> set xs. x < 256 \<Longrightarrow> \<forall>y \<in> set (sextets xs). y < 64"
proof (induction xs rule: sextets.induct)
  case (4 a b c r)
  then show ?case using sextet_bounds [of a b c] by auto
next
  case (3 a b)
  then show ?case using sextet_bounds [of a b 0] by auto
next
  case (2 a)
  then show ?case using sextet_bounds [of a 0 0] by auto
qed simp

lemma length_sextets: "length (sextets xs) = (4 * length xs + 2) div 3"
proof (induction xs rule: sextets.induct)
  case (4 a b c r)
  have "(4 * length (a # b # c # r) + 2) div 3 = 4 + (4 * length r + 2) div 3"
    by simp
  with 4 show ?case by simp
qed simp_all

lemma alphabet_index_nth: "\<lbrakk>distinct al; i < length al\<rbrakk> \<Longrightarrow> alphabet_index al (al ! i) = i"
proof (induction al arbitrary: i)
  case (Cons a al)
  then show ?case
    by (cases i) (auto simp: alphabet_index_def)
qed simp

lemma alphabets:
  "distinct url_alphabet" "length url_alphabet = 64"
  "distinct std_alphabet" "length std_alphabet = 64" "CHR ''='' \<notin> set std_alphabet"
  by code_simp+

lemma unat_byte_less: "unat (b :: byte) < 256"
  using unsigned_less [of b] by simp

lemma b64_roundtrip:
  assumes "distinct al" "length al = 64"
  shows "b64_decode al (b64_encode al bs) = Some bs"
proof -
  have b: "\<forall>x \<in> set (map unat bs). x < 256"
    by (auto simp: unat_byte_less)
  have "map (alphabet_index al) (b64_encode al bs) = sextets (map unat bs)"
    using sextets_bound [OF b] assms by (auto simp: b64_encode_def alphabet_index_nth intro: map_idI)
  then have "map of_nat (octets (map (alphabet_index al) (b64_encode al bs))) = bs"
    by (simp add: octets_sextets [OF b] comp_def)
  then show ?thesis
    by (simp add: b64_decode_def)
qed

lemma b64_strict: "b64_decode al s = Some bs \<Longrightarrow> b64_encode al bs = s"
  by (auto simp: b64_decode_def Let_def split: if_splits)

lemma length_b64_encode: "length (b64_encode al bs) = (4 * length bs + 2) div 3"
  by (simp add: b64_encode_def length_sextets)

lemma b64_pad_filter: "CHR ''='' \<notin> set s \<Longrightarrow> filter (\<lambda>c. c \<noteq> CHR ''='') (b64_pad s) = s"
  by (auto simp: b64_pad_def filter_id_conv)

lemma set_b64_encode: "length al = 64 \<Longrightarrow> set (b64_encode al bs) \<subseteq> set al"
proof
  fix c assume al: "length al = 64" and "c \<in> set (b64_encode al bs)"
  then obtain i where "i \<in> set (sextets (map unat bs))" "c = al ! i"
    by (auto simp: b64_encode_def)
  moreover from this have "i < 64"
    using sextets_bound [of "map unat bs"] by (auto simp: unat_byte_less)
  ultimately show "c \<in> set al" using al by simp
qed

section \<open>UUIDs\<close>

definition hex_digit :: "nat \<Rightarrow> char" where
  "hex_digit n = ''0123456789abcdef'' ! n"

definition hex_bytes :: "bytes \<Rightarrow> string" where
  "hex_bytes bs = concat (map (\<lambda>b. [hex_digit (unat b div 16), hex_digit (unat b mod 16)]) bs)"

definition hyphenate :: "string \<Rightarrow> string" where
  "hyphenate h = take 8 h @ ''-'' @ take 4 (drop 8 h) @ ''-'' @ take 4 (drop 12 h) @ ''-'' @
     take 4 (drop 16 h) @ ''-'' @ drop 20 h"

lemma hex_digit_facts: "\<forall>i < 16. \<forall>j < 16. (hex_digit i = hex_digit j \<longrightarrow> i = j) \<and> hex_digit i \<noteq> CHR ''-''"
  by code_simp

lemma hex_pair_inj:
  assumes "hex_digit (unat (a::byte) div 16) = hex_digit (unat (b::byte) div 16)"
    and "hex_digit (unat a mod 16) = hex_digit (unat b mod 16)"
  shows "a = b"
proof -
  have "unat a div 16 < 16" "unat b div 16 < 16"
    using unat_byte_less [of a] unat_byte_less [of b] by (simp_all add: div_less_iff_less_mult)
  then have "unat a div 16 = unat b div 16" "unat a mod 16 = unat b mod 16"
    using assms hex_digit_facts by simp_all
  then have "unat a = unat b" by (metis mult_div_mod_eq)
  then show ?thesis by (simp add: word_unat_eq_iff)
qed

lemma hex_bytes_inj: "hex_bytes a = hex_bytes b \<Longrightarrow> a = b"
proof (induction a arbitrary: b)
  case Nil
  then show ?case by (cases b) (auto simp: hex_bytes_def)
next
  case (Cons x a)
  then show ?case by (cases b) (auto simp: hex_bytes_def intro: hex_pair_inj)
qed

lemma hex_no_hyphen: "CHR ''-'' \<notin> set (hex_bytes bs)"
proof (induction bs)
  case (Cons b bs)
  have "unat b div 16 < 16" "unat b mod 16 < 16"
    using unat_byte_less [of b] by (simp_all add: div_less_iff_less_mult)
  then have "hex_digit (unat b div 16) \<noteq> CHR ''-''" "hex_digit (unat b mod 16) \<noteq> CHR ''-''"
    using hex_digit_facts by blast+
  with Cons show ?case by (auto simp: hex_bytes_def)
qed (simp add: hex_bytes_def)

lemma hyphenate_filter: "CHR ''-'' \<notin> set h \<Longrightarrow> filter (\<lambda>c. c \<noteq> CHR ''-'') (hyphenate h) = h"
proof -
  assume h: "CHR ''-'' \<notin> set h"
  have f: "filter (\<lambda>c. c \<noteq> CHR ''-'') t = t" if "set t \<subseteq> set h" for t
    using h that by (auto simp: filter_id_conv)
  have "filter (\<lambda>c. c \<noteq> CHR ''-'') (hyphenate h) =
      take 8 h @ take 4 (drop 8 h) @ take 4 (drop 12 h) @ take 4 (drop 16 h) @ drop 20 h"
    by (simp add: hyphenate_def f set_take_subset set_drop_subset
        subset_trans [OF set_take_subset set_drop_subset])
  also have "\<dots> = h"
    using append_take_drop_id [of 8 h] append_take_drop_id [of 4 "drop 8 h"]
      append_take_drop_id [of 4 "drop 12 h"] append_take_drop_id [of 4 "drop 16 h"]
    by simp
  finally show ?thesis .
qed

section \<open>Documents\<close>

text \<open>
  A prefix code for documents: a tag per constructor, strings with every
  character marked, numbers as 64 binary digits.
\<close>

definition text_code :: "string \<Rightarrow> string" where
  "text_code s = concat (map (\<lambda>c. [CHR ''.'', c]) s) @ ''e''"

definition word_code :: "u64 \<Rightarrow> string" where
  "word_code w = map (\<lambda>i. if bit w i then CHR ''1'' else CHR ''0'') [0..<64]"

fun json_code :: "json \<Rightarrow> string" where
  "json_code JNull = ''n''"
| "json_code (JBool b) = (if b then ''t'' else ''f'')"
| "json_code (JNumber (PosInt w)) = ''p'' @ word_code w"
| "json_code (JNumber (NegInt w)) = ''m'' @ word_code w"
| "json_code (JNumber (Float w)) = ''d'' @ word_code w"
| "json_code (JString s) = ''s'' @ text_code s"
| "json_code (JArray vs) = ''['' @ concat (map (\<lambda>v. '','' @ json_code v) vs) @ '']''"
| "json_code (JObject kvs) = ''{'' @ concat (map (\<lambda>kv. '','' @ text_code (fst kv) @ json_code (snd kv)) kvs) @ ''}''"

fun read_text :: "string \<Rightarrow> (string \<times> string) option" where
  "read_text (m # c # r) =
     (if m = CHR ''.'' then map_option (map_prod (Cons c) id) (read_text r)
      else if m = CHR ''e'' then Some ([], c # r) else None)"
| "read_text [m] = (if m = CHR ''e'' then Some ([], []) else None)"
| "read_text [] = None"

definition read_word :: "string \<Rightarrow> u64 \<times> string" where
  "read_word s = (horner_sum of_bool 2 (map (\<lambda>c. c = CHR ''1'') (take 64 s)), drop 64 s)"

fun read_json :: "nat \<Rightarrow> string \<Rightarrow> (json \<times> string) option"
  and read_items :: "nat \<Rightarrow> string \<Rightarrow> (json list \<times> string) option"
  and read_fields :: "nat \<Rightarrow> string \<Rightarrow> ((string \<times> json) list \<times> string) option" where
  "read_json (Suc n) (c # r) =
     (if c = CHR ''n'' then Some (JNull, r)
      else if c = CHR ''t'' then Some (JBool True, r)
      else if c = CHR ''f'' then Some (JBool False, r)
      else if c = CHR ''p'' then Some (map_prod (JNumber \<circ> PosInt) id (read_word r))
      else if c = CHR ''m'' then Some (map_prod (JNumber \<circ> NegInt) id (read_word r))
      else if c = CHR ''d'' then Some (map_prod (JNumber \<circ> Float) id (read_word r))
      else if c = CHR ''s'' then map_option (map_prod JString id) (read_text r)
      else if c = CHR ''['' then map_option (map_prod JArray id) (read_items n r)
      else if c = CHR ''{'' then map_option (map_prod JObject id) (read_fields n r)
      else None)"
| "read_json _ _ = None"
| "read_items (Suc n) (c # r) =
     (if c = CHR '']'' then Some ([], r)
      else case read_json n r of None \<Rightarrow> None
        | Some (v, r') \<Rightarrow> map_option (map_prod (Cons v) id) (read_items n r'))"
| "read_items _ _ = None"
| "read_fields (Suc n) (c # r) =
     (if c = CHR ''}'' then Some ([], r)
      else case read_text r of None \<Rightarrow> None
        | Some (k, r') \<Rightarrow> (case read_json n r' of None \<Rightarrow> None
            | Some (v, r'') \<Rightarrow> map_option (map_prod (Cons (k, v)) id) (read_fields n r'')))"
| "read_fields _ _ = None"

lemma read_text_code: "read_text (text_code s @ r) = Some (s, r)"
proof (induction s)
  case Nil
  then show ?case by (cases r) (simp_all add: text_code_def)
next
  case (Cons c s)
  then show ?case by (simp add: text_code_def)
qed

lemma read_word_code: "read_word (word_code w @ r) = (w, r)"
proof -
  have "map ((\<lambda>c. c = CHR ''1'') \<circ> (\<lambda>i. if bit w i then CHR ''1'' else CHR ''0'')) [0..<64] = map (bit w) [0..<64]"
    by (rule map_cong) auto
  then have "horner_sum of_bool 2 (map ((\<lambda>c. c = CHR ''1'') \<circ> (\<lambda>i. if bit w i then CHR ''1'' else CHR ''0'')) [0..<64]) = w"
    by (simp only: horner_sum_bit_eq_take_bit) (simp add: take_bit_word_eq_self)
  then show ?thesis
    by (simp only: read_word_def word_code_def) simp
qed

lemma read_items_code:
  assumes "\<forall>v \<in> set vs. \<forall>n r. length (json_code v) \<le> n \<longrightarrow> read_json n (json_code v @ r) = Some (v, r)"
    and "length (concat (map (\<lambda>v. '','' @ json_code v) vs)) < n"
  shows "read_items n (concat (map (\<lambda>v. '','' @ json_code v) vs) @ '']'' @ r) = Some (vs, r)"
  using assms
proof (induction vs arbitrary: n)
  case Nil
  then show ?case by (cases n) auto
next
  case (Cons v vs)
  then obtain n' where n: "n = Suc n'" by (cases n) auto
  then show ?case using Cons by simp
qed

lemma read_fields_code:
  assumes "\<forall>kv \<in> set kvs. \<forall>n r. length (json_code (snd kv)) \<le> n \<longrightarrow>
      read_json n (json_code (snd kv) @ r) = Some (snd kv, r)"
    and "length (concat (map (\<lambda>kv. '','' @ text_code (fst kv) @ json_code (snd kv)) kvs)) < n"
  shows "read_fields n (concat (map (\<lambda>kv. '','' @ text_code (fst kv) @ json_code (snd kv)) kvs) @ ''}'' @ r) =
    Some (kvs, r)"
  using assms
proof (induction kvs arbitrary: n)
  case Nil
  then show ?case by (cases n) auto
next
  case (Cons kv kvs)
  then obtain n' where n: "n = Suc n'" by (cases n) auto
  then show ?case using Cons by (simp add: read_text_code)
qed

lemma read_json_code: "length (json_code v) \<le> n \<Longrightarrow> read_json n (json_code v @ r) = Some (v, r)"
proof (induction v arbitrary: n r rule: json_code.induct)
  case (7 vs)
  then obtain n' where n: "n = Suc n'" by (cases n) auto
  then show ?case using 7 read_items_code [of vs n' r] by simp
next
  case (8 kvs)
  then obtain n' where n: "n = Suc n'" by (cases n) auto
  have "\<forall>kv \<in> set kvs. \<forall>n r. length (json_code (snd kv)) \<le> n \<longrightarrow>
      read_json n (json_code (snd kv) @ r) = Some (snd kv, r)"
    using 8 by blast
  then show ?case using 8 n read_fields_code [of kvs n' r] by simp
qed (case_tac n, auto simp: read_word_code read_text_code)+

definition byte_char :: "byte \<Rightarrow> char" where
  "byte_char b = char_of (unat b)"

definition document_of :: "bytes \<Rightarrow> (json, string) result" where
  "document_of bs =
     (case read_json (length bs) (map byte_char bs) of
        Some (v, []) \<Rightarrow> Ok v | _ \<Rightarrow> Err ''expected value'')"

lemma byte_char_of_char [simp]: "byte_char (of_char c) = c"
proof -
  have "(of_char c :: nat) < 256" by simp
  then have "unat (of_nat (of_char c) :: byte) = of_char c"
    by (simp add: unat_of_nat take_bit_eq_mod)
  then show ?thesis
    by (simp add: byte_char_def of_nat_of_char)
qed

lemma of_char_byte_char [simp]: "of_char (byte_char b) = b"
proof -
  have "(of_char (byte_char b) :: nat) = unat b"
    using unat_byte_less [of b] by (simp only: byte_char_def of_char_of) simp
  then have "of_nat (of_char (byte_char b)) = b" by simp
  then show ?thesis by (simp only: of_nat_of_char)
qed

lemma byte_char_as_bytes [simp]: "map byte_char (as_bytes s) = s" "as_bytes (map byte_char bs) = bs"
  by (simp_all add: as_bytes_def comp_def)

lemma document_of_code: "document_of (as_bytes (json_code v)) = Ok v"
  using read_json_code [of v "length (json_code v)" "[]"] by (simp add: document_of_def)

section \<open>Instants\<close>

text \<open>
  Decimal text of a fixed width orders as the numbers do; the text of an instant
  in the RFC 3339 range is its distance from the year 0 in that form.
\<close>

fun fixed_digits :: "nat \<Rightarrow> nat \<Rightarrow> string" where
  "fixed_digits 0 n = []"
| "fixed_digits (Suc w) n = digit_char (n div 10 ^ w) # fixed_digits w (n mod 10 ^ w)"

definition read_digits :: "nat \<Rightarrow> string \<Rightarrow> nat" where
  "read_digits = foldl (\<lambda>n c. n * 10 + (of_char c - 48))"

definition year0_offset :: int where
  "year0_offset = 62167219200 * 1000000000"

definition instant_text :: "datetime \<Rightarrow> string" where
  "instant_text t =
     (if rfc3339_range t then fixed_digits 21 (nat (t + year0_offset))
      else (if 0 \<le> t then ''+'' else ''-'') @ show_nat (nat \<bar>t\<bar>))"

definition parse_instant :: "string \<Rightarrow> (datetime, string) result" where
  "parse_instant s =
     (case s of
        [] \<Rightarrow> Err ''premature end of input''
      | c # _ \<Rightarrow> if CHR ''0'' \<le> c \<and> c \<le> CHR ''9'' then Ok (int (read_digits 0 s) - year0_offset)
               else Err ''input contains invalid characters'')"

definition serialize_instant :: "datetime \<Rightarrow> string" where
  "serialize_instant t = (if 0 \<le> t then ''+'' else ''-'') @ show_nat (nat \<bar>t\<bar>)"

definition deserialize_instant :: "string \<Rightarrow> datetime option" where
  "deserialize_instant s =
     (case s of
        c # ds \<Rightarrow> if c = CHR ''+'' then Some (int (read_digits 0 ds))
                 else if c = CHR ''-'' then Some (- int (read_digits 0 ds)) else None
      | [] \<Rightarrow> None)"

lemma digit_char_value: "n < 10 \<Longrightarrow> of_char (digit_char n) = 48 + n"
  by (simp add: digit_char_def)

lemma digit_char_le: "\<lbrakk>m < 10; n < 10\<rbrakk> \<Longrightarrow> digit_char m \<le> digit_char n \<longleftrightarrow> m \<le> n"
  by (simp add: less_eq_char_def digit_char_value)

lemma digit_char_less: "\<lbrakk>m < 10; n < 10\<rbrakk> \<Longrightarrow> digit_char m < digit_char n \<longleftrightarrow> m < n"
  by (simp add: less_char_def digit_char_value)

lemma digit_char_inj: "\<lbrakk>m < 10; n < 10\<rbrakk> \<Longrightarrow> digit_char m = digit_char n \<longleftrightarrow> m = n"
  by (metis digit_char_value add_left_cancel)

lemma read_show_nat: "read_digits 0 (show_nat n) = n"
proof (induction n rule: show_nat.induct)
  case (1 n)
  then show ?case
    by (subst show_nat.simps) (simp add: read_digits_def digit_char_value)
qed

lemma read_fixed_digits: "n < 10 ^ w \<Longrightarrow> read_digits a (fixed_digits w n) = a * 10 ^ w + n"
proof (induction w arbitrary: n a)
  case (Suc w)
  have "n div 10 ^ w < 10"
    using Suc.prems by (simp add: div_less_iff_less_mult)
  moreover have "read_digits a (c # cs) = read_digits (a * 10 + (of_char c - 48)) cs" for a c cs
    by (simp add: read_digits_def)
  ultimately show ?case
    using Suc.IH [of "n mod 10 ^ w"] by (simp add: digit_char_value algebra_simps)
qed (simp add: read_digits_def)

lemma div_mod_le:
  fixes b m n :: nat
  assumes "0 < b"
  shows "m \<le> n \<longleftrightarrow> m div b < n div b \<or> m div b = n div b \<and> m mod b \<le> n mod b"
proof (cases "m div b" "n div b" rule: linorder_cases)
  case less
  then have "m < n" by (meson div_le_mono leD leI)
  then show ?thesis using less by simp
next
  case equal
  then show ?thesis
    using mult_div_mod_eq [of b m] mult_div_mod_eq [of b n] by (metis add_le_cancel_left less_irrefl)
next
  case greater
  then have "n < m" by (meson div_le_mono leD leI)
  then show ?thesis using greater by simp
qed

lemma fixed_digits_le:
  "\<lbrakk>m < 10 ^ w; n < 10 ^ w\<rbrakk> \<Longrightarrow> fixed_digits w m \<le> fixed_digits w n \<longleftrightarrow> m \<le> n"
proof (induction w arbitrary: m n)
  case (Suc w)
  let ?b = "10 ^ w :: nat"
  have bound: "m div ?b < 10" "n div ?b < 10"
    using Suc.prems by (simp_all add: div_less_iff_less_mult)
  have "m \<le> n \<longleftrightarrow> m div ?b < n div ?b \<or> m div ?b = n div ?b \<and> m mod ?b \<le> n mod ?b"
    by (rule div_mod_le) simp
  moreover have "digit_char (m div ?b) = digit_char (n div ?b) \<longleftrightarrow> m div ?b = n div ?b"
    by (rule digit_char_inj [OF bound])
  ultimately show ?case
    using Suc.IH [of "m mod ?b" "n mod ?b"] by (simp add: digit_char_less bound)
qed simp

lemma instant_in_range:
  "rfc3339_range t \<Longrightarrow> 0 \<le> t + year0_offset \<and> nat (t + year0_offset) < 10 ^ 21"
  by (auto simp: rfc3339_range_def year0_offset_def nat_less_iff)

lemma fixed_digits_head:
  assumes "n < 10 ^ Suc w"
  shows "\<exists>c s. fixed_digits (Suc w) n = c # s \<and> CHR ''0'' \<le> c \<and> c \<le> CHR ''9''"
proof -
  have "n div 10 ^ w < 10"
    using assms by (simp add: div_less_iff_less_mult)
  then show ?thesis
    by (simp add: less_eq_char_def digit_char_value)
qed

lemma instant_text_head:
  assumes "rfc3339_range t"
  obtains c s where "instant_text t = c # s" "CHR ''0'' \<le> c" "c \<le> CHR ''9''"
proof -
  have "instant_text t = fixed_digits (Suc 20) (nat (t + year0_offset))"
    using assms by (simp add: instant_text_def del: fixed_digits.simps)
  moreover have "nat (t + year0_offset) < 10 ^ Suc 20"
    using instant_in_range [OF assms] by simp
  ultimately show thesis
    using that fixed_digits_head by metis
qed

lemma parse_instant_text:
  assumes "rfc3339_range t"
  shows "parse_instant (instant_text t) = Ok t"
proof -
  obtain c s where cs: "instant_text t = c # s" "CHR ''0'' \<le> c" "c \<le> CHR ''9''"
    by (rule instant_text_head [OF assms])
  have "read_digits 0 (instant_text t) = nat (t + year0_offset)"
    using instant_in_range [OF assms] assms by (simp add: instant_text_def read_fixed_digits del: fixed_digits.simps)
  then have "parse_instant (instant_text t) = Ok (int (nat (t + year0_offset)) - year0_offset)"
    using cs by (simp add: parse_instant_def)
  then show ?thesis
    using instant_in_range [OF assms] by simp
qed

lemma instant_text_le:
  assumes "rfc3339_range t" "rfc3339_range u"
  shows "instant_text t \<le> instant_text u \<longleftrightarrow> t \<le> u"
  using instant_in_range [OF assms(1)] instant_in_range [OF assms(2)] assms
  by (simp add: instant_text_def fixed_digits_le del: fixed_digits.simps) linarith

section \<open>The instance\<close>

text \<open>The stand-in cipher tags the plaintext with the key and nonce it was sealed under.\<close>

definition ref_encrypt :: "bytes \<Rightarrow> bytes \<Rightarrow> bytes \<Rightarrow> bytes option" where
  "ref_encrypt k n p = (if length p \<le> 2 ^ 36 then Some (k @ n @ p) else None)"

definition ref_decrypt :: "bytes \<Rightarrow> bytes \<Rightarrow> bytes \<Rightarrow> bytes option" where
  "ref_decrypt k n c = strip_prefix (k @ n) c"

definition ref_ext :: ext where
  "ref_ext = \<lparr>
     base64_url_encode = b64_encode url_alphabet,
     base64_url_decode = b64_decode url_alphabet,
     base64_std_encode = (\<lambda>bs. b64_pad (b64_encode std_alphabet bs)),
     base64_std_decode = (\<lambda>s. b64_decode std_alphabet (filter (\<lambda>c. c \<noteq> CHR ''='') s)),
     uuid_simple = hex_bytes,
     uuid_hyphenated = (\<lambda>bs. hyphenate (hex_bytes bs)),
     aes_gcm_encrypt = ref_encrypt,
     aes_gcm_decrypt = ref_decrypt,
     serde_to_vec = (\<lambda>v. Ok (as_bytes (json_code v))),
     serde_to_vec_pretty = (\<lambda>v. Ok (as_bytes (json_code v))),
     serde_to_string = json_code,
     serde_from_slice = document_of,
     chrono_seconds = (\<lambda>s. if \<bar>s\<bar> \<le> max_duration_seconds then Some (s * 1000000000) else None),
     chrono_add = (\<lambda>t d. if t + d \<le> 8210266876799999999999 then Some (t + d) else None),
     chrono_max = 8210266876799999999999,
     chrono_serialize = serialize_instant,
     chrono_deserialize = deserialize_instant,
     chrono_to_rfc3339 = instant_text,
     chrono_parse_rfc3339 = parse_instant,
     header_to_str = (\<lambda>v. if list_all visible_ascii v then Some (map byte_char v) else None),
     ct_eq = (=)\<rparr>"

lemma ref_base64_url: "base64_url_laws ref_ext"
  by (simp add: base64_url_laws_def ref_ext_def b64_roundtrip alphabets b64_strict length_b64_encode)

lemma ref_base64_std: "base64_std_laws ref_ext"
proof -
  have "CHR ''='' \<notin> set (b64_encode std_alphabet bs)" for bs
    using set_b64_encode [OF alphabets(4)] alphabets(5) by blast
  then show ?thesis
    by (simp add: base64_std_laws_def ref_ext_def b64_pad_filter b64_roundtrip alphabets)
qed

lemma ref_uuid: "uuid_laws ref_ext"
proof -
  have "inj (\<lambda>bs. hyphenate (hex_bytes bs))"
    by (rule injI) (metis hyphenate_filter hex_no_hyphen hex_bytes_inj)
  then show ?thesis
    using hex_bytes_inj by (auto simp: uuid_laws_def ref_ext_def inj_on_def)
qed

lemma ref_aead: "aead_laws ref_ext"
  by (auto simp: aead_laws_def ref_ext_def ref_encrypt_def ref_decrypt_def)

lemma ref_serde_json: "serde_json_laws ref_ext"
  by (auto simp: serde_json_laws_def ref_ext_def document_of_code)
    (auto simp: document_of_def split: option.splits list.splits)

lemma ref_chrono_arith: "chrono_arith_laws ref_ext"
  by (simp add: chrono_arith_laws_def ref_ext_def)

lemma ref_chrono_serde: "chrono_serde_laws ref_ext"
  by (simp add: chrono_serde_laws_def ref_ext_def serialize_instant_def deserialize_instant_def read_show_nat)

lemma ref_chrono_rfc3339: "chrono_rfc3339_laws ref_ext"
proof -
  have "parse_instant s \<noteq> Panic m" for s m
    by (simp add: parse_instant_def split: list.splits)
  then show ?thesis
    by (simp add: chrono_rfc3339_laws_def ref_ext_def parse_instant_text instant_text_le)
qed

lemma ref_expanded_year: "chrono_expanded_year_laws ref_ext"
proof -
  have "instant_text t = CHR ''+'' # show_nat (nat \<bar>t\<bar>)" if "253402300800 * 1000000000 \<le> t" for t
    using that by (simp add: instant_text_def rfc3339_range_def)
  moreover have "\<exists>c s. instant_text t = c # s \<and> CHR ''0'' \<le> c \<and> c \<le> CHR ''9''" if "rfc3339_range t" for t
    using instant_text_head [OF that] by blast
  ultimately show ?thesis
    by (simp add: chrono_expanded_year_laws_def ref_ext_def parse_instant_def less_eq_char_def)
qed

lemma ref_header: "header_laws ref_ext"
  by (auto simp: header_laws_def ref_ext_def)

lemma ref_ct_eq: "ct_eq_laws ref_ext"
  by (simp add: ct_eq_laws_def ref_ext_def)

lemmas ref_laws = ref_base64_url ref_base64_std ref_uuid ref_aead ref_serde_json ref_chrono_arith
  ref_chrono_serde ref_chrono_rfc3339 ref_expanded_year ref_header ref_ct_eq

end
