(* ===== verification/Claim_Id.thy ===== *)
theory Claim_Id
  imports Reference_Externals
begin

text \<open>
  \<^verbatim>\<open>src/domain/claim_id.rs\<close>: the claim identifier, its base64url token
  form and its redacted debug output.
\<close>

definition RECORD_ID_LEN :: nat where
  "RECORD_ID_LEN = 16"

definition ENCRYPTION_KEY_LEN :: nat where
  "ENCRYPTION_KEY_LEN = 32"

definition CLAIM_ID_BYTES :: nat where
  "CLAIM_ID_BYTES = RECORD_ID_LEN + ENCRYPTION_KEY_LEN"

lemmas claim_lengths [simp] = RECORD_ID_LEN_def ENCRYPTION_KEY_LEN_def CLAIM_ID_BYTES_def

record claim_id =
  record_id :: bytes
  encryption_key :: bytes

text \<open>The array types \<open>[u8; 16]\<close> and \<open>[u8; 32]\<close> of the fields.\<close>

definition claim_id_ok :: "claim_id \<Rightarrow> bool" where
  "claim_id_ok c \<longleftrightarrow> length (record_id c) = RECORD_ID_LEN \<and> length (encryption_key c) = ENCRYPTION_KEY_LEN"

text \<open>\<open>new\<close> draws a UUIDv4; the drawn bytes are an argument.\<close>

definition claim_id_new :: "bytes \<Rightarrow> bytes \<Rightarrow> claim_id" where
  "claim_id_new uuid key = \<lparr>record_id = uuid, encryption_key = key\<rparr>"

text \<open>\<open>buf[off..off + len].copy_from_slice(src)\<close>.\<close>

definition copy_from_slice :: "nat \<Rightarrow> bytes \<Rightarrow> bytes \<Rightarrow> bytes" where
  "copy_from_slice off src buf = take off buf @ src @ drop (off + length src) buf"

definition claim_id_encode :: "ext \<Rightarrow> claim_id \<Rightarrow> string" where
  "claim_id_encode E c =
     (let buf = replicate CLAIM_ID_BYTES 0;
          buf = copy_from_slice 0 (record_id c) buf;
          buf = copy_from_slice RECORD_ID_LEN (encryption_key c) buf
      in base64_url_encode E buf)"

definition claim_id_decode :: "ext \<Rightarrow> string \<Rightarrow> (claim_id, vault_error) result" where
  "claim_id_decode E s =
     (case base64_url_decode E s of
        None \<Rightarrow> Err InvalidClaimId
      | Some bs \<Rightarrow>
          if length bs \<noteq> CLAIM_ID_BYTES then Err InvalidClaimId
          else Ok \<lparr>record_id = take RECORD_ID_LEN bs, encryption_key = drop RECORD_ID_LEN bs\<rparr>)"

definition record_id_hex :: "ext \<Rightarrow> claim_id \<Rightarrow> string" where
  "record_id_hex E c = uuid_simple E (record_id c)"

text \<open>
  The \<open>Debug\<close> form of a string that needs no escapes (hex digits and the
  redaction marker need none).
\<close>

definition debug_str :: "string \<Rightarrow> string" where
  "debug_str s = [CHR 0x22] @ s @ [CHR 0x22]"

definition claim_id_debug :: "ext \<Rightarrow> claim_id \<Rightarrow> string" where
  "claim_id_debug E c =
     ''ClaimId { record_id: '' @ debug_str (record_id_hex E c) @
     '', encryption_key: '' @ debug_str ''<redacted>'' @ '' }''"

definition claim_id_zeroize :: "claim_id \<Rightarrow> claim_id" where
  "claim_id_zeroize c =
     c\<lparr>record_id := map (\<lambda>_. 0) (record_id c), encryption_key := map (\<lambda>_. 0) (encryption_key c)\<rparr>"

section \<open>Lemmas\<close>

lemma encode_buffer:
  "claim_id_ok c \<Longrightarrow> claim_id_encode E c = base64_url_encode E (record_id c @ encryption_key c)"
  by (simp add: claim_id_encode_def copy_from_slice_def claim_id_ok_def Let_def)

lemma claim_id_new_ok [simp]:
  "claim_id_ok (claim_id_new uuid key) \<longleftrightarrow> length uuid = 16 \<and> length key = 32"
  by (simp add: claim_id_ok_def claim_id_new_def)

lemma decode_encode:
  assumes "base64_url_laws E" "claim_id_ok c"
  shows "claim_id_decode E (claim_id_encode E c) = Ok c"
  using assms
  by (simp add: encode_buffer claim_id_decode_def base64_urlD(1) claim_id_ok_def)

lemma encode_length:
  assumes "base64_url_laws E" "claim_id_ok c"
  shows "length (claim_id_encode E c) = 64"
  using assms by (simp add: encode_buffer base64_urlD(3) claim_id_ok_def)

lemma decode_Ok:
  assumes "base64_url_laws E" "claim_id_decode E s = Ok c"
  shows "claim_id_ok c" and "claim_id_encode E c = s"
proof -
  from assms(2) obtain bs where bs: "base64_url_decode E s = Some bs" "length bs = 48"
    and c: "c = \<lparr>record_id = take 16 bs, encryption_key = drop 16 bs\<rparr>"
    by (auto simp: claim_id_decode_def split: option.splits if_splits)
  show ok: "claim_id_ok c"
    using bs c by (simp add: claim_id_ok_def)
  show "claim_id_encode E c = s"
    using base64_urlD(2) [OF assms(1) bs(1)] encode_buffer [OF ok, of E] by (simp add: c)
qed

lemma decode_total:
  "claim_id_decode E s = Err InvalidClaimId \<or> (\<exists>c. claim_id_decode E s = Ok c \<and> claim_id_ok c)"
  by (auto simp: claim_id_decode_def claim_id_ok_def split: option.splits)

lemma decode_ok_wf: "claim_id_decode E s = Ok c \<Longrightarrow> claim_id_ok c"
  using decode_total [of E s] by auto

section \<open>Properties\<close>

text \<open>
  C19: tokens and claims correspond one to one. A text decodes to a claim exactly
  when it is the encoding of that claim and the claim has a 16-byte id and a
  32-byte key; every other text is rejected as an invalid claim id, and every token
  has 64 characters.
\<close>

theorem claim_token_bijection:
  assumes "base64_url_laws E"
  shows "(claim_id_decode E s = Ok c \<longleftrightarrow> claim_id_ok c \<and> s = claim_id_encode E c) \<and>
    ((\<forall>c. claim_id_ok c \<longrightarrow> s \<noteq> claim_id_encode E c) \<longrightarrow> claim_id_decode E s = Err InvalidClaimId) \<and>
    (claim_id_ok c \<longrightarrow> length (claim_id_encode E c) = 64)"
  using decode_encode [OF assms] decode_Ok [OF assms] decode_total [of E s] encode_length [OF assms]
  by blast

theorem claim_token_bijection_witness:
  "claim_id_decode ref_ext (claim_id_encode ref_ext (claim_id_new (replicate 16 1) (replicate 32 7))) =
     Ok (claim_id_new (replicate 16 1) (replicate 32 7))"
  using claim_token_bijection [OF ref_base64_url] by simp

end
