(* ===== verification/Domain.thy ===== *)
theory Domain
  imports Claim_Id
begin

text \<open>
  \<^verbatim>\<open>src/domain/proof.rs\<close> and \<^verbatim>\<open>src/domain/record.rs\<close>: the plaintext
  container and the record written to storage, with the JSON form that the
  \<open>serde\<close> attributes of the source give it (the flattened encrypted part,
  the base64 fields, the optional expiry).
\<close>

section \<open>The plaintext proof\<close>

record plaintext_proof =
  proof_data :: bytes

definition proof_from_bytes :: "bytes \<Rightarrow> plaintext_proof" where
  "proof_from_bytes bs = \<lparr>proof_data = bs\<rparr>"

definition proof_from_json :: "ext \<Rightarrow> json \<Rightarrow> (plaintext_proof, vault_error) result" where
  "proof_from_json E v =
     bind_res (map_err Serialization (serde_to_vec E v)) (\<lambda>bs. Ok \<lparr>proof_data = bs\<rparr>)"

definition proof_as_bytes :: "plaintext_proof \<Rightarrow> bytes" where
  "proof_as_bytes p = proof_data p"

definition proof_into_json :: "ext \<Rightarrow> plaintext_proof \<Rightarrow> (json, vault_error) result" where
  "proof_into_json E p = map_err Serialization (value_from_slice E (proof_data p))"

definition proof_debug :: "plaintext_proof \<Rightarrow> string" where
  "proof_debug p = ''PlaintextProof(<redacted>)''"

section \<open>The stored record\<close>

record encrypted_record =
  nonce :: bytes
  ciphertext :: bytes

record stored_record =
  encrypted :: encrypted_record
  stored_at :: datetime
  expires_at :: "datetime option"

text \<open>\<open>is_expired\<close> reads the clock; the reading is an argument.\<close>

definition is_expired :: "datetime \<Rightarrow> stored_record \<Rightarrow> bool" where
  "is_expired now r = (case expires_at r of None \<Rightarrow> False | Some t \<Rightarrow> now > t)"

section \<open>The JSON form of a stored record\<close>

definition base64_field_serialize :: "ext \<Rightarrow> bytes \<Rightarrow> json" where
  "base64_field_serialize E bs = JString (base64_std_encode E bs)"

definition base64_field_deserialize :: "ext \<Rightarrow> json \<Rightarrow> (bytes, string) result" where
  "base64_field_deserialize E v =
     (case v of
        JString s \<Rightarrow> (case base64_std_decode E s of None \<Rightarrow> Err ''invalid base64'' | Some bs \<Rightarrow> Ok bs)
      | _ \<Rightarrow> Err ''invalid type: expected a string'')"

definition datetime_deserialize :: "ext \<Rightarrow> json \<Rightarrow> (datetime, string) result" where
  "datetime_deserialize E v =
     (case v of
        JString s \<Rightarrow> (case chrono_deserialize E s of None \<Rightarrow> Err ''invalid timestamp'' | Some t \<Rightarrow> Ok t)
      | _ \<Rightarrow> Err ''invalid type: expected a timestamp'')"

definition option_datetime_deserialize :: "ext \<Rightarrow> json \<Rightarrow> (datetime option, string) result" where
  "option_datetime_deserialize E v =
     (if v = JNull then Ok None else bind_res (datetime_deserialize E v) (\<lambda>t. Ok (Some t)))"

definition stored_record_serialize :: "ext \<Rightarrow> stored_record \<Rightarrow> json" where
  "stored_record_serialize E r = JObject
     [(''nonce'', base64_field_serialize E (nonce (encrypted r))),
      (''ciphertext'', base64_field_serialize E (ciphertext (encrypted r))),
      (''stored_at'', JString (chrono_serialize E (stored_at r))),
      (''expires_at'', case expires_at r of None \<Rightarrow> JNull | Some t \<Rightarrow> JString (chrono_serialize E t))]"

text \<open>
  A derived \<open>Deserialize\<close> ignores unknown keys, refuses a repeated or a
  missing one, and reads an absent \<open>Option\<close> as \<^const>\<open>None\<close>.
\<close>

definition json_field :: "string \<Rightarrow> (string \<times> json) list \<Rightarrow> (json option, string) result" where
  "json_field k kvs =
     (case filter (\<lambda>kv. fst kv = k) kvs of
        [] \<Rightarrow> Ok None
      | [kv] \<Rightarrow> Ok (Some (snd kv))
      | _ \<Rightarrow> Err (''duplicate field '' @ k))"

definition json_required :: "string \<Rightarrow> (string \<times> json) list \<Rightarrow> (json, string) result" where
  "json_required k kvs = bind_res (json_field k kvs)
     (\<lambda>v. case v of None \<Rightarrow> Err (''missing field '' @ k) | Some j \<Rightarrow> Ok j)"

definition stored_record_deserialize :: "ext \<Rightarrow> json \<Rightarrow> (stored_record, string) result" where
  "stored_record_deserialize E v =
     (case v of
        JObject kvs \<Rightarrow>
          bind_res (json_required ''stored_at'' kvs) (\<lambda>js.
          bind_res (datetime_deserialize E js) (\<lambda>st.
          bind_res (json_field ''expires_at'' kvs) (\<lambda>je.
          bind_res (option_datetime_deserialize E (case je of None \<Rightarrow> JNull | Some j \<Rightarrow> j)) (\<lambda>ex.
          bind_res (json_required ''nonce'' kvs) (\<lambda>jn.
          bind_res (base64_field_deserialize E jn) (\<lambda>n.
          bind_res (json_required ''ciphertext'' kvs) (\<lambda>jc.
          bind_res (base64_field_deserialize E jc) (\<lambda>c.
          Ok \<lparr>encrypted = \<lparr>nonce = n, ciphertext = c\<rparr>, stored_at = st, expires_at = ex\<rparr>))))))))
      | _ \<Rightarrow> Err ''invalid type: expected a map'')"

section \<open>Lemmas\<close>

lemma is_expired_iff: "is_expired now r \<longleftrightarrow> (\<exists>t. expires_at r = Some t \<and> t < now)"
  by (auto simp: is_expired_def split: option.splits)

lemma is_expired_mono: "is_expired now r \<Longrightarrow> now \<le> later \<Longrightarrow> is_expired later r"
  by (auto simp: is_expired_iff)

lemma stored_record_json_roundtrip:
  assumes "base64_std_laws E" "chrono_serde_laws E"
  shows "stored_record_deserialize E (stored_record_serialize E r) = Ok r"
proof -
  have b: "base64_field_deserialize E (base64_field_serialize E bs) = Ok bs" for bs
    using assms(1) by (simp add: base64_field_deserialize_def base64_field_serialize_def base64_stdD)
  have d: "datetime_deserialize E (JString (chrono_serialize E t)) = Ok t" for t
    using assms(2) by (simp add: datetime_deserialize_def chrono_serde_laws_def)
  have o: "option_datetime_deserialize E
      (case expires_at r of None \<Rightarrow> JNull | Some t \<Rightarrow> JString (chrono_serialize E t)) = Ok (expires_at r)"
    by (cases "expires_at r") (simp_all add: option_datetime_deserialize_def d)
  show ?thesis
    by (simp add: stored_record_deserialize_def stored_record_serialize_def json_required_def
        json_field_def b d o)
qed

lemma stored_record_serialize_exact:
  "json_floatless (stored_record_serialize E r)" "json_depth (stored_record_serialize E r) = 1"
  by (auto simp: stored_record_serialize_def base64_field_serialize_def split: option.splits)

lemma json_field_no_panic [simp]: "\<not> is_panic (json_field k kvs)"
  by (auto simp: json_field_def split: list.splits)

lemma json_required_no_panic [simp]: "\<not> is_panic (json_required k kvs)"
  by (auto simp: json_required_def is_panic_bind_res split: option.splits)

lemma field_deserialize_no_panic [simp]:
  "\<not> is_panic (base64_field_deserialize E j)"
  "\<not> is_panic (datetime_deserialize E j)"
  "\<not> is_panic (option_datetime_deserialize E j)"
  by (auto simp: base64_field_deserialize_def datetime_deserialize_def
      option_datetime_deserialize_def is_panic_bind_res split: json.splits option.splits)

lemma stored_record_deserialize_no_panic [simp]: "\<not> is_panic (stored_record_deserialize E v)"
  by (cases v) (simp_all add: stored_record_deserialize_def is_panic_bind_res)

section \<open>Properties\<close>

text \<open>
  The document survives the vault's byte form. A document that
  \<open>serde_json\<close> reads back exactly is recovered by \<open>into_json\<close> from the
  proof that \<open>from_json\<close> makes of it, and \<open>from_json\<close> never fails.
\<close>

lemma proof_json_roundtrip:
  assumes "serde_json_laws E"
  shows "\<exists>p. proof_from_json E v = Ok p \<and> proof_as_bytes p = as_bytes (serde_to_string E v) \<and>
    (json_exact v \<and> is_value v \<longrightarrow> proof_into_json E p = Ok v)"
  using assms by (simp add: proof_from_json_def proof_into_json_def proof_as_bytes_def serde_json_laws_def
      value_from_slice_def is_value_def)

lemma proof_from_json_Ok:
  "serde_json_laws E \<Longrightarrow> proof_from_json E v = Ok (proof_from_bytes (as_bytes (serde_to_string E v)))"
  by (simp add: proof_from_json_def serde_json_laws_def proof_from_bytes_def)

end
