(* ===== verification/Storage_Backend.thy ===== *)
theory Storage_Backend
  imports Domain
begin

text \<open>
  \<^verbatim>\<open>src/storage/backend.rs\<close>: the \<open>StorageBackend\<close> trait as a record
  of operations, and the contract its documentation promises as a locale.

  An operation takes the environment of its call (\<open>'io\<close>: which system or
  database calls fail in it), its arguments and the backend's state, and returns
  its result with the next state; \<open>delete_expired\<close> also takes the clock
  reading. Each operation runs under the backend's locks, so it is one atomic
  state change.
\<close>

record ('s, 'io) storage_backend =
  be_insert :: "'io \<Rightarrow> bytes \<Rightarrow> stored_record \<Rightarrow> 's \<Rightarrow> (unit, storage_error) result \<times> 's"
  be_fetch :: "'io \<Rightarrow> bytes \<Rightarrow> 's \<Rightarrow> (stored_record, storage_error) result \<times> 's"
  be_delete :: "'io \<Rightarrow> bytes \<Rightarrow> 's \<Rightarrow> (bool, storage_error) result \<times> 's"
  be_delete_expired :: "'io \<Rightarrow> datetime \<Rightarrow> 's \<Rightarrow> (nat, storage_error) result \<times> 's"

section \<open>The abstract store\<close>

text \<open>
  What a backend stands for: a map from record ids to records. A sweep removes
  the records that are due, those whose expiry is not after the clock reading.
\<close>

type_synonym store = "bytes \<rightharpoonup> stored_record"

definition due :: "datetime \<Rightarrow> stored_record \<Rightarrow> bool" where
  "due now r \<longleftrightarrow> (case expires_at r of None \<Rightarrow> False | Some t \<Rightarrow> t \<le> now)"

definition purge :: "datetime \<Rightarrow> store \<Rightarrow> store" where
  "purge now m = (\<lambda>rid. case m rid of None \<Rightarrow> None | Some r \<Rightarrow> if due now r then None else Some r)"

lemma due_never [simp]: "expires_at r = None \<Longrightarrow> \<not> due now r"
  by (simp add: due_def)

lemma is_expired_due: "is_expired now r \<Longrightarrow> due now r"
  by (auto simp: is_expired_def due_def split: option.splits)

lemma purge_Some_iff: "purge now m rid = Some r \<longleftrightarrow> m rid = Some r \<and> \<not> due now r"
  by (auto simp: purge_def split: option.splits)

lemma purge_None_iff: "purge now m rid = None \<longleftrightarrow> m rid = None \<or> (\<exists>r. m rid = Some r \<and> due now r)"
  by (auto simp: purge_def split: option.splits)

lemma purge_idem: "now \<le> later \<Longrightarrow> purge later (purge now m) = purge later m"
  by (rule ext) (auto simp: purge_def due_def split: option.splits)

section \<open>The contract\<close>

text \<open>
  \<open>abs\<close> reads the abstract store off the backend's state, \<open>inv\<close> is the
  backend's invariant, \<open>storable\<close> and \<open>clock_ok\<close> bound the records
  and clock readings it handles, and \<open>quiet\<close> says that no call of an
  operation fails. An operation that reports an error has either had its whole
  effect or none.
\<close>

locale backend_contract =
  fixes B :: "('s, 'io) storage_backend"
    and abs :: "'s \<Rightarrow> store"
    and inv :: "'s \<Rightarrow> bool"
    and storable :: "stored_record \<Rightarrow> bool"
    and clock_ok :: "datetime \<Rightarrow> bool"
    and quiet :: "'io \<Rightarrow> 's \<Rightarrow> bool"
  assumes insert_spec:
      "\<lbrakk>inv s; length rid = 16; storable r; be_insert B io rid r s = (res, s')\<rbrakk> \<Longrightarrow>
         inv s' \<and> (case res of Ok _ \<Rightarrow> abs s' = (abs s)(rid \<mapsto> r)
           | Err _ \<Rightarrow> abs s' = abs s \<or> abs s' = (abs s)(rid \<mapsto> r) | Panic _ \<Rightarrow> False)"
    and insert_quiet:
      "\<lbrakk>inv s; length rid = 16; storable r; quiet io s\<rbrakk> \<Longrightarrow> fst (be_insert B io rid r s) = Ok ()"
    and fetch_spec:
      "\<lbrakk>inv s; length rid = 16; be_fetch B io rid s = (resf, s')\<rbrakk> \<Longrightarrow>
         inv s' \<and> abs s' = abs s \<and> (case resf of Ok r \<Rightarrow> abs s rid = Some r
           | Err e \<Rightarrow> e = NotFound \<longrightarrow> abs s rid = None | Panic _ \<Rightarrow> False)"
    and fetch_quiet:
      "\<lbrakk>inv s; length rid = 16; quiet io s\<rbrakk> \<Longrightarrow>
         fst (be_fetch B io rid s) = (case abs s rid of None \<Rightarrow> Err NotFound | Some r \<Rightarrow> Ok r)"
    and fetch_keeps_quiet:
      "\<lbrakk>inv s; length rid = 16; quiet io s\<rbrakk> \<Longrightarrow> quiet io (snd (be_fetch B io' rid s))"
    and delete_spec:
      "\<lbrakk>inv s; length rid = 16; be_delete B io rid s = (resd, s')\<rbrakk> \<Longrightarrow>
         inv s' \<and> (case resd of Ok b \<Rightarrow> abs s' = (abs s)(rid := None) \<and> (b \<longleftrightarrow> abs s rid \<noteq> None)
           | Err _ \<Rightarrow> abs s' = abs s \<or> abs s' = (abs s)(rid := None) | Panic _ \<Rightarrow> False)"
    and delete_quiet:
      "\<lbrakk>inv s; length rid = 16; quiet io s\<rbrakk> \<Longrightarrow> is_ok (fst (be_delete B io rid s))"
    and delete_expired_spec:
      "\<lbrakk>inv s; clock_ok now; be_delete_expired B io now s = (resx, s')\<rbrakk> \<Longrightarrow>
         inv s' \<and> (case resx of
             Ok n \<Rightarrow> abs s' = purge now (abs s) \<and> n = card {rid. \<exists>r. abs s rid = Some r \<and> due now r}
           | Err _ \<Rightarrow> abs s' = abs s \<or> abs s' = purge now (abs s) | Panic _ \<Rightarrow> False)"
    and delete_expired_quiet:
      "\<lbrakk>inv s; clock_ok now; quiet io s\<rbrakk> \<Longrightarrow> is_ok (fst (be_delete_expired B io now s))"

text \<open>
  A backend whose calls do not get in each other's way: an operation, failing or not,
  leaves the calls of later operations as undisturbed as they were.
\<close>

locale calm_backend = backend_contract +
  assumes insert_keeps_quiet:
      "\<lbrakk>inv s; length rid = 16; storable r; quiet io s\<rbrakk> \<Longrightarrow> quiet io (snd (be_insert B io' rid r s))"
    and delete_keeps_quiet:
      "\<lbrakk>inv s; length rid = 16; quiet io s\<rbrakk> \<Longrightarrow> quiet io (snd (be_delete B io' rid s))"
    and delete_expired_keeps_quiet:
      "\<lbrakk>inv s; clock_ok now; quiet io s\<rbrakk> \<Longrightarrow> quiet io (snd (be_delete_expired B io' now s))"

end
