(* ===== verification/Paths.thy ===== *)
theory Paths
  imports Vault_Prelude
begin

text \<open>
  The part of \<open>std::path\<close> and of the file system that the storage layer
  uses. A path is the list of its components as \<open>Path::components\<close> yields
  them; a file system maps paths to regular files with their permission bits.
\<close>

datatype path_comp = RootDir | CurDir | ParentDir | Normal string

type_synonym path = "path_comp list"

definition path_parent :: "path \<Rightarrow> path option" where
  "path_parent p = (if p = [] \<or> last p = RootDir then None else Some (butlast p))"

definition path_file_name :: "path \<Rightarrow> string option" where
  "path_file_name p = (if p = [] then None else case last p of Normal n \<Rightarrow> Some n | _ \<Rightarrow> None)"

text \<open>The part of a file name before its last dot, unless that dot is the first character.\<close>

definition file_stem :: "string \<Rightarrow> string" where
  "file_stem n =
     (case dropWhile (\<lambda>c. c \<noteq> CHR ''.'') (rev n) of
        [] \<Rightarrow> n
      | _ # before \<Rightarrow> if before = [] then n else rev before)"

definition path_with_extension :: "string \<Rightarrow> path \<Rightarrow> path" where
  "path_with_extension ex p =
     (case path_file_name p of
        None \<Rightarrow> p
      | Some n \<Rightarrow> butlast p @ [Normal (file_stem n @ ''.'' @ ex)])"

definition path_with_file_name :: "string \<Rightarrow> path \<Rightarrow> path" where
  "path_with_file_name n p = (if path_file_name p = None then p else butlast p) @ [Normal n]"

definition path_join :: "path \<Rightarrow> string \<Rightarrow> path" where
  "path_join p n = p @ [Normal n]"

record file_entry =
  content :: bytes
  mode :: nat

type_synonym fs = "path \<rightharpoonup> file_entry"

lemma path_parent_with_file_name:
  "path_file_name p \<noteq> None \<Longrightarrow> path_parent (path_with_file_name n p) = path_parent p"
  by (auto simp: path_parent_def path_with_file_name_def path_file_name_def split: path_comp.splits if_splits)

lemma path_parent_join [simp]: "path_parent (path_join p n) = Some p"
  by (simp add: path_parent_def path_join_def)

end
