(* ===== verification/Local_File.thy ===== *)
theory Local_File
  imports Storage_Backend Paths
begin

text \<open>
  \<^verbatim>\<open>src/storage/local_file.rs\<close>: the JSON file backend over an explicit
  file system. Every system call of an operation can fail: \<open>fault\<close> names
  the failing calls of one invocation with their messages. The name that
  \<open>tempfile\<close> draws and the modes the operating system gives to new files
  are part of the same environment.
\<close>

datatype fs_call =
    CreateDirAll | Spawn | OpenLock | LockWrite | ReadVault
  | CreateTemp | WriteTemp | FlushTemp | PersistTemp | SetPermissions

record file_io =
  fault :: "fs_call \<Rightarrow> string option"
  temp_name :: string
  temp_mode :: nat
  lock_mode :: nat

definition sys :: "file_io \<Rightarrow> fs_call \<Rightarrow> 's \<Rightarrow> (unit, storage_error) result \<times> 's" where
  "sys io c s = (case fault io c of None \<Rightarrow> Ok () | Some m \<Rightarrow> Err (Io m), s)"

section \<open>The disk format\<close>

type_synonym disk_state = "(string, stored_record) btree"

definition disk_state_serialize :: "ext \<Rightarrow> disk_state \<Rightarrow> json" where
  "disk_state_serialize E st = JObject (map (\<lambda>(k, r). (k, stored_record_serialize E r)) st)"

fun entries_deserialize ::
  "ext \<Rightarrow> (string \<times> json) list \<Rightarrow> disk_state \<Rightarrow> (disk_state, string) result" where
  "entries_deserialize E [] st = Ok st"
| "entries_deserialize E ((k, j) # kvs) st =
     bind_res (stored_record_deserialize E j) (\<lambda>r. entries_deserialize E kvs (btree_insert k r st))"

definition disk_state_deserialize :: "ext \<Rightarrow> json \<Rightarrow> (disk_state, string) result" where
  "disk_state_deserialize E v =
     (case v of JObject kvs \<Rightarrow> entries_deserialize E kvs [] | _ \<Rightarrow> Err ''invalid type: expected a map'')"

section \<open>Private helpers\<close>

definition lock_path :: "path \<Rightarrow> path" where
  "lock_path vault_path = path_with_extension ''lock'' vault_path"

definition open_lock_file :: "file_io \<Rightarrow> path \<Rightarrow> fs \<Rightarrow> (unit, storage_error) result \<times> fs" where
  "open_lock_file io vault_path d =
     try_op (sys io OpenLock d) (\<lambda>_ d.
       (Ok (), if d (lock_path vault_path) = None
               then d(lock_path vault_path \<mapsto> \<lparr>content = [], mode = lock_mode io\<rparr>) else d))"

definition read_state :: "ext \<Rightarrow> file_io \<Rightarrow> path \<Rightarrow> fs \<Rightarrow> (disk_state, storage_error) result \<times> fs" where
  "read_state E io vault_path d =
     try_op (sys io ReadVault d) (\<lambda>_ d.
       (case d vault_path of
          None \<Rightarrow> Err (Io ''No such file or directory'')
        | Some f \<Rightarrow> map_err Json (bind_res (serde_from_slice E (content f)) (disk_state_deserialize E)), d))"

text \<open>
  \<open>write_atomic\<close>. Until \<open>persist\<close> succeeds the temporary file is owned
  by a \<open>NamedTempFile\<close>, whose drop on an early return removes it.
\<close>

definition temp_path :: "file_io \<Rightarrow> path \<Rightarrow> path" where
  "temp_path io dir = path_join dir (temp_name io)"

definition drop_temp :: "path \<Rightarrow> ('a, 'e) result \<times> fs \<Rightarrow> ('a, 'e) result \<times> fs" where
  "drop_temp tmp rd = (case rd of (Ok a, d) \<Rightarrow> (Ok a, d) | (r, d) \<Rightarrow> (r, d(tmp := None)))"

definition write_atomic ::
  "ext \<Rightarrow> file_io \<Rightarrow> path \<Rightarrow> disk_state \<Rightarrow> fs \<Rightarrow> (unit, storage_error) result \<times> fs" where
  "write_atomic E io vault_path st d =
     (case path_parent vault_path of
        None \<Rightarrow> (Err (Io ''vault path has no parent''), d)
      | Some dir \<Rightarrow>
          let tmp = temp_path io dir in
          try_op (sys io CreateTemp d) (\<lambda>_ d.
          if d tmp \<noteq> None then (Err (Io ''too many temporary files exist''), d) else
          let d = d(tmp \<mapsto> \<lparr>content = [], mode = temp_mode io\<rparr>) in
          try_op (drop_temp tmp (
            try_op (map_err Json (serde_to_vec_pretty E (disk_state_serialize E st)), d) (\<lambda>bs d.
            try_op (sys io WriteTemp d) (\<lambda>_ d.
            let d = d(tmp \<mapsto> \<lparr>content = bs, mode = temp_mode io\<rparr>) in
            try_op (sys io FlushTemp d) (\<lambda>_ d.
            try_op (sys io PersistTemp d) (\<lambda>_ d.
            (Ok (), (d(tmp := None))(vault_path := d tmp)))))))) (\<lambda>_ d.
          try_op (sys io SetPermissions d) (\<lambda>_ d.
          (Ok (), d(vault_path := map_option (mode_update (\<lambda>_. 0x180)) (d vault_path)))))))"

text \<open>
  The prologue the four operations share: run on the blocking pool, open the
  lock file, take the exclusive lock, read the state.
\<close>

definition with_locked_state ::
  "ext \<Rightarrow> file_io \<Rightarrow> path \<Rightarrow> (disk_state \<Rightarrow> fs \<Rightarrow> ('a, storage_error) result \<times> fs) \<Rightarrow>
     fs \<Rightarrow> ('a, storage_error) result \<times> fs" where
  "with_locked_state E io vault_path k d =
     try_op (sys io Spawn d) (\<lambda>_ d.
     try_op (open_lock_file io vault_path d) (\<lambda>_ d.
     try_op (sys io LockWrite d) (\<lambda>_ d.
     try_op (read_state E io vault_path d) k)))"

section \<open>Opening a store\<close>

definition local_file_new_exists :: "path \<Rightarrow> fs \<Rightarrow> bool" where
  "local_file_new_exists vault_path d \<longleftrightarrow> d vault_path \<noteq> None"

text \<open>
  \<open>new\<close> first tests for the file and then writes an empty state, without
  taking the file lock; \<open>found\<close> is what the test returned.
\<close>

definition local_file_new_create ::
  "ext \<Rightarrow> file_io \<Rightarrow> path \<Rightarrow> bool \<Rightarrow> fs \<Rightarrow> (unit, storage_error) result \<times> fs" where
  "local_file_new_create E io vault_path found d =
     (if \<not> found then write_atomic E io vault_path [] d else (Ok (), d))"

definition local_file_new ::
  "ext \<Rightarrow> file_io \<Rightarrow> path \<Rightarrow> fs \<Rightarrow> (unit, storage_error) result \<times> fs" where
  "local_file_new E io vault_path d =
     try_op (if path_parent vault_path \<noteq> None then sys io CreateDirAll d else (Ok (), d)) (\<lambda>_ d.
     local_file_new_create E io vault_path (local_file_new_exists vault_path d) d)"

section \<open>The \<open>StorageBackend\<close> operations\<close>

definition local_file_insert ::
  "ext \<Rightarrow> path \<Rightarrow> file_io \<Rightarrow> bytes \<Rightarrow> stored_record \<Rightarrow> fs \<Rightarrow> (unit, storage_error) result \<times> fs" where
  "local_file_insert E vault_path io rid r d =
     (let key = uuid_hyphenated E rid in
      with_locked_state E io vault_path
        (\<lambda>st. write_atomic E io vault_path (btree_insert key r st)) d)"

definition local_file_fetch ::
  "ext \<Rightarrow> path \<Rightarrow> file_io \<Rightarrow> bytes \<Rightarrow> fs \<Rightarrow> (stored_record, storage_error) result \<times> fs" where
  "local_file_fetch E vault_path io rid d =
     (let key = uuid_hyphenated E rid in
      with_locked_state E io vault_path
        (\<lambda>st d. (case map_of st key of None \<Rightarrow> Err NotFound | Some r \<Rightarrow> Ok r, d)) d)"

definition local_file_delete ::
  "ext \<Rightarrow> path \<Rightarrow> file_io \<Rightarrow> bytes \<Rightarrow> fs \<Rightarrow> (bool, storage_error) result \<times> fs" where
  "local_file_delete E vault_path io rid d =
     (let key = uuid_hyphenated E rid in
      with_locked_state E io vault_path
        (\<lambda>st d.
           let existed = map_of st key \<noteq> None; st = entries_remove key st in
           if existed then try_op (write_atomic E io vault_path st d) (\<lambda>_ d. (Ok existed, d))
           else (Ok existed, d)) d)"

definition local_file_delete_expired ::
  "ext \<Rightarrow> path \<Rightarrow> file_io \<Rightarrow> datetime \<Rightarrow> fs \<Rightarrow> (nat, storage_error) result \<times> fs" where
  "local_file_delete_expired E vault_path io now d =
     with_locked_state E io vault_path
       (\<lambda>st d.
          let before = length st;
              st = entries_retain (\<lambda>_ r. case expires_at r of None \<Rightarrow> True | Some t \<Rightarrow> t > now) st;
              removed = before - length st in
          if removed > 0 then try_op (write_atomic E io vault_path st d) (\<lambda>_ d. (Ok removed, d))
          else (Ok removed, d)) d"

definition local_file_backend :: "ext \<Rightarrow> path \<Rightarrow> (fs, file_io) storage_backend" where
  "local_file_backend E vault_path =
     \<lparr>be_insert = local_file_insert E vault_path,
      be_fetch = local_file_fetch E vault_path,
      be_delete = local_file_delete E vault_path,
      be_delete_expired = local_file_delete_expired E vault_path\<rparr>"

section \<open>The disk format round trip\<close>

definition file_laws :: "ext \<Rightarrow> bool" where
  "file_laws E \<longleftrightarrow> base64_std_laws E \<and> chrono_serde_laws E \<and> uuid_laws E \<and> serde_json_laws E"

lemma file_lawsD:
  assumes "file_laws E"
  shows "base64_std_laws E" "chrono_serde_laws E" "uuid_laws E" "serde_json_laws E"
  using assms by (simp_all add: file_laws_def)

lemma entries_roundtrip:
  assumes "file_laws E" "btree_ok (acc @ st)"
  shows "entries_deserialize E (map (\<lambda>(k, r). (k, stored_record_serialize E r)) st) acc = Ok (acc @ st)"
  using assms(2)
proof (induction st arbitrary: acc)
  case (Cons e st)
  obtain k r where e: "e = (k, r)" by (cases e)
  have "\<forall>f \<in> set acc. fst f < k"
    using Cons.prems by (auto simp: btree_ok_def sorted_wrt_append e)
  then have "btree_insert k r acc = acc @ [(k, r)]"
    by (rule btree_insert_snoc)
  then show ?case
    using Cons file_lawsD [OF assms(1)] by (simp add: e stored_record_json_roundtrip)
qed simp

lemma entries_deserialize_ok:
  "\<lbrakk>entries_deserialize E kvs acc = Ok st; btree_ok acc\<rbrakk> \<Longrightarrow> btree_ok st"
  by (induction E kvs acc rule: entries_deserialize.induct) (auto simp: bind_res_Ok_iff)

lemma entries_deserialize_no_panic [simp]: "\<not> is_panic (entries_deserialize E kvs acc)"
  by (induction E kvs acc rule: entries_deserialize.induct) (auto simp: is_panic_bind_res)

lemma disk_state_exact: "json_exact (disk_state_serialize E st)"
proof -
  have "foldr (\<lambda>kv. max (json_depth (snd kv))) (map (\<lambda>(k, r). (k, stored_record_serialize E r)) st) 0 \<le> 1"
    by (induction st) (auto simp: stored_record_serialize_exact)
  then show ?thesis
    by (auto simp: json_exact_def disk_state_serialize_def stored_record_serialize_exact)
qed

text \<open>The state a file system holds for a vault path.\<close>

definition vault_state :: "ext \<Rightarrow> path \<Rightarrow> fs \<Rightarrow> disk_state option" where
  "vault_state E vault_path d =
     (case d vault_path of
        None \<Rightarrow> None
      | Some f \<Rightarrow> (case bind_res (serde_from_slice E (content f)) (disk_state_deserialize E) of
          Ok st \<Rightarrow> Some st | _ \<Rightarrow> None))"

lemma disk_state_deserialize_ok: "disk_state_deserialize E v = Ok st \<Longrightarrow> btree_ok st"
  by (cases v) (auto simp: disk_state_deserialize_def dest: entries_deserialize_ok)

lemma vault_state_ok: "vault_state E vp d = Some st \<Longrightarrow> btree_ok st"
  by (auto simp: vault_state_def bind_res_Ok_iff
      split: option.splits result.splits dest: disk_state_deserialize_ok)

lemma vault_state_cong: "d vp = d' vp \<Longrightarrow> vault_state E vp d = vault_state E vp d'"
  by (simp add: vault_state_def)

lemma vault_state_written:
  assumes "file_laws E" "btree_ok st"
    and "serde_to_vec_pretty E (disk_state_serialize E st) = Ok bs"
  shows "vault_state E vp (d(vp \<mapsto> \<lparr>content = bs, mode = m\<rparr>)) = Some st"
proof -
  obtain bs' where "serde_to_vec_pretty E (disk_state_serialize E st) = Ok bs'"
    "serde_from_slice E bs' = Ok (disk_state_serialize E st)"
    using file_lawsD(4) [OF assms(1)] disk_state_exact unfolding serde_json_laws_def by blast
  then have "serde_from_slice E bs = Ok (disk_state_serialize E st)"
    using assms(3) by simp
  then show ?thesis
    using entries_roundtrip [OF assms(1), of "[]" st] assms(2)
    by (simp add: vault_state_def disk_state_deserialize_def disk_state_serialize_def)
qed

section \<open>What the helpers do to the file system\<close>

text \<open>
  A failed write leaves the file system as it was, except when only the final
  \<open>chmod\<close> failed; every other outcome replaces the vault file and nothing
  else.
\<close>

lemma write_atomic_cases:
  assumes "serde_json_laws E" and "write_atomic E io vp st d = (res, d')"
  obtains (failed) e where "res = Err e" "e \<noteq> NotFound" "d' = d"
  | (written) bs m where "serde_to_vec_pretty E (disk_state_serialize E st) = Ok bs"
      "d' = d(vp \<mapsto> \<lparr>content = bs, mode = m\<rparr>)"
      "res = Ok () \<and> m = 0x180 \<or> (\<exists>e. res = Err e \<and> e \<noteq> NotFound) \<and> m = temp_mode io"
proof -
  obtain bs where bs: "serde_to_vec_pretty E (disk_state_serialize E st) = Ok bs"
    using assms(1) unfolding serde_json_laws_def by blast
  have "(\<exists>e. res = Err e \<and> e \<noteq> NotFound \<and> d' = d) \<or>
    (\<exists>m. d' = d(vp \<mapsto> \<lparr>content = bs, mode = m\<rparr>) \<and>
      (res = Ok () \<and> m = 0x180 \<or> (\<exists>e. res = Err e \<and> e \<noteq> NotFound) \<and> m = temp_mode io))"
    using assms(2) bs
    by (auto simp: write_atomic_def sys_def drop_temp_def Let_def fun_upd_idem
        split: option.splits if_splits)
  then show thesis
    using that bs by blast
qed

lemma write_atomic_quiet:
  assumes "serde_json_laws E" "\<forall>c. fault io c = None"
    and "path_parent vp = Some dir" "d (temp_path io dir) = None"
  shows "fst (write_atomic E io vp st d) = Ok ()"
proof -
  obtain bs where "serde_to_vec_pretty E (disk_state_serialize E st) = Ok bs"
    using assms(1) unfolding serde_json_laws_def by blast
  then show ?thesis
    using assms(2-4) by (simp add: write_atomic_def sys_def drop_temp_def Let_def)
qed

definition locked :: "file_io \<Rightarrow> path \<Rightarrow> fs \<Rightarrow> fs" where
  "locked io vp d = (if d (lock_path vp) = None
     then d(lock_path vp \<mapsto> \<lparr>content = [], mode = lock_mode io\<rparr>) else d)"

lemma locked_vault [simp]: "d vp \<noteq> None \<Longrightarrow> locked io vp d vp = d vp"
  by (auto simp: locked_def)

lemma with_locked_state_cases:
  assumes "vault_state E vp d = Some st" and "with_locked_state E io vp k d = (res, d')"
  obtains (failed) e where "res = Err e" "e \<noteq> NotFound" "d' = d \<or> d' = locked io vp d"
  | (run) "k st (locked io vp d) = (res, d')"
proof -
  obtain f where f: "d vp = Some f"
    and st: "bind_res (serde_from_slice E (content f)) (disk_state_deserialize E) = Ok st"
    using assms(1) by (auto simp: vault_state_def split: option.splits result.splits)
  have "locked io vp d vp = Some f"
    using f by simp
  then have "(\<exists>e. res = Err e \<and> e \<noteq> NotFound \<and> (d' = d \<or> d' = locked io vp d)) \<or>
      k st (locked io vp d) = (res, d')"
    using assms(2) st
    by (auto simp: with_locked_state_def open_lock_file_def read_state_def sys_def
        simp flip: locked_def split: option.splits)
  then show thesis
    using that by blast
qed

lemma with_locked_state_quiet:
  assumes "vault_state E vp d = Some st" "\<forall>c. fault io c = None"
  shows "with_locked_state E io vp k d = k st (locked io vp d)"
proof -
  obtain f where f: "d vp = Some f"
    and st: "bind_res (serde_from_slice E (content f)) (disk_state_deserialize E) = Ok st"
    using assms(1) by (auto simp: vault_state_def split: option.splits result.splits)
  have "locked io vp d vp = Some f"
    using f by simp
  then show ?thesis
    using assms(2) st
    by (simp add: with_locked_state_def open_lock_file_def read_state_def sys_def flip: locked_def)
qed

section \<open>The file backend meets the contract\<close>

text \<open>Every key of the file is the hyphenated form of a 16-byte id.\<close>

definition file_inv :: "ext \<Rightarrow> path \<Rightarrow> fs \<Rightarrow> bool" where
  "file_inv E vp d \<longleftrightarrow> file_laws E \<and> path_parent vp \<noteq> None \<and>
     (\<exists>st. vault_state E vp d = Some st \<and> fst ` set st \<subseteq> uuid_hyphenated E ` {rid. length rid = 16})"

definition file_abs :: "ext \<Rightarrow> path \<Rightarrow> fs \<Rightarrow> store" where
  "file_abs E vp d = (\<lambda>rid.
     if length rid = 16
     then (case vault_state E vp d of None \<Rightarrow> None | Some st \<Rightarrow> map_of st (uuid_hyphenated E rid))
     else None)"

text \<open>No call fails and the drawn temporary name is free.\<close>

definition file_quiet :: "path \<Rightarrow> file_io \<Rightarrow> fs \<Rightarrow> bool" where
  "file_quiet vp io d \<longleftrightarrow> (\<forall>c. fault io c = None) \<and>
     (case path_parent vp of None \<Rightarrow> False
      | Some dir \<Rightarrow> d (temp_path io dir) = None \<and> temp_path io dir \<noteq> lock_path vp)"

lemma file_invE:
  assumes "file_inv E vp d"
  obtains st where "file_laws E" "vault_state E vp d = Some st" "btree_ok st" "distinct (map fst st)"
    "fst ` set st \<subseteq> uuid_hyphenated E ` {rid. length rid = 16}"
  using assms vault_state_ok btree_ok_distinct unfolding file_inv_def by blast

lemma vault_state_locked [simp]:
  assumes "vault_state E vp d = Some st"
  shows "vault_state E vp (locked io vp d) = Some st"
proof -
  have "d vp \<noteq> None"
    using assms by (auto simp: vault_state_def split: option.splits)
  then show ?thesis
    using assms vault_state_cong [of "locked io vp d" vp d E] by simp
qed

lemma file_inv_locked [simp]: "file_inv E vp d \<Longrightarrow> file_inv E vp (locked io vp d)"
  by (auto simp: file_inv_def)

lemma file_abs_locked [simp]: "file_inv E vp d \<Longrightarrow> file_abs E vp (locked io vp d) = file_abs E vp d"
  by (auto simp: file_inv_def file_abs_def)

lemma file_abs_state:
  "\<lbrakk>vault_state E vp d = Some st; length rid = 16\<rbrakk> \<Longrightarrow> file_abs E vp d rid = map_of st (uuid_hyphenated E rid)"
  by (simp add: file_abs_def)

text \<open>Writing a state back: the shared last step of the mutating operations.\<close>

lemma write_back:
  assumes inv: "file_inv E vp d" and st: "btree_ok st"
    and keys: "fst ` set st \<subseteq> uuid_hyphenated E ` {rid. length rid = 16}"
    and w: "write_atomic E io vp st (locked io vp d) = (res, d')"
    and m: "\<And>rid. length rid = 16 \<Longrightarrow> map_of st (uuid_hyphenated E rid) = m rid"
    and dom: "\<And>rid. length rid \<noteq> 16 \<Longrightarrow> m rid = None"
  shows "file_inv E vp d' \<and> (case res of Ok _ \<Rightarrow> file_abs E vp d' = m
    | Err e \<Rightarrow> e \<noteq> NotFound \<and> (file_abs E vp d' = file_abs E vp d \<or> file_abs E vp d' = m) | Panic _ \<Rightarrow> False)"
proof -
  obtain st0 where laws: "file_laws E"
    using inv by (rule file_invE)
  from file_lawsD(4) [OF laws] w show ?thesis
  proof (cases rule: write_atomic_cases)
    case (failed e)
    then show ?thesis using inv by simp
  next
    case (written bs mo)
    have vs: "vault_state E vp d' = Some st"
      using vault_state_written [OF laws st written(1)] written(2) by simp
    then have "file_abs E vp d' = m"
      using m dom by (auto simp: file_abs_def fun_eq_iff)
    moreover have "file_inv E vp d'"
      using vs inv keys by (simp add: file_inv_def)
    ultimately show ?thesis
      using written(3) by auto
  qed
qed

lemma file_quietE:
  assumes "file_inv E vp d" "file_quiet vp io d"
  obtains st where "vault_state E vp d = Some st" "\<forall>c. fault io c = None"
    "\<forall>st'. \<exists>d'. write_atomic E io vp st' (locked io vp d) = (Ok (), d')"
proof -
  obtain st where laws: "file_laws E" and st: "vault_state E vp d = Some st"
    using assms(1) by (rule file_invE)
  obtain dir where dir: "path_parent vp = Some dir" "locked io vp d (temp_path io dir) = None"
    and ok: "\<forall>c. fault io c = None"
    using assms(2) by (auto simp: file_quiet_def locked_def split: option.splits)
  have "fst (write_atomic E io vp st' (locked io vp d)) = Ok ()" for st'
    by (rule write_atomic_quiet [OF file_lawsD(4) [OF laws]]) (use ok dir in auto)
  then have "\<exists>d'. write_atomic E io vp st' (locked io vp d) = (Ok (), d')" for st'
    by (metis prod.collapse)
  then show thesis
    using that st ok by blast
qed

lemma local_file_insert_spec:
  assumes inv: "file_inv E vp d" and len: "length rid = 16"
    and op: "local_file_insert E vp io rid r d = (res, d')"
  shows "file_inv E vp d' \<and> (case res of Ok _ \<Rightarrow> file_abs E vp d' = (file_abs E vp d)(rid \<mapsto> r)
    | Err _ \<Rightarrow> file_abs E vp d' = file_abs E vp d \<or> file_abs E vp d' = (file_abs E vp d)(rid \<mapsto> r)
    | Panic _ \<Rightarrow> False)"
proof -
  from inv obtain st where laws: "file_laws E" and st: "vault_state E vp d = Some st" "btree_ok st"
    and keys: "fst ` set st \<subseteq> uuid_hyphenated E ` {rid. length rid = 16}"
    by (rule file_invE)
  from st(1) op [unfolded local_file_insert_def Let_def] show ?thesis
  proof (cases rule: with_locked_state_cases)
    case (failed e)
    then show ?thesis using inv by auto
  next
    case run
    let ?m = "(file_abs E vp d)(rid \<mapsto> r)" and ?st = "btree_insert (uuid_hyphenated E rid) r st"
    have "fst ` set ?st \<subseteq> uuid_hyphenated E ` {rid. length rid = 16}"
      using keys len by (auto simp: fst_set_btree_insert)
    moreover have "map_of ?st (uuid_hyphenated E x) = ?m x" if "length x = 16" for x
      using that st len uuid_hyphenated_inj [OF file_lawsD(3) [OF laws]] by (simp add: file_abs_state)
    moreover have "?m x = None" if "length x \<noteq> 16" for x
      using that len by (auto simp: file_abs_def)
    ultimately show ?thesis
      using write_back [OF inv btree_ok_insert [OF st(2)] _ run, of ?m] by (auto split: result.splits)
  qed
qed

lemma local_file_insert_quiet:
  assumes "file_inv E vp d" "file_quiet vp io d"
  shows "fst (local_file_insert E vp io rid r d) = Ok ()"
proof -
  from assms obtain st where st: "vault_state E vp d = Some st" and ok: "\<forall>c. fault io c = None"
    and w: "\<forall>st'. \<exists>d'. write_atomic E io vp st' (locked io vp d) = (Ok (), d')"
    by (rule file_quietE)
  show ?thesis
    using w by (auto simp: local_file_insert_def with_locked_state_quiet [OF st ok] Let_def)
      (metis fst_conv)
qed

lemma local_file_fetch_spec:
  assumes inv: "file_inv E vp d" and len: "length rid = 16"
    and op: "local_file_fetch E vp io rid d = (res, d')"
  shows "file_inv E vp d' \<and> file_abs E vp d' = file_abs E vp d \<and>
    (case res of Ok r \<Rightarrow> file_abs E vp d rid = Some r
     | Err e \<Rightarrow> e = NotFound \<longrightarrow> file_abs E vp d rid = None | Panic _ \<Rightarrow> False)"
proof -
  from inv obtain st where st: "vault_state E vp d = Some st"
    by (rule file_invE)
  from st(1) op [unfolded local_file_fetch_def Let_def] show ?thesis
  proof (cases rule: with_locked_state_cases)
    case (failed e)
    then show ?thesis using inv by auto
  next
    case run
    then show ?thesis
      using inv len st by (auto simp: file_abs_state split: option.splits)
  qed
qed

lemma local_file_fetch_quiet:
  assumes "file_inv E vp d" "length rid = 16" "file_quiet vp io d"
  shows "fst (local_file_fetch E vp io rid d) =
    (case file_abs E vp d rid of None \<Rightarrow> Err NotFound | Some r \<Rightarrow> Ok r)"
proof -
  from assms(1,3) obtain st where st: "vault_state E vp d = Some st" and ok: "\<forall>c. fault io c = None"
    by (rule file_quietE) 
  show ?thesis
    using assms(2) st by (simp add: local_file_fetch_def with_locked_state_quiet [OF st ok] file_abs_state)
qed

lemma local_file_fetch_keeps_quiet:
  assumes "file_inv E vp d" "file_quiet vp io d"
  shows "file_quiet vp io (snd (local_file_fetch E vp io' rid d))"
proof -
  obtain st where st: "vault_state E vp d = Some st"
    using assms(1) by (rule file_invE)
  obtain res d' where op: "local_file_fetch E vp io' rid d = (res, d')"
    by fastforce
  from st op [unfolded local_file_fetch_def Let_def] have "d' = d \<or> d' = locked io' vp d"
    by (cases rule: with_locked_state_cases) auto
  then show ?thesis
    using assms(2) op by (auto simp: file_quiet_def locked_def split: option.splits)
qed

lemma local_file_delete_spec:
  assumes inv: "file_inv E vp d" and len: "length rid = 16"
    and op: "local_file_delete E vp io rid d = (res, d')"
  shows "file_inv E vp d' \<and> (case res of
      Ok b \<Rightarrow> file_abs E vp d' = (file_abs E vp d)(rid := None) \<and> (b \<longleftrightarrow> file_abs E vp d rid \<noteq> None)
    | Err _ \<Rightarrow> file_abs E vp d' = file_abs E vp d \<or> file_abs E vp d' = (file_abs E vp d)(rid := None)
    | Panic _ \<Rightarrow> False)"
proof -
  from inv obtain st where laws: "file_laws E" and st: "vault_state E vp d = Some st" "btree_ok st"
    and keys: "fst ` set st \<subseteq> uuid_hyphenated E ` {rid. length rid = 16}"
    by (rule file_invE)
  let ?m = "(file_abs E vp d)(rid := None)" and ?st = "entries_remove (uuid_hyphenated E rid) st"
  from st(1) op [unfolded local_file_delete_def Let_def] show ?thesis
  proof (cases rule: with_locked_state_cases)
    case (failed e)
    then show ?thesis using inv by auto
  next
    case run
    show ?thesis
    proof (cases "map_of st (uuid_hyphenated E rid)")
      case None
      then show ?thesis
        using run inv st len by (auto simp: file_abs_state fun_upd_idem)
    next
      case (Some r)
      obtain res0 d0 where w: "write_atomic E io vp ?st (locked io vp d) = (res0, d0)"
        by fastforce
      have "fst ` set ?st \<subseteq> uuid_hyphenated E ` {rid. length rid = 16}"
        using keys by (auto simp: entries_remove_def)
      moreover have "map_of ?st (uuid_hyphenated E x) = ?m x" if "length x = 16" for x
        using that st len uuid_hyphenated_inj [OF file_lawsD(3) [OF laws]] by (simp add: file_abs_state)
      moreover have "?m x = None" if "length x \<noteq> 16" for x
        using that len by (auto simp: file_abs_def)
      ultimately show ?thesis
        using write_back [OF inv btree_ok_remove [OF st(2)] _ w, of ?m] run Some w st len
        by (cases res0) (auto simp: file_abs_state)
    qed
  qed
qed

lemma local_file_delete_quiet:
  assumes "file_inv E vp d" "file_quiet vp io d"
  shows "is_ok (fst (local_file_delete E vp io rid d))"
proof -
  from assms obtain st where st: "vault_state E vp d = Some st" and ok: "\<forall>c. fault io c = None"
    and w: "\<forall>st'. \<exists>d'. write_atomic E io vp st' (locked io vp d) = (Ok (), d')"
    by (rule file_quietE)
  obtain d' where "write_atomic E io vp (entries_remove (uuid_hyphenated E rid) st) (locked io vp d) = (Ok (), d')"
    using w by blast
  then show ?thesis
    by (simp add: local_file_delete_def with_locked_state_quiet [OF st ok] Let_def)
qed

lemma due_retain: "(case expires_at r of None \<Rightarrow> True | Some t \<Rightarrow> t > now) \<longleftrightarrow> \<not> due now r"
  by (auto simp: due_def split: option.splits)

lemma file_due_card:
  assumes "file_inv E vp d" "vault_state E vp d = Some st"
  shows "length st - length (entries_retain (\<lambda>_ r. \<not> due now r) st) =
    card {rid. \<exists>r. file_abs E vp d rid = Some r \<and> due now r}"
proof -
  let ?D = "{rid. \<exists>r. file_abs E vp d rid = Some r \<and> due now r}"
  from assms(1) obtain st0 where laws: "file_laws E" and st0: "vault_state E vp d = Some st0"
    and dist: "distinct (map fst st0)"
    and keys0: "fst ` set st0 \<subseteq> uuid_hyphenated E ` {rid. length rid = 16}"
    by (rule file_invE)
  have st: "st0 = st" and keys: "fst ` set st \<subseteq> uuid_hyphenated E ` {rid. length rid = 16}"
    using st0 assms(2) keys0 by auto
  have inj: "inj_on (uuid_hyphenated E) ?D"
    using file_lawsD(3) [OF laws]
    by (auto simp: uuid_laws_def file_abs_def inj_on_def split: if_splits)
  have "{k. \<exists>v. map_of st k = Some v \<and> \<not> \<not> due now v} = uuid_hyphenated E ` ?D"
  proof
    show "{k. \<exists>v. map_of st k = Some v \<and> \<not> \<not> due now v} \<subseteq> uuid_hyphenated E ` ?D"
    proof
      fix k assume "k \<in> {k. \<exists>v. map_of st k = Some v \<and> \<not> \<not> due now v}"
      then obtain r where r: "map_of st k = Some r" "due now r" by auto
      then have "k \<in> fst ` set st"
        by (metis domI dom_map_of_conv_image_fst)
      then obtain rid where "length rid = 16" "k = uuid_hyphenated E rid"
        using keys by auto
      then show "k \<in> uuid_hyphenated E ` ?D"
        using r assms(2) by (auto simp: file_abs_state)
    qed
    show "uuid_hyphenated E ` ?D \<subseteq> {k. \<exists>v. map_of st k = Some v \<and> \<not> \<not> due now v}"
      using assms(2) by (auto simp: file_abs_def split: if_splits)
  qed
  then show ?thesis
    using length_entries_retain [of st "\<lambda>_ r. \<not> due now r"] dist st by (simp add: card_image [OF inj])
qed

lemma local_file_delete_expired_spec:
  assumes inv: "file_inv E vp d"
    and op: "local_file_delete_expired E vp io now d = (res, d')"
  shows "file_inv E vp d' \<and> (case res of
      Ok n \<Rightarrow> file_abs E vp d' = purge now (file_abs E vp d) \<and>
        n = card {rid. \<exists>r. file_abs E vp d rid = Some r \<and> due now r}
    | Err _ \<Rightarrow> file_abs E vp d' = file_abs E vp d \<or> file_abs E vp d' = purge now (file_abs E vp d)
    | Panic _ \<Rightarrow> False)"
proof -
  from inv obtain st where laws: "file_laws E" and st: "vault_state E vp d = Some st" "btree_ok st"
    and dist: "distinct (map fst st)"
    and keys: "fst ` set st \<subseteq> uuid_hyphenated E ` {rid. length rid = 16}"
    by (rule file_invE)
  let ?m = "purge now (file_abs E vp d)" and ?st = "entries_retain (\<lambda>_ r. \<not> due now r) st"
  have m: "map_of ?st (uuid_hyphenated E x) = ?m x" if "length x = 16" for x
    using that st dist by (simp add: file_abs_state map_of_entries_retain purge_def split: option.splits)
  have dom: "?m x = None" if "length x \<noteq> 16" for x
    using that by (simp add: purge_def file_abs_def)
  have keys': "fst ` set ?st \<subseteq> uuid_hyphenated E ` {rid. length rid = 16}"
    using keys by (auto simp: entries_retain_def)
  note card = file_due_card [OF inv st(1), of now, symmetric]
  from st(1) op [unfolded local_file_delete_expired_def due_retain Let_def] show ?thesis
  proof (cases rule: with_locked_state_cases)
    case (failed e)
    then show ?thesis using inv by auto
  next
    case run
    show ?thesis
    proof (cases "length st - length ?st > 0")
      case True
      obtain res0 d0 where w: "write_atomic E io vp ?st (locked io vp d) = (res0, d0)"
        by fastforce
      show ?thesis
        using write_back [OF inv btree_ok_retain [OF st(2)] keys' w m dom] run True w card
        by (cases res0) auto
    next
      case False
      then have "?st = st"
        by (simp add: entries_retain_def) (metis filter_id_conv length_filter_less linorder_not_less)
      then have "?m = file_abs E vp d"
        using m dom st(1) by (auto simp: fun_eq_iff file_abs_def)
      then show ?thesis
        using False run inv card by auto
    qed
  qed
qed

lemma local_file_delete_expired_quiet:
  assumes "file_inv E vp d" "file_quiet vp io d"
  shows "is_ok (fst (local_file_delete_expired E vp io now d))"
proof -
  from assms obtain st where st: "vault_state E vp d = Some st" and ok: "\<forall>c. fault io c = None"
    and w: "\<forall>st'. \<exists>d'. write_atomic E io vp st' (locked io vp d) = (Ok (), d')"
    by (rule file_quietE)
  obtain d' where "write_atomic E io vp (entries_retain (\<lambda>_ r. \<not> due now r) st) (locked io vp d) = (Ok (), d')"
    using w by blast
  then show ?thesis
    by (simp add: local_file_delete_expired_def due_retain with_locked_state_quiet [OF st ok] Let_def)
qed

lemma local_file_backend_simps [simp]:
  "be_insert (local_file_backend E vp) = local_file_insert E vp"
  "be_fetch (local_file_backend E vp) = local_file_fetch E vp"
  "be_delete (local_file_backend E vp) = local_file_delete E vp"
  "be_delete_expired (local_file_backend E vp) = local_file_delete_expired E vp"
  by (simp_all add: local_file_backend_def)

interpretation file_store: backend_contract
  "local_file_backend E vp" "file_abs E vp" "file_inv E vp" "\<lambda>_. True" "\<lambda>_. True" "file_quiet vp"
  for E vp
proof (unfold_locales, unfold local_file_backend_simps, goal_cases)
  case 1 from 1(1,2,4) show ?case by (rule local_file_insert_spec)
next
  case 2 then show ?case by (blast intro: local_file_insert_quiet)
next
  case 3 then show ?case by (rule local_file_fetch_spec)
next
  case 4 then show ?case by (blast intro: local_file_fetch_quiet)
next
  case 5 then show ?case by (blast intro: local_file_fetch_keeps_quiet)
next
  case 6 then show ?case by (rule local_file_delete_spec)
next
  case 7 then show ?case by (blast intro: local_file_delete_quiet)
next
  case 8 from 8(1,3) show ?case by (rule local_file_delete_expired_spec)
next
  case 9 then show ?case by (blast intro: local_file_delete_expired_quiet)
qed

text \<open>
  An operation writes the vault file and creates the lock file, and nothing else is
  different after it; so a free temporary name stays free.
\<close>

lemma with_locked_state_frame:
  assumes "file_inv E vp d" "p \<noteq> vp" "p \<noteq> lock_path vp"
    and k: "\<forall>st d. snd (k st d) p = d p"
  shows "snd (with_locked_state E io vp k d) p = d p"
proof -
  obtain st where st: "vault_state E vp d = Some st"
    using assms(1) by (rule file_invE)
  obtain res d' where op: "with_locked_state E io vp k d = (res, d')"
    by fastforce
  have l: "locked io vp d p = d p"
    using assms(3) by (simp add: locked_def)
  from st op show ?thesis
  proof (cases rule: with_locked_state_cases)
    case (failed e)
    then show ?thesis using op l by auto
  next
    case run
    then show ?thesis using op l k [rule_format, of st "locked io vp d"] by simp
  qed
qed

lemma write_atomic_frame:
  assumes "serde_json_laws E" "p \<noteq> vp"
  shows "snd (write_atomic E io vp st d) p = d p"
proof -
  obtain res d' where w: "write_atomic E io vp st d = (res, d')"
    by fastforce
  from assms(1) w show ?thesis
    by (cases rule: write_atomic_cases) (use w assms(2) in auto)
qed

lemma snd_try_op_frame: "snd (try_op m (\<lambda>_ d. (r, d))) p = snd m p"
  by (cases m rule: prod.exhaust; cases "fst m") auto

lemma local_file_frame:
  assumes inv: "file_inv E vp d" and p: "p \<noteq> vp" "p \<noteq> lock_path vp"
  shows "snd (local_file_insert E vp io rid r d) p = d p"
    and "snd (local_file_delete E vp io rid d) p = d p"
    and "snd (local_file_delete_expired E vp io now d) p = d p"
proof -
  have "serde_json_laws E" using inv by (auto elim: file_invE intro: file_lawsD)
  note w = write_atomic_frame [OF this p(1)]
  show "snd (local_file_insert E vp io rid r d) p = d p"
    unfolding local_file_insert_def Let_def by (rule with_locked_state_frame [OF inv p]) (simp add: w)
  show "snd (local_file_delete E vp io rid d) p = d p"
    unfolding local_file_delete_def Let_def
    by (rule with_locked_state_frame [OF inv p]) (simp add: w snd_try_op_frame)
  show "snd (local_file_delete_expired E vp io now d) p = d p"
    unfolding local_file_delete_expired_def Let_def
    by (rule with_locked_state_frame [OF inv p]) (simp add: w snd_try_op_frame)
qed

lemma file_quiet_frame:
  assumes "file_inv E vp d" "file_quiet vp io d" "\<And>p. \<lbrakk>p \<noteq> vp; p \<noteq> lock_path vp\<rbrakk> \<Longrightarrow> d' p = d p"
  shows "file_quiet vp io d'"
proof -
  have "d vp \<noteq> None"
    using assms(1) by (auto simp: file_inv_def vault_state_def split: option.splits)
  with assms(2) obtain dir where "\<forall>c. fault io c = None" "path_parent vp = Some dir"
    "d (temp_path io dir) = None" "temp_path io dir \<noteq> lock_path vp" "temp_path io dir \<noteq> vp"
    by (cases "path_parent vp") (force simp: file_quiet_def)+
  then show ?thesis
    using assms(3) [of "temp_path io dir"] by (simp add: file_quiet_def)
qed

interpretation file_calm: calm_backend
  "local_file_backend E vp" "file_abs E vp" "file_inv E vp" "\<lambda>_. True" "\<lambda>_. True" "file_quiet vp"
  for E vp
  by unfold_locales (simp_all add: file_quiet_frame local_file_frame)

section \<open>Properties\<close>

text \<open>
  C20: the disk format reads back. The bytes written for any ordered state are read
  as exactly that state: the flattened records, their base64 fields, their
  timestamps and the absent expiry included.
\<close>

theorem disk_format_roundtrip:
  assumes "file_laws E" "btree_ok st"
  shows "\<exists>bs. serde_to_vec_pretty E (disk_state_serialize E st) = Ok bs \<and>
    bind_res (serde_from_slice E bs) (disk_state_deserialize E) = Ok st"
proof -
  obtain bs where "serde_to_vec_pretty E (disk_state_serialize E st) = Ok bs"
    "serde_from_slice E bs = Ok (disk_state_serialize E st)"
    using file_lawsD(4) [OF assms(1)] disk_state_exact unfolding serde_json_laws_def by blast
  then show ?thesis
    using entries_roundtrip [OF assms(1), of "[]" st] assms(2)
    by (simp add: disk_state_deserialize_def disk_state_serialize_def)
qed

theorem disk_format_roundtrip_witness:
  "\<exists>bs. bind_res (serde_from_slice ref_ext bs) (disk_state_deserialize ref_ext) =
     Ok [(''a'', \<lparr>encrypted = \<lparr>nonce = [1], ciphertext = [2, 3]\<rparr>, stored_at = 5, expires_at = None\<rparr>),
         (''b'', \<lparr>encrypted = \<lparr>nonce = [4], ciphertext = []\<rparr>, stored_at = 6, expires_at = Some 7\<rparr>)]"
proof -
  have "file_laws ref_ext" by (simp add: file_laws_def ref_laws)
  from disk_format_roundtrip [OF this, of "[(''a'', \<lparr>encrypted = \<lparr>nonce = [1], ciphertext = [2, 3]\<rparr>, stored_at = 5, expires_at = None\<rparr>),
      (''b'', \<lparr>encrypted = \<lparr>nonce = [4], ciphertext = []\<rparr>, stored_at = 6, expires_at = Some 7\<rparr>)]"]
  show ?thesis by (auto simp: btree_ok_def less_char_def)
qed

end
