(* ===== verification/Sqlite.thy ===== *)
theory Sqlite
  imports Storage_Backend Paths
begin

text \<open>
  \<^verbatim>\<open>src/storage/sqlite.rs\<close>: the SQLite backend. A database file holds at
  most the one table the migration creates, as the list of its rows under their
  primary key; each SQL statement of the source is a function on that table.
  Timestamps are stored as RFC 3339 text, and \<open>delete_expired\<close> compares
  them as text: SQLite's default collation is the byte order, which is the
  lexicographic order on \<^typ>\<open>string\<close>.
\<close>

datatype db_call =
    DbCreateDirAll | DbOpen | DbPragma | DbMigrate | DbSetPermissions
  | DbSpawn | DbLock | DbPrepare | DbExecute

record sqlite_io =
  db_fault :: "db_call \<Rightarrow> string option"
  db_create_mode :: nat

definition db_sys :: "sqlite_io \<Rightarrow> db_call \<Rightarrow> 's \<Rightarrow> (unit, storage_error) result \<times> 's" where
  "db_sys io c s = (case db_fault io c of None \<Rightarrow> Ok () | Some m \<Rightarrow> Err (Io m), s)"

record proofs_row =
  row_nonce :: bytes
  row_ciphertext :: bytes
  row_stored_at :: string
  row_expires_at :: "string option"

type_synonym proofs_table = "(bytes \<times> proofs_row) list"

record db_file =
  proofs :: "proofs_table option"
  db_mode :: nat

section \<open>The SQL statements\<close>

definition sql_create_table :: "db_file \<Rightarrow> db_file" where
  "sql_create_table db = (case proofs db of None \<Rightarrow> db\<lparr>proofs := Some []\<rparr> | Some _ \<Rightarrow> db)"

definition sql_insert_or_replace :: "bytes \<Rightarrow> proofs_row \<Rightarrow> proofs_table \<Rightarrow> proofs_table" where
  "sql_insert_or_replace k row t = entries_remove k t @ [(k, row)]"

definition sql_select :: "bytes \<Rightarrow> proofs_table \<Rightarrow> proofs_row option" where
  "sql_select k t = map_of t k"

definition sql_delete :: "bytes \<Rightarrow> proofs_table \<Rightarrow> nat \<times> proofs_table" where
  "sql_delete k t = (let t' = entries_remove k t in (length t - length t', t'))"

definition sql_expired :: "string \<Rightarrow> proofs_row \<Rightarrow> bool" where
  "sql_expired now row \<longleftrightarrow> (case row_expires_at row of None \<Rightarrow> False | Some s \<Rightarrow> s \<le> now)"

definition sql_delete_expired :: "string \<Rightarrow> proofs_table \<Rightarrow> nat \<times> proofs_table" where
  "sql_delete_expired now t =
     (let t' = entries_retain (\<lambda>_ row. \<not> sql_expired now row) t in (length t - length t', t'))"

section \<open>Helpers and opening a database\<close>

definition parse_datetime :: "ext \<Rightarrow> string \<Rightarrow> (datetime, storage_error) result" where
  "parse_datetime E s =
     map_err (\<lambda>e. Io (''invalid datetime '' @ [CHR 0x27] @ s @ [CHR 0x27] @ '': '' @ e)) (chrono_parse_rfc3339 E s)"

text \<open>\<open>new\<close> on the file at \<open>db_path\<close>; \<^const>\<open>None\<close> means that there is no file yet.\<close>

definition sqlite_new ::
  "sqlite_io \<Rightarrow> path \<Rightarrow> db_file option \<Rightarrow> (unit, storage_error) result \<times> db_file option" where
  "sqlite_new io db_path db =
     try_op (if path_parent db_path \<noteq> None then db_sys io DbCreateDirAll db else (Ok (), db)) (\<lambda>_ db.
     try_op (db_sys io DbOpen db) (\<lambda>_ db.
     let db = (case db of None \<Rightarrow> \<lparr>proofs = None, db_mode = db_create_mode io\<rparr> | Some f \<Rightarrow> f) in
     try_op (db_sys io DbPragma (Some db)) (\<lambda>_ _.
     try_op (db_sys io DbMigrate (Some db)) (\<lambda>_ _.
     let db = sql_create_table db in
     try_op (db_sys io DbSetPermissions (Some db)) (\<lambda>_ _.
     (Ok (), Some (db\<lparr>db_mode := 0x180\<rparr>)))))))"

text \<open>
  The prologue of the operations: run on the blocking pool, lock the connection;
  a statement on a database without the table is an error.
\<close>

definition with_connection ::
  "sqlite_io \<Rightarrow> (proofs_table \<Rightarrow> db_file \<Rightarrow> ('a, storage_error) result \<times> db_file) \<Rightarrow>
     db_file \<Rightarrow> ('a, storage_error) result \<times> db_file" where
  "with_connection io k db =
     try_op (db_sys io DbSpawn db) (\<lambda>_ db.
     try_op (db_sys io DbLock db) (\<lambda>_ db.
     case proofs db of None \<Rightarrow> (Err (Io ''no such table: proofs''), db) | Some t \<Rightarrow> k t db))"

section \<open>The \<open>StorageBackend\<close> operations\<close>

definition row_of :: "ext \<Rightarrow> stored_record \<Rightarrow> proofs_row" where
  "row_of E r =
     \<lparr>row_nonce = nonce (encrypted r), row_ciphertext = ciphertext (encrypted r),
      row_stored_at = chrono_to_rfc3339 E (stored_at r),
      row_expires_at = map_option (chrono_to_rfc3339 E) (expires_at r)\<rparr>"

definition record_of :: "ext \<Rightarrow> proofs_row \<Rightarrow> (stored_record, storage_error) result" where
  "record_of E row =
     bind_res (parse_datetime E (row_stored_at row)) (\<lambda>st.
     bind_res (transpose_res (map_option (parse_datetime E) (row_expires_at row))) (\<lambda>ex.
     Ok \<lparr>encrypted = \<lparr>nonce = row_nonce row, ciphertext = row_ciphertext row\<rparr>,
         stored_at = st, expires_at = ex\<rparr>))"

definition sqlite_insert ::
  "ext \<Rightarrow> sqlite_io \<Rightarrow> bytes \<Rightarrow> stored_record \<Rightarrow> db_file \<Rightarrow> (unit, storage_error) result \<times> db_file" where
  "sqlite_insert E io rid r db =
     with_connection io (\<lambda>t db.
       try_op (db_sys io DbExecute db) (\<lambda>_ db.
       (Ok (), db\<lparr>proofs := Some (sql_insert_or_replace rid (row_of E r) t)\<rparr>))) db"

definition sqlite_fetch ::
  "ext \<Rightarrow> sqlite_io \<Rightarrow> bytes \<Rightarrow> db_file \<Rightarrow> (stored_record, storage_error) result \<times> db_file" where
  "sqlite_fetch E io rid db =
     with_connection io (\<lambda>t db.
       try_op (db_sys io DbPrepare db) (\<lambda>_ db.
       try_op (db_sys io DbExecute db) (\<lambda>_ db.
       case sql_select rid t of
         Some row \<Rightarrow> (record_of E row, db)
       | None \<Rightarrow> (Err NotFound, db)))) db"

definition sqlite_delete ::
  "sqlite_io \<Rightarrow> bytes \<Rightarrow> db_file \<Rightarrow> (bool, storage_error) result \<times> db_file" where
  "sqlite_delete io rid db =
     with_connection io (\<lambda>t db.
       try_op (db_sys io DbExecute db) (\<lambda>_ db.
       let (count, t') = sql_delete rid t in (Ok (count > 0), db\<lparr>proofs := Some t'\<rparr>))) db"

definition sqlite_delete_expired ::
  "ext \<Rightarrow> sqlite_io \<Rightarrow> datetime \<Rightarrow> db_file \<Rightarrow> (nat, storage_error) result \<times> db_file" where
  "sqlite_delete_expired E io now db =
     (let now_text = chrono_to_rfc3339 E now in
      with_connection io (\<lambda>t db.
        try_op (db_sys io DbExecute db) (\<lambda>_ db.
        let (count, t') = sql_delete_expired now_text t in (Ok count, db\<lparr>proofs := Some t'\<rparr>))) db)"

definition sqlite_backend :: "ext \<Rightarrow> (db_file, sqlite_io) storage_backend" where
  "sqlite_backend E =
     \<lparr>be_insert = sqlite_insert E, be_fetch = sqlite_fetch E,
      be_delete = sqlite_delete, be_delete_expired = sqlite_delete_expired E\<rparr>"

section \<open>Rows and records\<close>

definition rfc3339_record :: "stored_record \<Rightarrow> bool" where
  "rfc3339_record r \<longleftrightarrow> rfc3339_range (stored_at r) \<and> (\<forall>t. expires_at r = Some t \<longrightarrow> rfc3339_range t)"

lemma record_of_row_of:
  assumes "chrono_rfc3339_laws E" "rfc3339_record r"
  shows "record_of E (row_of E r) = Ok r"
  using assms
  by (cases "expires_at r")
    (simp_all add: record_of_def row_of_def parse_datetime_def rfc3339_record_def rfc3339D)

lemma sql_expired_due:
  assumes "chrono_rfc3339_laws E" "rfc3339_record r" "rfc3339_range now"
  shows "sql_expired (chrono_to_rfc3339 E now) (row_of E r) \<longleftrightarrow> due now r"
  using assms
  by (cases "expires_at r") (simp_all add: sql_expired_def row_of_def due_def rfc3339_record_def rfc3339D)

section \<open>The SQLite backend meets the contract\<close>

text \<open>
  The primary key is unique and every row is the image of a record whose
  timestamps RFC 3339 can express.
\<close>

definition sqlite_inv :: "ext \<Rightarrow> db_file \<Rightarrow> bool" where
  "sqlite_inv E db \<longleftrightarrow> chrono_rfc3339_laws E \<and>
     (\<exists>t. proofs db = Some t \<and> distinct (map fst t) \<and>
        (\<forall>e \<in> set t. length (fst e) = 16 \<and> (\<exists>r. rfc3339_record r \<and> snd e = row_of E r)))"

definition sqlite_abs :: "ext \<Rightarrow> db_file \<Rightarrow> store" where
  "sqlite_abs E db = (\<lambda>rid.
     case proofs db of None \<Rightarrow> None
     | Some t \<Rightarrow> (case map_of t rid of None \<Rightarrow> None
         | Some row \<Rightarrow> (case record_of E row of Ok r \<Rightarrow> Some r | _ \<Rightarrow> None)))"

definition sqlite_quiet :: "sqlite_io \<Rightarrow> db_file \<Rightarrow> bool" where
  "sqlite_quiet io db \<longleftrightarrow> (\<forall>c. db_fault io c = None)"

text \<open>A table that holds the rows of a finite list of records.\<close>

definition table_of :: "ext \<Rightarrow> (bytes \<times> stored_record) list \<Rightarrow> proofs_table" where
  "table_of E rs = map (\<lambda>(k, r). (k, row_of E r)) rs"

definition records_ok :: "(bytes \<times> stored_record) list \<Rightarrow> bool" where
  "records_ok rs \<longleftrightarrow> distinct (map fst rs) \<and> (\<forall>e \<in> set rs. length (fst e) = 16 \<and> rfc3339_record (snd e))"

lemma map_fst_table_of [simp]: "map fst (table_of E rs) = map fst rs"
  by (auto simp: table_of_def)

lemma map_of_table_of: "map_of (table_of E rs) k = map_option (row_of E) (map_of rs k)"
  by (induction rs) (auto simp: table_of_def)

lemma entries_remove_table_of: "entries_remove k (table_of E rs) = table_of E (entries_remove k rs)"
  by (induction rs) (auto simp: table_of_def entries_remove_def)

lemma sqlite_inv_iff:
  "sqlite_inv E db \<longleftrightarrow> chrono_rfc3339_laws E \<and> (\<exists>rs. proofs db = Some (table_of E rs) \<and> records_ok rs)"
proof -
  have "(\<forall>e \<in> set t. length (fst e) = 16 \<and> (\<exists>r. rfc3339_record r \<and> snd e = row_of E r)) \<longleftrightarrow>
    (\<exists>rs. t = table_of E rs \<and> (\<forall>e \<in> set rs. length (fst e) = 16 \<and> rfc3339_record (snd e)))" for t
  proof (induction t)
    case Nil
    then show ?case by (auto simp: table_of_def intro: exI [of _ "[]"])
  next
    case (Cons e t)
    have cons: "(\<exists>rs. e # t = table_of E rs \<and> (\<forall>x \<in> set rs. P x)) \<longleftrightarrow>
      (\<exists>r. snd e = row_of E r \<and> P (fst e, r)) \<and> (\<exists>rs. t = table_of E rs \<and> (\<forall>x \<in> set rs. P x))" for P
    proof safe
      fix rs assume "e # t = table_of E rs" "\<forall>x \<in> set rs. P x"
      then show "\<exists>r. snd e = row_of E r \<and> P (fst e, r)" "\<exists>rs. t = table_of E rs \<and> (\<forall>x \<in> set rs. P x)"
        by (cases rs; force simp: table_of_def)+
    next
      fix r rs assume "snd e = row_of E r" "P (fst e, r)" "t = table_of E rs" "\<forall>x \<in> set rs. P x"
      then show "\<exists>rs'. e # table_of E rs = table_of E rs' \<and> (\<forall>x \<in> set rs'. P x)"
        by (intro exI [of _ "(fst e, r) # rs"]) (cases e, auto simp: table_of_def)
    qed
    show ?case
      using Cons by (auto simp: cons)
  qed
  then show ?thesis
    by (auto simp: sqlite_inv_def records_ok_def)
qed

lemma sqlite_abs_table:
  assumes "chrono_rfc3339_laws E" "proofs db = Some (table_of E rs)" "records_ok rs"
  shows "sqlite_abs E db = map_of rs"
proof
  fix rid
  have "rfc3339_record r" if "map_of rs rid = Some r" for r
    using that assms(3) by (auto simp: records_ok_def dest: map_of_SomeD)
  then show "sqlite_abs E db rid = map_of rs rid"
    using assms(1,2) by (auto simp: sqlite_abs_def map_of_table_of record_of_row_of split: option.splits)
qed

lemma sqlite_invE:
  assumes "sqlite_inv E db"
  obtains rs where "chrono_rfc3339_laws E" "proofs db = Some (table_of E rs)" "records_ok rs"
    "sqlite_abs E db = map_of rs"
  using assms by (auto simp: sqlite_inv_iff sqlite_abs_table)

text \<open>Storing a new table: the shared last step of the mutating statements.\<close>

lemma sqlite_store:
  assumes "sqlite_inv E db" "records_ok rs"
  shows "sqlite_inv E (db\<lparr>proofs := Some (table_of E rs)\<rparr>)"
    and "sqlite_abs E (db\<lparr>proofs := Some (table_of E rs)\<rparr>) = map_of rs"
  using assms by (auto simp: sqlite_inv_iff intro!: sqlite_abs_table)

lemma with_connection_cases:
  assumes "proofs db = Some t" "with_connection io k db = (res, db')"
  obtains (failed) e where "res = Err e" "e \<noteq> NotFound" "db' = db"
  | (run) "k t db = (res, db')"
  using assms by (auto simp: with_connection_def db_sys_def split: option.splits)

lemma sqlite_insert_spec:
  assumes inv: "sqlite_inv E db" and len: "length rid = 16" and r: "rfc3339_record r"
    and op: "sqlite_insert E io rid r db = (res, db')"
  shows "sqlite_inv E db' \<and> (case res of Ok _ \<Rightarrow> sqlite_abs E db' = (sqlite_abs E db)(rid \<mapsto> r)
    | Err _ \<Rightarrow> sqlite_abs E db' = sqlite_abs E db \<or> sqlite_abs E db' = (sqlite_abs E db)(rid \<mapsto> r)
    | Panic _ \<Rightarrow> False)"
proof -
  from inv obtain rs where rs: "proofs db = Some (table_of E rs)" "records_ok rs" "sqlite_abs E db = map_of rs"
    by (rule sqlite_invE)
  let ?rs = "entries_remove rid rs @ [(rid, r)]"
  have ok: "records_ok ?rs"
    using rs(2) len r by (auto simp: records_ok_def entries_remove_def distinct_map_filter)
  have eq: "sql_insert_or_replace rid (row_of E r) (table_of E rs) = table_of E ?rs"
    by (simp add: sql_insert_or_replace_def entries_remove_table_of) (simp add: table_of_def)
  have m: "map_of ?rs = (map_of rs)(rid \<mapsto> r)"
    by (auto simp: map_add_def fun_eq_iff split: option.splits)
  from rs(1) op [unfolded sqlite_insert_def] show ?thesis
  proof (cases rule: with_connection_cases)
    case (failed e)
    then show ?thesis using inv by auto
  next
    case run
    then show ?thesis
      using inv sqlite_store [OF inv ok, unfolded m] rs(3) by (auto simp: db_sys_def eq split: option.splits)
  qed
qed

lemma sqlite_fetch_spec:
  assumes inv: "sqlite_inv E db" and op: "sqlite_fetch E io rid db = (res, db')"
  shows "sqlite_inv E db' \<and> sqlite_abs E db' = sqlite_abs E db \<and>
    (case res of Ok r \<Rightarrow> sqlite_abs E db rid = Some r
     | Err e \<Rightarrow> e = NotFound \<longrightarrow> sqlite_abs E db rid = None | Panic _ \<Rightarrow> False)"
proof -
  from inv obtain rs where laws: "chrono_rfc3339_laws E" and rs: "proofs db = Some (table_of E rs)"
    "records_ok rs" "sqlite_abs E db = map_of rs"
    by (rule sqlite_invE)
  have row: "record_of E (row_of E r) = Ok r" if "map_of rs rid = Some r" for r
    by (rule record_of_row_of [OF laws]) (use that rs(2) in \<open>force simp: records_ok_def dest: map_of_SomeD\<close>)
  from rs(1) op [unfolded sqlite_fetch_def] show ?thesis
  proof (cases rule: with_connection_cases)
    case (failed e)
    then show ?thesis using inv by auto
  next
    case run
    show ?thesis
    proof (cases "map_of rs rid")
      case None
      with run show ?thesis
        using inv rs(3) by (auto simp: db_sys_def sql_select_def map_of_table_of split: option.splits)
    next
      case (Some r)
      with run show ?thesis
        using inv rs(3)
        by (auto simp: db_sys_def sql_select_def map_of_table_of row [OF Some] split: option.splits)
    qed
  qed
qed

lemma sqlite_delete_spec:
  assumes inv: "sqlite_inv E db" and op: "sqlite_delete io rid db = (res, db')"
  shows "sqlite_inv E db' \<and> (case res of
      Ok b \<Rightarrow> sqlite_abs E db' = (sqlite_abs E db)(rid := None) \<and> (b \<longleftrightarrow> sqlite_abs E db rid \<noteq> None)
    | Err _ \<Rightarrow> sqlite_abs E db' = sqlite_abs E db \<or> sqlite_abs E db' = (sqlite_abs E db)(rid := None)
    | Panic _ \<Rightarrow> False)"
proof -
  from inv obtain rs where rs: "proofs db = Some (table_of E rs)" "records_ok rs" "sqlite_abs E db = map_of rs"
    by (rule sqlite_invE)
  let ?rs = "entries_remove rid rs"
  have ok: "records_ok ?rs"
    using rs(2) by (auto simp: records_ok_def entries_remove_def distinct_map_filter)
  have eq: "sql_delete rid (table_of E rs) = (length rs - length ?rs, table_of E ?rs)"
    by (simp add: sql_delete_def entries_remove_table_of) (simp add: table_of_def)
  have cnt: "length rs - length ?rs > 0 \<longleftrightarrow> map_of rs rid \<noteq> None"
  proof -
    have "length ?rs < length rs \<longleftrightarrow> (\<exists>e \<in> set rs. fst e = rid)"
      unfolding entries_remove_def using length_filter_less [of _ rs "\<lambda>e. fst e \<noteq> rid"]
      by (metis (mono_tags, lifting) filter_True nat_neq_iff)
    then show ?thesis
      by (force simp: map_of_eq_None_iff)
  qed
  from rs(1) op [unfolded sqlite_delete_def] show ?thesis
  proof (cases rule: with_connection_cases)
    case (failed e)
    then show ?thesis using inv by auto
  next
    case run
    then show ?thesis
      using inv sqlite_store [OF inv ok] rs(3) cnt by (auto simp: db_sys_def eq split: option.splits)
  qed
qed

lemma sqlite_delete_expired_spec:
  assumes inv: "sqlite_inv E db" and now: "rfc3339_range now"
    and op: "sqlite_delete_expired E io now db = (res, db')"
  shows "sqlite_inv E db' \<and> (case res of
      Ok n \<Rightarrow> sqlite_abs E db' = purge now (sqlite_abs E db) \<and>
        n = card {rid. \<exists>r. sqlite_abs E db rid = Some r \<and> due now r}
    | Err _ \<Rightarrow> sqlite_abs E db' = sqlite_abs E db \<or> sqlite_abs E db' = purge now (sqlite_abs E db)
    | Panic _ \<Rightarrow> False)"
proof -
  from inv obtain rs where laws: "chrono_rfc3339_laws E" and rs: "proofs db = Some (table_of E rs)"
    "records_ok rs" "sqlite_abs E db = map_of rs"
    by (rule sqlite_invE)
  let ?rs = "entries_retain (\<lambda>_ r. \<not> due now r) rs"
  have dist: "distinct (map fst rs)"
    using rs(2) by (simp add: records_ok_def)
  have ok: "records_ok ?rs"
    using rs(2) by (auto simp: records_ok_def entries_retain_def distinct_map_filter)
  have "entries_retain (\<lambda>_ row. \<not> sql_expired (chrono_to_rfc3339 E now) row) (table_of E xs) =
      table_of E (entries_retain (\<lambda>_ r. \<not> due now r) xs)"
    if "\<forall>e \<in> set xs. rfc3339_record (snd e)" for xs
    using that by (induction xs) (auto simp: table_of_def entries_retain_def sql_expired_due [OF laws _ now])
  then have eq: "sql_delete_expired (chrono_to_rfc3339 E now) (table_of E rs) =
      (length rs - length ?rs, table_of E ?rs)"
    using rs(2) by (simp add: sql_delete_expired_def records_ok_def) (simp add: table_of_def)
  have m: "map_of ?rs = purge now (map_of rs)"
    by (rule ext) (simp add: map_of_entries_retain [OF dist] purge_def split: option.splits)
  have cnt: "length rs - length ?rs = card {rid. \<exists>r. map_of rs rid = Some r \<and> due now r}"
    using length_entries_retain [OF dist, of "\<lambda>_ r. \<not> due now r"] by simp
  from rs(1) op [unfolded sqlite_delete_expired_def Let_def] show ?thesis
  proof (cases rule: with_connection_cases)
    case (failed e)
    then show ?thesis using inv by auto
  next
    case run
    then show ?thesis
      using inv sqlite_store [OF inv ok, unfolded m] rs(3) cnt
      by (auto simp: db_sys_def eq split: option.splits)
  qed
qed

lemma sqlite_quiet_ops:
  assumes inv: "sqlite_inv E db" and q: "sqlite_quiet io db"
  shows "fst (sqlite_insert E io rid r db) = Ok ()"
    and "fst (sqlite_fetch E io rid db) = (case sqlite_abs E db rid of None \<Rightarrow> Err NotFound | Some r \<Rightarrow> Ok r)"
    and "is_ok (fst (sqlite_delete io rid db))"
    and "is_ok (fst (sqlite_delete_expired E io now db))"
proof -
  from inv obtain rs where laws: "chrono_rfc3339_laws E" and rs: "proofs db = Some (table_of E rs)"
    "records_ok rs" "sqlite_abs E db = map_of rs"
    by (rule sqlite_invE)
  have row: "record_of E (row_of E r) = Ok r" if "map_of rs rid = Some r" for r
    by (rule record_of_row_of [OF laws]) (use that rs(2) in \<open>force simp: records_ok_def dest: map_of_SomeD\<close>)
  have ok: "db_sys io c d = (Ok (), d)" for c and d :: db_file
    using q by (simp add: sqlite_quiet_def db_sys_def)
  show "fst (sqlite_insert E io rid r db) = Ok ()"
    by (simp add: sqlite_insert_def with_connection_def ok rs)
  show "fst (sqlite_fetch E io rid db) = (case sqlite_abs E db rid of None \<Rightarrow> Err NotFound | Some r \<Rightarrow> Ok r)"
    using row by (cases "map_of rs rid")
      (simp_all add: sqlite_fetch_def with_connection_def ok rs sql_select_def map_of_table_of)
  show "is_ok (fst (sqlite_delete io rid db))"
    by (simp add: sqlite_delete_def with_connection_def ok rs sql_delete_def Let_def)
  show "is_ok (fst (sqlite_delete_expired E io now db))"
    by (simp add: sqlite_delete_expired_def with_connection_def ok rs sql_delete_expired_def Let_def)
qed

lemma sqlite_backend_simps [simp]:
  "be_insert (sqlite_backend E) = sqlite_insert E"
  "be_fetch (sqlite_backend E) = sqlite_fetch E"
  "be_delete (sqlite_backend E) = sqlite_delete"
  "be_delete_expired (sqlite_backend E) = sqlite_delete_expired E"
  by (simp_all add: sqlite_backend_def)

interpretation sqlite_store: backend_contract
  "sqlite_backend E" "sqlite_abs E" "sqlite_inv E" rfc3339_record rfc3339_range sqlite_quiet
  for E
proof (unfold_locales, unfold sqlite_backend_simps, goal_cases)
  case 1 then show ?case by (rule sqlite_insert_spec)
next
  case 2 then show ?case by (blast intro: sqlite_quiet_ops)
next
  case 3 from 3(1,3) show ?case by (rule sqlite_fetch_spec)
next
  case 4 from 4(1,3) show ?case by (rule sqlite_quiet_ops)
next
  case 5 then show ?case by (simp add: sqlite_quiet_def)
next
  case 6 from 6(1,3) show ?case by (rule sqlite_delete_spec)
next
  case 7 then show ?case by (blast intro: sqlite_quiet_ops)
next
  case 8 then show ?case by (rule sqlite_delete_expired_spec)
next
  case 9 then show ?case by (blast intro: sqlite_quiet_ops)
qed

interpretation sqlite_calm: calm_backend
  "sqlite_backend E" "sqlite_abs E" "sqlite_inv E" rfc3339_record rfc3339_range sqlite_quiet
  for E
  by unfold_locales (simp_all add: sqlite_quiet_def)

section \<open>Opening a database, and expiries the format cannot express\<close>

lemma sqlite_new_Ok:
  assumes "chrono_rfc3339_laws E" "\<forall>f. db = Some f \<and> proofs f \<noteq> None \<longrightarrow> sqlite_inv E f"
    and "sqlite_new io p db = (Ok (), db')"
  shows "\<exists>f'. db' = Some f' \<and> sqlite_inv E f' \<and> db_mode f' = 0x180 \<and>
    sqlite_abs E f' = (case db of None \<Rightarrow> Map.empty | Some f \<Rightarrow> sqlite_abs E f)"
proof -
  have faults: "db_fault io c = None" if "c \<in> {DbOpen, DbPragma, DbMigrate, DbSetPermissions}" for c
    using assms(3) that
    by (cases "path_parent p = None"; cases "db_fault io DbCreateDirAll"; cases "db_fault io DbOpen";
        cases "db_fault io DbPragma"; cases "db_fault io DbMigrate"; cases "db_fault io DbSetPermissions")
      (auto simp: sqlite_new_def db_sys_def Let_def)
  have "db' = Some ((sql_create_table (case db of None \<Rightarrow> \<lparr>proofs = None, db_mode = db_create_mode io\<rparr> | Some f \<Rightarrow> f))
      \<lparr>db_mode := 0x180\<rparr>)"
    using assms(3) faults
    by (cases "path_parent p = None"; cases "db_fault io DbCreateDirAll") (auto simp: sqlite_new_def db_sys_def Let_def)
  then show ?thesis
    using assms(1,2)
    by (cases db) (auto simp: sql_create_table_def sqlite_inv_def sqlite_abs_def fun_eq_iff split: option.splits)
qed

text \<open>
  C37: an expiry after the year 9999. Such a record can be stored, but it can never
  be fetched, and the next sweep deletes it although its expiry lies in the future:
  the expiry is stored as text with a leading plus sign, which the parser refuses
  and which orders before every clock reading.
\<close>

theorem far_future_expiry_lost:
  assumes "chrono_rfc3339_laws E" "chrono_expanded_year_laws E" "\<forall>c. db_fault io c = None"
    and "proofs db = Some t" "expires_at r = Some x" "253402300800 * 1000000000 \<le> x" "rfc3339_range now"
    and "sqlite_insert E io rid r db = (res, db1)"
  shows "res = Ok () \<and> (\<exists>e. fst (sqlite_fetch E io rid db1) = Err e) \<and>
    map_option (\<lambda>t. map_of t rid) (proofs (snd (sqlite_delete_expired E io now db1))) = Some None"
proof -
  have tx: "\<exists>s. chrono_to_rfc3339 E x = CHR ''+'' # s" "\<exists>m. chrono_parse_rfc3339 E (chrono_to_rfc3339 E x) = Err m"
    "\<exists>c s. chrono_to_rfc3339 E now = c # s \<and> CHR ''0'' \<le> c"
    using assms(2,6,7) unfolding chrono_expanded_year_laws_def by blast+
  have db1: "res = Ok ()" "proofs db1 = Some (entries_remove rid t @ [(rid, row_of E r)])"
    using assms(3,4,8) by (auto simp: sqlite_insert_def with_connection_def db_sys_def sql_insert_or_replace_def)
  have row: "map_of (entries_remove rid t @ [(rid, row_of E r)]) rid = Some (row_of E r)"
    by (simp add: map_add_def)
  obtain m where m: "chrono_parse_rfc3339 E (chrono_to_rfc3339 E x) = Err m"
    using tx(2) by blast
  have "\<exists>e. record_of E (row_of E r) = Err e"
    using assms(5) m rfc3339D(3) [OF assms(1)]
    by (cases "chrono_parse_rfc3339 E (chrono_to_rfc3339 E (stored_at r))")
      (auto simp: record_of_def row_of_def parse_datetime_def)
  then have fetch: "\<exists>e. fst (sqlite_fetch E io rid db1) = Err e"
    using assms(3) db1(2) row by (simp add: sqlite_fetch_def with_connection_def db_sys_def sql_select_def)
  have "CHR ''+'' < c" if "CHR ''0'' \<le> c" for c
    using less_le_trans [OF _ that, of "CHR ''+''"] by (simp add: less_char_def)
  then have "sql_expired (chrono_to_rfc3339 E now) (row_of E r)"
    using tx(1,3) assms(5) by (auto simp: sql_expired_def row_of_def)
  then have "map_of (entries_retain (\<lambda>_ row. \<not> sql_expired (chrono_to_rfc3339 E now) row)
      (entries_remove rid t @ [(rid, row_of E r)])) rid = None"
    by (auto simp: entries_retain_def entries_remove_def map_of_eq_None_iff)
  then have "map_option (\<lambda>t. map_of t rid) (proofs (snd (sqlite_delete_expired E io now db1))) = Some None"
    using assms(3) db1(2)
    by (simp add: sqlite_delete_expired_def with_connection_def db_sys_def sql_delete_expired_def Let_def)
  with db1(1) fetch show ?thesis by simp
qed

theorem far_future_expiry_lost_witness:
  "\<exists>db1 e. sqlite_insert ref_ext \<lparr>db_fault = \<lambda>_. None, db_create_mode = 0x1A4\<rparr> (replicate 16 1)
      \<lparr>encrypted = \<lparr>nonce = [], ciphertext = []\<rparr>, stored_at = 0, expires_at = Some (300000000000 * 1000000000)\<rparr>
      \<lparr>proofs = Some [], db_mode = 0x180\<rparr> = (Ok (), db1) \<and>
    fst (sqlite_fetch ref_ext \<lparr>db_fault = \<lambda>_. None, db_create_mode = 0x1A4\<rparr> (replicate 16 1) db1) = Err e"
proof -
  let ?io = "\<lparr>db_fault = \<lambda>_. None, db_create_mode = 0x1A4\<rparr>" and ?db = "\<lparr>proofs = Some [], db_mode = 0x180\<rparr>"
  let ?r = "\<lparr>encrypted = \<lparr>nonce = [], ciphertext = []\<rparr>, stored_at = 0, expires_at = Some (300000000000 * 1000000000)\<rparr>"
  obtain res db1 where ins: "sqlite_insert ref_ext ?io (replicate 16 1) ?r ?db = (res, db1)"
    by fastforce
  from far_future_expiry_lost [OF ref_chrono_rfc3339 ref_expanded_year, of ?io ?db "[]" ?r "300000000000 * 1000000000" 0,
      OF _ _ _ _ _ ins] ins
  show ?thesis by (auto simp: rfc3339_range_def)
qed

end
