(* ===== verification/Any_Backend.thy ===== *)
theory Any_Backend
  imports Local_File Sqlite
begin

text \<open>
  \<^verbatim>\<open>src/storage/mod.rs\<close>: the enum that dispatches to the configured
  backend. A value of \<open>AnyBackend\<close> is the open store: the path of the vault
  file with the file system it lives in, or the open database.
\<close>

datatype any_backend = File path fs | Sqlite db_file

record any_io =
  file_part :: file_io
  sqlite_part :: sqlite_io

fun any_insert ::
  "ext \<Rightarrow> any_io \<Rightarrow> bytes \<Rightarrow> stored_record \<Rightarrow> any_backend \<Rightarrow> (unit, storage_error) result \<times> any_backend" where
  "any_insert E io rid r (File vp d) = map_prod id (File vp) (local_file_insert E vp (file_part io) rid r d)"
| "any_insert E io rid r (Sqlite db) = map_prod id Sqlite (sqlite_insert E (sqlite_part io) rid r db)"

fun any_fetch ::
  "ext \<Rightarrow> any_io \<Rightarrow> bytes \<Rightarrow> any_backend \<Rightarrow> (stored_record, storage_error) result \<times> any_backend" where
  "any_fetch E io rid (File vp d) = map_prod id (File vp) (local_file_fetch E vp (file_part io) rid d)"
| "any_fetch E io rid (Sqlite db) = map_prod id Sqlite (sqlite_fetch E (sqlite_part io) rid db)"

fun any_delete ::
  "ext \<Rightarrow> any_io \<Rightarrow> bytes \<Rightarrow> any_backend \<Rightarrow> (bool, storage_error) result \<times> any_backend" where
  "any_delete E io rid (File vp d) = map_prod id (File vp) (local_file_delete E vp (file_part io) rid d)"
| "any_delete E io rid (Sqlite db) = map_prod id Sqlite (sqlite_delete (sqlite_part io) rid db)"

fun any_delete_expired ::
  "ext \<Rightarrow> any_io \<Rightarrow> datetime \<Rightarrow> any_backend \<Rightarrow> (nat, storage_error) result \<times> any_backend" where
  "any_delete_expired E io now (File vp d) =
     map_prod id (File vp) (local_file_delete_expired E vp (file_part io) now d)"
| "any_delete_expired E io now (Sqlite db) =
     map_prod id Sqlite (sqlite_delete_expired E (sqlite_part io) now db)"

definition any_backend_ops :: "ext \<Rightarrow> (any_backend, any_io) storage_backend" where
  "any_backend_ops E =
     \<lparr>be_insert = any_insert E, be_fetch = any_fetch E,
      be_delete = any_delete E, be_delete_expired = any_delete_expired E\<rparr>"

section \<open>The dispatcher meets the contract\<close>

fun any_abs :: "ext \<Rightarrow> any_backend \<Rightarrow> store" where
  "any_abs E (File vp d) = file_abs E vp d"
| "any_abs E (Sqlite db) = sqlite_abs E db"

fun any_inv :: "ext \<Rightarrow> any_backend \<Rightarrow> bool" where
  "any_inv E (File vp d) = file_inv E vp d"
| "any_inv E (Sqlite db) = sqlite_inv E db"

fun any_quiet :: "any_io \<Rightarrow> any_backend \<Rightarrow> bool" where
  "any_quiet io (File vp d) = file_quiet vp (file_part io) d"
| "any_quiet io (Sqlite db) = sqlite_quiet (sqlite_part io) db"

lemma any_backend_ops_simps [simp]:
  "be_insert (any_backend_ops E) = any_insert E"
  "be_fetch (any_backend_ops E) = any_fetch E"
  "be_delete (any_backend_ops E) = any_delete E"
  "be_delete_expired (any_backend_ops E) = any_delete_expired E"
  by (simp_all add: any_backend_ops_def)

lemma map_prod_eq_pair:
  "map_prod id f p = (a, b) \<longleftrightarrow> (\<exists>b'. p = (a, b') \<and> b = f b')"
  by (cases p) auto

lemma any_insert_spec:
  assumes "any_inv E s" "length rid = 16" "rfc3339_record r"
    and "any_insert E io rid r s = (res, s')"
  shows "any_inv E s' \<and> (case res of Ok _ \<Rightarrow> any_abs E s' = (any_abs E s)(rid \<mapsto> r)
    | Err _ \<Rightarrow> any_abs E s' = any_abs E s \<or> any_abs E s' = (any_abs E s)(rid \<mapsto> r) | Panic _ \<Rightarrow> False)"
proof (cases s)
  case (File vp d)
  with assms obtain d' where "s' = File vp d'" "local_file_insert E vp (file_part io) rid r d = (res, d')"
    by (auto simp: map_prod_eq_pair)
  with assms File local_file_insert_spec [of E vp d rid "file_part io" r res d'] show ?thesis
    by (cases res) simp_all
next
  case (Sqlite db)
  with assms obtain db' where "s' = Sqlite db'" "sqlite_insert E (sqlite_part io) rid r db = (res, db')"
    by (auto simp: map_prod_eq_pair)
  with assms Sqlite sqlite_insert_spec [of E db rid r "sqlite_part io" res db'] show ?thesis
    by (cases res) simp_all
qed

lemma any_fetch_spec:
  assumes "any_inv E s" "length rid = 16"
    and "any_fetch E io rid s = (res, s')"
  shows "any_inv E s' \<and> any_abs E s' = any_abs E s \<and> (case res of Ok r \<Rightarrow> any_abs E s rid = Some r
    | Err e \<Rightarrow> e = NotFound \<longrightarrow> any_abs E s rid = None | Panic _ \<Rightarrow> False)"
proof (cases s)
  case (File vp d)
  with assms obtain d' where "s' = File vp d'" "local_file_fetch E vp (file_part io) rid d = (res, d')"
    by (auto simp: map_prod_eq_pair)
  with assms File local_file_fetch_spec [of E vp d rid "file_part io" res d'] show ?thesis
    by (cases res) simp_all
next
  case (Sqlite db)
  with assms obtain db' where "s' = Sqlite db'" "sqlite_fetch E (sqlite_part io) rid db = (res, db')"
    by (auto simp: map_prod_eq_pair)
  with assms Sqlite sqlite_fetch_spec [of E db "sqlite_part io" rid res db'] show ?thesis
    by (cases res) simp_all
qed

lemma any_delete_spec:
  assumes "any_inv E s" "length rid = 16"
    and "any_delete E io rid s = (res, s')"
  shows "any_inv E s' \<and> (case res of
      Ok b \<Rightarrow> any_abs E s' = (any_abs E s)(rid := None) \<and> (b \<longleftrightarrow> any_abs E s rid \<noteq> None)
    | Err _ \<Rightarrow> any_abs E s' = any_abs E s \<or> any_abs E s' = (any_abs E s)(rid := None) | Panic _ \<Rightarrow> False)"
proof (cases s)
  case (File vp d)
  with assms obtain d' where "s' = File vp d'" "local_file_delete E vp (file_part io) rid d = (res, d')"
    by (auto simp: map_prod_eq_pair)
  with assms File local_file_delete_spec [of E vp d rid "file_part io" res d'] show ?thesis
    by (cases res) simp_all
next
  case (Sqlite db)
  with assms obtain db' where "s' = Sqlite db'" "sqlite_delete (sqlite_part io) rid db = (res, db')"
    by (auto simp: map_prod_eq_pair)
  with assms Sqlite sqlite_delete_spec [of E db "sqlite_part io" rid res db'] show ?thesis
    by (cases res) simp_all
qed

lemma any_delete_expired_spec:
  assumes "any_inv E s" "rfc3339_range now"
    and "any_delete_expired E io now s = (res, s')"
  shows "any_inv E s' \<and> (case res of
      Ok n \<Rightarrow> any_abs E s' = purge now (any_abs E s) \<and>
        n = card {rid. \<exists>r. any_abs E s rid = Some r \<and> due now r}
    | Err _ \<Rightarrow> any_abs E s' = any_abs E s \<or> any_abs E s' = purge now (any_abs E s) | Panic _ \<Rightarrow> False)"
proof (cases s)
  case (File vp d)
  with assms obtain d' where "s' = File vp d'" "local_file_delete_expired E vp (file_part io) now d = (res, d')"
    by (auto simp: map_prod_eq_pair)
  with assms File local_file_delete_expired_spec [of E vp d "file_part io" now res d'] show ?thesis
    by (cases res) simp_all
next
  case (Sqlite db)
  with assms obtain db' where "s' = Sqlite db'" "sqlite_delete_expired E (sqlite_part io) now db = (res, db')"
    by (auto simp: map_prod_eq_pair)
  with assms Sqlite sqlite_delete_expired_spec [of E db now "sqlite_part io" res db'] show ?thesis
    by (cases res) simp_all
qed

text \<open>No insertion panics, even of a record outside the range the SQLite backend can express.\<close>

lemma any_insert_no_panic:
  assumes "any_inv E s" "length rid = 16"
  shows "\<not> is_panic (fst (any_insert E io rid r s))"
proof (cases s)
  case (File vp d)
  then show ?thesis
    using assms local_file_insert_spec [OF _ _ surjective_pairing, of E vp d rid "file_part io" r]
    by (cases "fst (local_file_insert E vp (file_part io) rid r d)") auto
next
  case (Sqlite db)
  then show ?thesis
    by (auto simp: sqlite_insert_def with_connection_def db_sys_def split: option.splits)
qed

lemma any_quiet_ops:
  assumes "any_inv E s" "any_quiet io s"
  shows "fst (any_insert E io rid r s) = Ok ()"
    and "length rid = 16 \<Longrightarrow>
      fst (any_fetch E io rid s) = (case any_abs E s rid of None \<Rightarrow> Err NotFound | Some r \<Rightarrow> Ok r)"
    and "is_ok (fst (any_delete E io rid s))"
    and "is_ok (fst (any_delete_expired E io now s))"
  using assms
  by (cases s; auto simp: local_file_insert_quiet local_file_fetch_quiet local_file_delete_quiet
      local_file_delete_expired_quiet sqlite_quiet_ops)+

interpretation any_store: backend_contract
  "any_backend_ops E" "any_abs E" "any_inv E" rfc3339_record rfc3339_range any_quiet
  for E
proof (unfold_locales, unfold any_backend_ops_simps, goal_cases)
  case 1 then show ?case by (rule any_insert_spec)
next
  case 2 then show ?case by (blast intro: any_quiet_ops)
next
  case 3 then show ?case by (rule any_fetch_spec)
next
  case 4 then show ?case by (blast intro: any_quiet_ops)
next
  case (5 s rid io io') then show ?case
    by (cases s) (auto simp: local_file_fetch_keeps_quiet sqlite_quiet_def)
next
  case 6 then show ?case by (rule any_delete_spec)
next
  case 7 then show ?case by (blast intro: any_quiet_ops)
next
  case 8 then show ?case by (rule any_delete_expired_spec)
next
  case 9 then show ?case by (blast intro: any_quiet_ops)
qed

lemma any_keeps_quiet:
  assumes "any_inv E s" "any_quiet io s"
  shows "any_quiet io (snd (any_insert E io' rid r s))"
    and "any_quiet io (snd (any_delete E io' rid s))"
    and "any_quiet io (snd (any_delete_expired E io' now s))"
  using assms
  by (cases s; auto simp: file_quiet_frame local_file_frame sqlite_quiet_def)+

interpretation any_calm: calm_backend
  "any_backend_ops E" "any_abs E" "any_inv E" rfc3339_record rfc3339_range any_quiet
  for E
  by unfold_locales (simp_all add: any_keeps_quiet)

end
