(* ===== verification/Proof_Vault.thy ===== *)
theory Proof_Vault
  imports Any_Backend
begin

text \<open>
  \<^verbatim>\<open>src/vault/proof_vault.rs\<close>: the \<open>ProofVault\<close> trait and its
  implementation \<open>StandardVault<B>\<close> over any storage backend. A vault's
  state is the state of its backend together with the log lines written so far.
  What a call reads from its surroundings (the random generator, the clock, the
  failures of its storage calls) is the call's environment.
\<close>

section \<open>State, logging and the environment of a call\<close>

datatype log_level = DEBUG | INFO | WARN

type_synonym log_line = "log_level \<times> string \<times> string"

record 's vault =
  storage :: 's
  vault_log :: "log_line list"

record 'io call_env =
  gen_key :: bytes
  gen_nonce :: bytes
  new_uuid :: bytes
  now_expiry :: datetime
  now_stored :: datetime
  now_check :: datetime
  io_first :: 'io
  io_second :: 'io

definition emit :: "log_level \<Rightarrow> string \<Rightarrow> 's vault \<Rightarrow> 's vault" where
  "emit lv msg v = v\<lparr>vault_log := vault_log v @ [(lv, ''tari_vault::vault'', msg)]\<rparr>"

definition on_storage :: "('s \<Rightarrow> ('a, 'e) result \<times> 's) \<Rightarrow> 's vault \<Rightarrow> ('a, 'e) result \<times> 's vault" where
  "on_storage f v = (case f (storage v) of (r, s) \<Rightarrow> (r, v\<lparr>storage := s\<rparr>))"

definition vault_new :: "'s \<Rightarrow> 's vault" where
  "vault_new s = \<lparr>storage = s, vault_log = []\<rparr>"

section \<open>Storing\<close>

text \<open>
  The optional expiry: \<open>i64::try_from\<close>, \<open>Duration::seconds\<close> and the
  addition to the clock. The last two panic out of range.
\<close>

definition expiry_at :: "ext \<Rightarrow> datetime \<Rightarrow> u64 \<Rightarrow> (datetime, vault_error) result" where
  "expiry_at E now s =
     (if unat s \<ge> 2 ^ 63 then Err (InvalidParameter ''expires_in_secs value is too large'')
      else case chrono_seconds E (int (unat s)) of
        None \<Rightarrow> Panic ''TimeDelta::seconds out of bounds''
      | Some d \<Rightarrow> (case chrono_add E now d of
          None \<Rightarrow> Panic ''DateTime + TimeDelta overflowed''
        | Some t \<Rightarrow> Ok t))"

definition issued_record :: "'io call_env \<Rightarrow> bytes \<Rightarrow> datetime option \<Rightarrow> stored_record" where
  "issued_record env ct ex =
     \<lparr>encrypted = \<lparr>nonce = gen_nonce env, ciphertext = ct\<rparr>, stored_at = now_stored env, expires_at = ex\<rparr>"

definition store_proof ::
  "ext \<Rightarrow> ('s, 'io) storage_backend \<Rightarrow> 'io call_env \<Rightarrow> plaintext_proof \<Rightarrow> u64 option \<Rightarrow>
     's vault \<Rightarrow> (string, vault_error) result \<times> 's vault" where
  "store_proof E B env p expires_in_secs v =
     (if expires_in_secs = Some 0
      then (Err (InvalidParameter ''expires_in_secs must be greater than zero''), v)
      else case aes_gcm_encrypt E (gen_key env) (gen_nonce env) (proof_as_bytes p) of
        None \<Rightarrow> (Err DecryptionFailed, v)
      | Some ct \<Rightarrow>
          let claim = claim_id_new (new_uuid env) (gen_key env); rid = record_id claim in
          try_op (transpose_res (map_option (expiry_at E (now_expiry env)) expires_in_secs), v) (\<lambda>ex v.
          let stored = issued_record env ct ex in
          try_op (map_err_op Storage (on_storage (be_insert B (io_first env) rid stored) v)) (\<lambda>_ v.
          let encoded = claim_id_encode E claim in
          (Ok encoded, emit INFO (''Proof stored; record_id='' @ uuid_simple E rid) v))))"

section \<open>Retrieving, deleting, sweeping\<close>

definition fetch_error :: "storage_error \<Rightarrow> vault_error" where
  "fetch_error e = (case e of NotFound \<Rightarrow> ProofNotFound | other \<Rightarrow> Storage other)"

text \<open>
  The reaction to an expired record, common to retrieval and deletion: delete it,
  log a failure to do so, log the attempt, report the expiry.
\<close>

definition drop_expired ::
  "ext \<Rightarrow> ('s, 'io) storage_backend \<Rightarrow> 'io \<Rightarrow> bytes \<Rightarrow> string \<Rightarrow> 's vault \<Rightarrow> ('a, vault_error) result \<times> 's vault" where
  "drop_expired E B io rid msg v =
     (case on_storage (be_delete B io rid) v of
        (Panic m, v) \<Rightarrow> (Panic m, v)
      | (Ok _, v) \<Rightarrow> (Err ProofExpired, emit WARN (msg @ uuid_simple E rid) v)
      | (Err e, v) \<Rightarrow>
          (Err ProofExpired, emit WARN (msg @ uuid_simple E rid)
             (emit WARN (''Failed to delete expired record '' @ uuid_simple E rid @
                ''; storage error: '' @ storage_error_display e) v)))"

text \<open>\<open>GenericArray::from_slice\<close> panics on a slice of the wrong length.\<close>

definition from_slice :: "nat \<Rightarrow> bytes \<Rightarrow> (bytes, 'e) result" where
  "from_slice n bs = (if length bs = n then Ok bs else Panic ''slice length mismatch'')"

definition retrieve_proof ::
  "ext \<Rightarrow> ('s, 'io) storage_backend \<Rightarrow> 'io call_env \<Rightarrow> string \<Rightarrow>
     's vault \<Rightarrow> (plaintext_proof, vault_error) result \<times> 's vault" where
  "retrieve_proof E B env claim_id_str v =
     try_op (claim_id_decode E claim_id_str, v) (\<lambda>claim v.
     let rid = record_id claim in
     try_op (map_err_op fetch_error (on_storage (be_fetch B (io_first env) rid) v)) (\<lambda>stored v.
     if is_expired (now_check env) stored
     then drop_expired E B (io_second env) rid ''Expired proof access attempt; record_id='' v
     else if length (nonce (encrypted stored)) \<noteq> 12 then (Err DecryptionFailed, v)
     else
       try_op (from_slice 32 (encryption_key claim), v) (\<lambda>key v.
       try_op (from_slice 12 (nonce (encrypted stored)), v) (\<lambda>n v.
       case aes_gcm_decrypt E key n (ciphertext (encrypted stored)) of
         None \<Rightarrow> (Err DecryptionFailed, v)
       | Some plaintext \<Rightarrow>
           try_op (map_err_op Storage (on_storage (be_delete B (io_second env) rid) v)) (\<lambda>_ v.
           (Ok (proof_from_bytes plaintext),
            emit INFO (''Proof retrieved and consumed; record_id='' @ uuid_simple E rid) v))))))"

definition cleanup ::
  "('s, 'io) storage_backend \<Rightarrow> 'io call_env \<Rightarrow> 's vault \<Rightarrow> (nat, vault_error) result \<times> 's vault" where
  "cleanup B env v =
     try_op (map_err_op Storage (on_storage (be_delete_expired B (io_first env) (now_check env)) v)) (\<lambda>removed v.
     (Ok removed,
      if removed > 0
      then emit INFO (''Cleanup sweep removed '' @ show_nat removed @ '' expired proof(s)'') v else v))"

definition delete_proof ::
  "ext \<Rightarrow> ('s, 'io) storage_backend \<Rightarrow> 'io call_env \<Rightarrow> string \<Rightarrow>
     's vault \<Rightarrow> (unit, vault_error) result \<times> 's vault" where
  "delete_proof E B env claim_id_str v =
     try_op (claim_id_decode E claim_id_str, v) (\<lambda>claim v.
     let rid = record_id claim in
     try_op (map_err_op fetch_error (on_storage (be_fetch B (io_first env) rid) v)) (\<lambda>stored v.
     if is_expired (now_check env) stored
     then drop_expired E B (io_second env) rid ''Delete attempt on expired proof; record_id='' v
     else
       try_op (map_err_op Storage (on_storage (be_delete B (io_second env) rid) v)) (\<lambda>deleted v.
       if \<not> deleted then (Err ProofNotFound, v)
       else (Ok (), emit INFO (''Proof explicitly deleted by holder; record_id='' @ uuid_simple E rid) v))))"

section \<open>The trait\<close>

record ('v, 'env) proof_vault =
  pv_store_proof :: "'env \<Rightarrow> plaintext_proof \<Rightarrow> u64 option \<Rightarrow> 'v \<Rightarrow> (string, vault_error) result \<times> 'v"
  pv_retrieve_proof :: "'env \<Rightarrow> string \<Rightarrow> 'v \<Rightarrow> (plaintext_proof, vault_error) result \<times> 'v"
  pv_cleanup :: "'env \<Rightarrow> 'v \<Rightarrow> (nat, vault_error) result \<times> 'v"
  pv_delete_proof :: "'env \<Rightarrow> string \<Rightarrow> 'v \<Rightarrow> (unit, vault_error) result \<times> 'v"

definition standard_vault :: "ext \<Rightarrow> ('s, 'io) storage_backend \<Rightarrow> ('s vault, 'io call_env) proof_vault" where
  "standard_vault E B =
     \<lparr>pv_store_proof = store_proof E B, pv_retrieve_proof = retrieve_proof E B,
      pv_cleanup = cleanup B, pv_delete_proof = delete_proof E B\<rparr>"

text \<open>The blanket implementation for \<open>Arc<V>\<close> forwards every call.\<close>

definition arc_vault :: "('v, 'env) proof_vault \<Rightarrow> ('v, 'env) proof_vault" where
  "arc_vault V =
     \<lparr>pv_store_proof = (\<lambda>env p ttl v. pv_store_proof V env p ttl v),
      pv_retrieve_proof = (\<lambda>env s v. pv_retrieve_proof V env s v),
      pv_cleanup = (\<lambda>env v. pv_cleanup V env v),
      pv_delete_proof = (\<lambda>env s v. pv_delete_proof V env s v)\<rparr>"

section \<open>The operations on the abstract store\<close>

text \<open>
  What each operation promises when no storage call fails: its result and its
  effect on the abstract store, as executable reference functions.
\<close>

definition spec_store ::
  "ext \<Rightarrow> 'io call_env \<Rightarrow> plaintext_proof \<Rightarrow> u64 option \<Rightarrow> store \<Rightarrow> (string, vault_error) result \<times> store" where
  "spec_store E env p ttl m =
     (if ttl = Some 0 then (Err (InvalidParameter ''expires_in_secs must be greater than zero''), m)
      else case aes_gcm_encrypt E (gen_key env) (gen_nonce env) (proof_data p) of
        None \<Rightarrow> (Err DecryptionFailed, m)
      | Some ct \<Rightarrow>
         (case transpose_res (map_option (expiry_at E (now_expiry env)) ttl) of
            Ok ex \<Rightarrow> (Ok (claim_id_encode E (claim_id_new (new_uuid env) (gen_key env))),
                      m(new_uuid env \<mapsto> issued_record env ct ex))
          | Err e \<Rightarrow> (Err e, m)
          | Panic msg \<Rightarrow> (Panic msg, m)))"

definition open_record :: "ext \<Rightarrow> claim_id \<Rightarrow> stored_record \<Rightarrow> bytes option" where
  "open_record E c r =
     (if length (nonce (encrypted r)) \<noteq> 12 then None
      else aes_gcm_decrypt E (encryption_key c) (nonce (encrypted r)) (ciphertext (encrypted r)))"

definition spec_retrieve ::
  "ext \<Rightarrow> datetime \<Rightarrow> string \<Rightarrow> store \<Rightarrow> (plaintext_proof, vault_error) result \<times> store" where
  "spec_retrieve E now tok m =
     (case claim_id_decode E tok of
        Ok c \<Rightarrow>
         (case m (record_id c) of
            None \<Rightarrow> (Err ProofNotFound, m)
          | Some r \<Rightarrow>
              if is_expired now r then (Err ProofExpired, m(record_id c := None))
              else (case open_record E c r of
                 None \<Rightarrow> (Err DecryptionFailed, m)
               | Some pt \<Rightarrow> (Ok (proof_from_bytes pt), m(record_id c := None))))
      | _ \<Rightarrow> (Err InvalidClaimId, m))"

definition spec_delete :: "ext \<Rightarrow> datetime \<Rightarrow> string \<Rightarrow> store \<Rightarrow> (unit, vault_error) result \<times> store" where
  "spec_delete E now tok m =
     (case claim_id_decode E tok of
        Ok c \<Rightarrow>
         (case m (record_id c) of
            None \<Rightarrow> (Err ProofNotFound, m)
          | Some r \<Rightarrow>
              (if is_expired now r then Err ProofExpired else Ok (), m(record_id c := None)))
      | _ \<Rightarrow> (Err InvalidClaimId, m))"

definition spec_cleanup :: "datetime \<Rightarrow> store \<Rightarrow> (nat, vault_error) result \<times> store" where
  "spec_cleanup now m = (Ok (card {rid. \<exists>r. m rid = Some r \<and> due now r}), purge now m)"

text \<open>
  An operation conforms to its reference when it answers as the reference does,
  or reports a storage failure (or an expiry whose deletion failed) with the
  effect of the reference done entirely or not at all.
\<close>

definition conforms ::
  "('a, vault_error) result \<times> store \<Rightarrow> store \<Rightarrow> ('a, vault_error) result \<times> store \<Rightarrow> bool" where
  "conforms spec m out \<longleftrightarrow> out = spec \<or>
     ((\<exists>se. fst out = Err (Storage se)) \<or> fst out = Err ProofExpired \<and> fst spec = Err ProofExpired) \<and>
     (snd out = m \<or> snd out = snd spec)"

lemma on_storage_eq [simp]: "f (storage v) = (r, s) \<Longrightarrow> on_storage f v = (r, v\<lparr>storage := s\<rparr>)"
  by (simp add: on_storage_def)

lemma storage_emit [simp]: "storage (emit lv msg v) = storage v"
  by (simp add: emit_def)

lemma fetch_error_iff [simp]:
  "fetch_error e = ProofNotFound \<longleftrightarrow> e = NotFound"
  "fetch_error e \<noteq> ProofExpired" "fetch_error e \<noteq> DecryptionFailed" "fetch_error e \<noteq> InvalidClaimId"
  by (cases e; simp add: fetch_error_def)+

lemma fetch_error_cases: "e = NotFound \<or> (\<exists>se. fetch_error e = Storage se)"
  by (cases e) (auto simp: fetch_error_def)

definition env_ok :: "'io call_env \<Rightarrow> bool" where
  "env_ok env \<longleftrightarrow> length (gen_key env) = 32 \<and> length (gen_nonce env) = 12 \<and> length (new_uuid env) = 16"

text \<open>
  The random values of a store have the lengths of their types, and the record it
  builds is one the backend handles.
\<close>

definition store_ok :: "(stored_record \<Rightarrow> bool) \<Rightarrow> ext \<Rightarrow> 'io call_env \<Rightarrow> u64 option \<Rightarrow> bool" where
  "store_ok storable E env ttl \<longleftrightarrow> env_ok env \<and>
     (\<forall>ct ex. transpose_res (map_option (expiry_at E (now_expiry env)) ttl) = Ok ex \<longrightarrow>
        storable (issued_record env ct ex))"

context backend_contract
begin

lemma store_proof_conforms:
  assumes inv: "inv (storage v)" and st: "store_ok storable E env ttl"
    and op: "store_proof E B env p ttl v = (res, v')"
  shows "inv (storage v') \<and>
    conforms (spec_store E env p ttl (abs (storage v))) (abs (storage v)) (res, abs (storage v'))"
proof -
  let ?ex = "transpose_res (map_option (expiry_at E (now_expiry env)) ttl)"
  show ?thesis
  proof (cases "ttl = Some 0 \<or> aes_gcm_encrypt E (gen_key env) (gen_nonce env) (proof_data p) = None \<or>
      (\<forall>ex. ?ex \<noteq> Ok ex)")
    case True
    then show ?thesis
      using inv op
      by (cases ?ex) (auto simp: store_proof_def spec_store_def proof_as_bytes_def conforms_def Let_def
          split: option.splits)
  next
    case False
    then obtain ct ex where ttl: "ttl \<noteq> Some 0"
      and ct: "aes_gcm_encrypt E (gen_key env) (gen_nonce env) (proof_data p) = Some ct" and ex: "?ex = Ok ex"
      by auto
    obtain ri s1 where ins: "be_insert B (io_first env) (new_uuid env) (issued_record env ct ex) (storage v) = (ri, s1)"
      by fastforce
    have "length (new_uuid env) = 16" "storable (issued_record env ct ex)"
      using st ex by (auto simp: store_ok_def env_ok_def)
    note spec = insert_spec [OF inv this ins]
    show ?thesis
      using spec op ttl ct ex ins
      by (cases ri) (auto simp: store_proof_def spec_store_def proof_as_bytes_def conforms_def Let_def claim_id_new_def)
  qed
qed

text \<open>The first step of retrieval and deletion, and the branch for an expired record.\<close>

lemma fetch_step:
  assumes "inv (storage v)" "claim_id_decode E tok = Ok c"
  obtains (fetched) r s1 where
      "on_storage (be_fetch B io (record_id c)) v = (Ok r, v\<lparr>storage := s1\<rparr>)"
      "inv s1" "abs s1 = abs (storage v)" "abs (storage v) (record_id c) = Some r"
  | (missing) s1 where
      "on_storage (be_fetch B io (record_id c)) v = (Err NotFound, v\<lparr>storage := s1\<rparr>)"
      "inv s1" "abs s1 = abs (storage v)" "abs (storage v) (record_id c) = None"
  | (failed) e s1 where
      "on_storage (be_fetch B io (record_id c)) v = (Err e, v\<lparr>storage := s1\<rparr>)"
      "\<exists>se. fetch_error e = Storage se" "inv s1" "abs s1 = abs (storage v)"
proof -
  obtain r s1 where op: "be_fetch B io (record_id c) (storage v) = (r, s1)"
    by fastforce
  have "length (record_id c) = 16"
    using decode_ok_wf [OF assms(2)] by (simp add: claim_id_ok_def)
  note spec = fetch_spec [OF assms(1) this op]
  have on: "on_storage (be_fetch B io (record_id c)) v = (r, v\<lparr>storage := s1\<rparr>)"
    using op by simp
  show thesis
  proof (cases r)
    case (Err e)
    then show ?thesis
      using missing failed on [unfolded Err] spec [unfolded Err result.case] fetch_error_cases [of e]
      by (cases "e = NotFound") blast+
  qed (use fetched on spec in auto)
qed

lemma delete_step:
  assumes "inv (storage v)" "claim_id_decode E tok = Ok c"
  obtains (deleted) b s1 where
      "on_storage (be_delete B io (record_id c)) v = (Ok b, v\<lparr>storage := s1\<rparr>)"
      "inv s1" "abs s1 = (abs (storage v))(record_id c := None)"
      "b \<longleftrightarrow> abs (storage v) (record_id c) \<noteq> None"
  | (failed) e s1 where
      "on_storage (be_delete B io (record_id c)) v = (Err e, v\<lparr>storage := s1\<rparr>)" "inv s1"
      "abs s1 = abs (storage v) \<or> abs s1 = (abs (storage v))(record_id c := None)"
proof -
  obtain r s1 where op: "be_delete B io (record_id c) (storage v) = (r, s1)"
    by fastforce
  have "length (record_id c) = 16"
    using decode_ok_wf [OF assms(2)] by (simp add: claim_id_ok_def)
  from delete_spec [OF assms(1) this op] show thesis
    using that op by (cases r) (auto simp: on_storage_def)
qed

lemma drop_expired_effect:
  assumes "inv (storage v)" "claim_id_decode E tok = Ok c"
    and "drop_expired E B io (record_id c) msg v = (res, v')"
  shows "res = Err ProofExpired \<and> inv (storage v') \<and>
    (abs (storage v') = abs (storage v) \<or> abs (storage v') = (abs (storage v))(record_id c := None))"
  using assms(1,2)
proof (cases rule: delete_step [where io = io])
  case (deleted b s1)
  then show ?thesis using assms(3) by (auto simp: drop_expired_def)
next
  case (failed e s1)
  then show ?thesis using assms(3) by (auto simp: drop_expired_def)
qed

text \<open>The rest of a retrieval whose record was fetched and has not expired.\<close>

lemma retrieve_live_conforms:
  assumes Ok: "claim_id_decode E tok = Ok c"
    and fetched: "on_storage (be_fetch B (io_first env) (record_id c)) v = (Ok r, v\<lparr>storage := s1\<rparr>)"
      "inv s1" "abs s1 = abs (storage v)" "abs (storage v) (record_id c) = Some r"
    and live: "\<not> is_expired (now_check env) r" and op: "retrieve_proof E B env tok v = (res, v')"
  shows "inv (storage v') \<and>
    conforms (spec_retrieve E (now_check env) tok (abs (storage v))) (abs (storage v)) (res, abs (storage v'))"
proof -
  have klen: "length (encryption_key c) = 32" and inv1: "inv (storage (v\<lparr>storage := s1\<rparr>))"
    using decode_ok_wf [OF Ok] fetched by (simp_all add: claim_id_ok_def)
  show ?thesis
  proof (cases "open_record E c r")
    case None
    then show ?thesis
      using live op Ok fetched klen
      by (auto simp: retrieve_proof_def spec_retrieve_def conforms_def open_record_def from_slice_def split: if_splits)
  next
    case (Some pt)
    then have open_r: "length (nonce (encrypted r)) = 12"
      "aes_gcm_decrypt E (encryption_key c) (nonce (encrypted r)) (ciphertext (encrypted r)) = Some pt"
      by (auto simp: open_record_def split: if_splits)
    from inv1 Ok show ?thesis
      by (cases rule: delete_step [where io = "io_second env"])
        (use live op Ok fetched klen Some open_r in \<open>auto simp: retrieve_proof_def spec_retrieve_def conforms_def from_slice_def\<close>)
  qed
qed

lemma retrieve_proof_conforms:
  assumes inv: "inv (storage v)" and op: "retrieve_proof E B env tok v = (res, v')"
  shows "inv (storage v') \<and>
    conforms (spec_retrieve E (now_check env) tok (abs (storage v))) (abs (storage v)) (res, abs (storage v'))"
proof (cases "claim_id_decode E tok")
  case (Ok c)
  from inv Ok show ?thesis
  proof (cases rule: fetch_step [where io = "io_first env"])
    case missing
    then show ?thesis
      using op Ok by (auto simp: retrieve_proof_def spec_retrieve_def conforms_def fetch_error_def)
  next
    case (failed e s1)
    then show ?thesis
      using op Ok by (auto simp: retrieve_proof_def spec_retrieve_def conforms_def)
  next
    case (fetched r s1)
    let ?v1 = "v\<lparr>storage := s1\<rparr>"
    have inv1: "inv (storage ?v1)"
      using fetched(2) by simp
    show ?thesis
    proof (cases "is_expired (now_check env) r")
      case True
      then have "drop_expired E B (io_second env) (record_id c) ''Expired proof access attempt; record_id='' ?v1 = (res, v')"
        using op Ok fetched(1) by (simp add: retrieve_proof_def)
      from drop_expired_effect [OF inv1 Ok this] show ?thesis
        using True fetched Ok by (auto simp: spec_retrieve_def conforms_def)
    next
      case False
      then show ?thesis
        by (rule retrieve_live_conforms [OF Ok fetched _ op])
    qed
  qed
next
  case (Err e)
  then have "e = InvalidClaimId"
    using decode_total [of E tok] by auto
  then show ?thesis
    using Err op inv by (auto simp: retrieve_proof_def spec_retrieve_def conforms_def)
next
  case (Panic m)
  then show ?thesis
    using decode_total [of E tok] by auto
qed

lemma delete_proof_conforms:
  assumes inv: "inv (storage v)" and op: "delete_proof E B env tok v = (res, v')"
  shows "inv (storage v') \<and>
    conforms (spec_delete E (now_check env) tok (abs (storage v))) (abs (storage v)) (res, abs (storage v'))"
proof (cases "claim_id_decode E tok")
  case (Ok c)
  from inv Ok show ?thesis
  proof (cases rule: fetch_step [where io = "io_first env"])
    case missing
    then show ?thesis
      using op Ok by (auto simp: delete_proof_def spec_delete_def conforms_def fetch_error_def)
  next
    case (failed e s1)
    then show ?thesis
      using op Ok by (auto simp: delete_proof_def spec_delete_def conforms_def)
  next
    case (fetched r s1)
    let ?v1 = "v\<lparr>storage := s1\<rparr>"
    have inv1: "inv (storage ?v1)"
      using fetched(2) by simp
    show ?thesis
    proof (cases "is_expired (now_check env) r")
      case True
      then have "drop_expired E B (io_second env) (record_id c) ''Delete attempt on expired proof; record_id='' ?v1 = (res, v')"
        using op Ok fetched(1) by (simp add: delete_proof_def)
      from drop_expired_effect [OF inv1 Ok this] show ?thesis
        using True fetched Ok by (auto simp: spec_delete_def conforms_def)
    next
      case False
      from inv1 Ok show ?thesis
        by (cases rule: delete_step [where io = "io_second env"])
          (use False op Ok fetched in \<open>auto simp: delete_proof_def spec_delete_def conforms_def\<close>)
    qed
  qed
next
  case (Err e)
  then have "e = InvalidClaimId"
    using decode_total [of E tok] by auto
  then show ?thesis
    using Err op inv by (auto simp: delete_proof_def spec_delete_def conforms_def)
next
  case (Panic m)
  then show ?thesis
    using decode_total [of E tok] by auto
qed

lemma cleanup_conforms:
  assumes inv: "inv (storage v)" "clock_ok (now_check env)" and op: "cleanup B env v = (res, v')"
  shows "inv (storage v') \<and>
    conforms (spec_cleanup (now_check env) (abs (storage v))) (abs (storage v)) (res, abs (storage v'))"
proof -
  obtain r s1 where "be_delete_expired B (io_first env) (now_check env) (storage v) = (r, s1)"
    by fastforce
  with delete_expired_spec [OF inv this] op show ?thesis
    by (cases r) (auto simp: cleanup_def spec_cleanup_def conforms_def)
qed

text \<open>Without failing storage calls each operation is its reference.\<close>

lemma fetch_step_quiet:
  assumes "inv (storage v)" "claim_id_decode E tok = Ok c" "quiet io (storage v)" "quiet io' (storage v)"
  obtains s1 where
    "on_storage (be_fetch B io (record_id c)) v =
       (case abs (storage v) (record_id c) of None \<Rightarrow> Err NotFound | Some r \<Rightarrow> Ok r, v\<lparr>storage := s1\<rparr>)"
    "inv s1" "abs s1 = abs (storage v)" "quiet io' s1"
proof -
  obtain r s1 where op: "be_fetch B io (record_id c) (storage v) = (r, s1)"
    by fastforce
  have len: "length (record_id c) = 16"
    using decode_ok_wf [OF assms(2)] by (simp add: claim_id_ok_def)
  show thesis
    using that [of s1] fetch_spec [OF assms(1) len op] fetch_quiet [OF assms(1) len assms(3)]
      fetch_keeps_quiet [OF assms(1) len assms(4), of io] op
    by simp
qed

lemma delete_step_quiet:
  assumes "inv (storage v)" "claim_id_decode E tok = Ok c" "quiet io (storage v)"
  obtains s1 where
    "on_storage (be_delete B io (record_id c)) v =
       (Ok (abs (storage v) (record_id c) \<noteq> None), v\<lparr>storage := s1\<rparr>)"
    "abs s1 = (abs (storage v))(record_id c := None)"
  using assms(1,2)
proof (cases rule: delete_step [where io = io])
  case (deleted b s1)
  then show ?thesis using that by blast
next
  case (failed e s1)
  have "length (record_id c) = 16"
    using decode_ok_wf [OF assms(2)] by (simp add: claim_id_ok_def)
  from delete_quiet [OF assms(1) this assms(3)] failed(1) show ?thesis
    by (auto simp: on_storage_def split: prod.splits)
qed

lemma retrieve_proof_quiet:
  assumes inv: "inv (storage v)" and q: "quiet (io_first env) (storage v)" "quiet (io_second env) (storage v)"
    and op: "retrieve_proof E B env tok v = (res, v')"
  shows "(res, abs (storage v')) = spec_retrieve E (now_check env) tok (abs (storage v))"
proof (cases "claim_id_decode E tok")
  case (Ok c)
  obtain s1 where f: "on_storage (be_fetch B (io_first env) (record_id c)) v =
       (case abs (storage v) (record_id c) of None \<Rightarrow> Err NotFound | Some r \<Rightarrow> Ok r, v\<lparr>storage := s1\<rparr>)"
    and s1: "inv s1" "abs s1 = abs (storage v)" "quiet (io_second env) s1"
    using fetch_step_quiet [OF inv Ok q] .
  obtain s2 where d: "on_storage (be_delete B (io_second env) (record_id c)) (v\<lparr>storage := s1\<rparr>) =
       (Ok (abs (storage v) (record_id c) \<noteq> None), v\<lparr>storage := s2\<rparr>)"
    and s2: "abs s2 = (abs (storage v))(record_id c := None)"
    using delete_step_quiet [OF _ Ok, of "v\<lparr>storage := s1\<rparr>" "io_second env"] s1 by auto
  have klen: "length (encryption_key c) = 32"
    using decode_ok_wf [OF Ok] by (simp add: claim_id_ok_def)
  show ?thesis
    using op f d s1(2) s2 klen Ok
    by (auto simp: retrieve_proof_def spec_retrieve_def drop_expired_def open_record_def from_slice_def
        fetch_error_def split: option.splits if_splits)
next
  case (Err e)
  then show ?thesis
    using op decode_total [of E tok] by (auto simp: retrieve_proof_def spec_retrieve_def)
next
  case (Panic m)
  then show ?thesis
    using decode_total [of E tok] by auto
qed

lemma delete_proof_quiet:
  assumes inv: "inv (storage v)" and q: "quiet (io_first env) (storage v)" "quiet (io_second env) (storage v)"
    and op: "delete_proof E B env tok v = (res, v')"
  shows "(res, abs (storage v')) = spec_delete E (now_check env) tok (abs (storage v))"
proof (cases "claim_id_decode E tok")
  case (Ok c)
  obtain s1 where f: "on_storage (be_fetch B (io_first env) (record_id c)) v =
       (case abs (storage v) (record_id c) of None \<Rightarrow> Err NotFound | Some r \<Rightarrow> Ok r, v\<lparr>storage := s1\<rparr>)"
    and s1: "inv s1" "abs s1 = abs (storage v)" "quiet (io_second env) s1"
    using fetch_step_quiet [OF inv Ok q] .
  obtain s2 where d: "on_storage (be_delete B (io_second env) (record_id c)) (v\<lparr>storage := s1\<rparr>) =
       (Ok (abs (storage v) (record_id c) \<noteq> None), v\<lparr>storage := s2\<rparr>)"
    and s2: "abs s2 = (abs (storage v))(record_id c := None)"
    using delete_step_quiet [OF _ Ok, of "v\<lparr>storage := s1\<rparr>" "io_second env"] s1 by auto
  show ?thesis
    using op f d s1(2) s2 Ok
    by (auto simp: delete_proof_def spec_delete_def drop_expired_def fetch_error_def
        split: option.splits if_splits)
next
  case (Err e)
  then show ?thesis
    using op decode_total [of E tok] by (auto simp: delete_proof_def spec_delete_def)
next
  case (Panic m)
  then show ?thesis
    using decode_total [of E tok] by auto
qed

lemma conforms_no_failure:
  "\<lbrakk>conforms spec m (res, m'); \<And>se. res \<noteq> Err (Storage se); res \<noteq> Err ProofExpired\<rbrakk> \<Longrightarrow> (res, m') = spec"
  by (auto simp: conforms_def)

lemma store_proof_quiet:
  assumes "inv (storage v)" "store_ok storable E env ttl" "quiet (io_first env) (storage v)"
    and op: "store_proof E B env p ttl v = (res, v')"
  shows "(res, abs (storage v')) = spec_store E env p ttl (abs (storage v))"
proof -
  have ins: "r = Ok ()"
    if "transpose_res (map_option (expiry_at E (now_expiry env)) ttl) = Ok ex"
      "be_insert B (io_first env) (new_uuid env) (issued_record env ct ex) (storage v) = (r, s)" for ct ex r s
    using insert_quiet [OF assms(1) _ _ assms(3), of "new_uuid env" "issued_record env ct ex"] assms(2) that
    by (simp add: store_ok_def env_ok_def)
  have ttl_err: "transpose_res (map_option (expiry_at E (now_expiry env)) ttl) = Err e \<Longrightarrow>
      \<exists>m. e = InvalidParameter m" for e
    by (cases ttl) (auto simp: expiry_at_def split: if_splits option.splits)
  have "(\<forall>se. res \<noteq> Err (Storage se)) \<and> res \<noteq> Err ProofExpired"
    using op ttl_err
    by (cases "transpose_res (map_option (expiry_at E (now_expiry env)) ttl)")
      (auto simp: store_proof_def Let_def on_storage_def claim_id_new_def
        split: option.splits if_splits prod.splits dest: ins)
  with conforms_no_failure store_proof_conforms [OF assms(1,2) op] show ?thesis
    by blast
qed

lemma cleanup_quiet:
  assumes "inv (storage v)" "clock_ok (now_check env)" "quiet (io_first env) (storage v)"
    and op: "cleanup B env v = (res, v')"
  shows "(res, abs (storage v')) = spec_cleanup (now_check env) (abs (storage v))"
proof -
  have "(\<forall>se. res \<noteq> Err (Storage se)) \<and> res \<noteq> Err ProofExpired"
    using op delete_expired_quiet [OF assms(1-3)]
    by (cases "be_delete_expired B (io_first env) (now_check env) (storage v)")
      (auto simp: cleanup_def on_storage_def elim: is_ok.elims)
  with conforms_no_failure cleanup_conforms [OF assms(1,2) op] show ?thesis
    by blast
qed

end

end
