(* ===== verification/Vault_Runs.thy ===== *)
theory Vault_Runs
  imports Proof_Vault
begin

text \<open>
  Sequences of vault operations: every operation runs to completion before the
  next begins, each in its own environment and with its own storage failures.
  The run of the code is compared with the run of the reference operations, and
  the laws of a claim over a whole run (it is delivered, it is consumed at most
  once) are proved here.
\<close>

datatype 'io vault_op =
    OpStore "'io call_env" plaintext_proof "u64 option"
  | OpRetrieve "'io call_env" string
  | OpDelete "'io call_env" string
  | OpCleanup "'io call_env"

datatype answer =
    Stored "(string, vault_error) result"
  | Retrieved "(plaintext_proof, vault_error) result"
  | Deleted "(unit, vault_error) result"
  | Swept "(nat, vault_error) result"

fun run_op :: "ext \<Rightarrow> ('s, 'io) storage_backend \<Rightarrow> 'io vault_op \<Rightarrow> 's vault \<Rightarrow> answer \<times> 's vault" where
  "run_op E B (OpStore env p ttl) v = map_prod Stored id (store_proof E B env p ttl v)"
| "run_op E B (OpRetrieve env tok) v = map_prod Retrieved id (retrieve_proof E B env tok v)"
| "run_op E B (OpDelete env tok) v = map_prod Deleted id (delete_proof E B env tok v)"
| "run_op E B (OpCleanup env) v = map_prod Swept id (cleanup B env v)"

fun run_ops ::
  "ext \<Rightarrow> ('s, 'io) storage_backend \<Rightarrow> 'io vault_op list \<Rightarrow> 's vault \<Rightarrow> answer list \<times> 's vault" where
  "run_ops E B [] v = ([], v)"
| "run_ops E B (op # ops) v =
     (case run_op E B op v of (a, v1) \<Rightarrow> (case run_ops E B ops v1 of (as, v2) \<Rightarrow> (a # as, v2)))"

fun spec_op :: "ext \<Rightarrow> 'io vault_op \<Rightarrow> store \<Rightarrow> answer \<times> store" where
  "spec_op E (OpStore env p ttl) m = map_prod Stored id (spec_store E env p ttl m)"
| "spec_op E (OpRetrieve env tok) m = map_prod Retrieved id (spec_retrieve E (now_check env) tok m)"
| "spec_op E (OpDelete env tok) m = map_prod Deleted id (spec_delete E (now_check env) tok m)"
| "spec_op E (OpCleanup env) m = map_prod Swept id (spec_cleanup (now_check env) m)"

fun spec_ops :: "ext \<Rightarrow> 'io vault_op list \<Rightarrow> store \<Rightarrow> answer list \<times> store" where
  "spec_ops E [] m = ([], m)"
| "spec_ops E (op # ops) m =
     (case spec_op E op m of (a, m1) \<Rightarrow> (case spec_ops E ops m1 of (as, m2) \<Rightarrow> (a # as, m2)))"

section \<open>Well-formed operations\<close>

text \<open>The records and clock readings are in the range the backend handles.\<close>

fun op_ok :: "(stored_record \<Rightarrow> bool) \<Rightarrow> (datetime \<Rightarrow> bool) \<Rightarrow> ext \<Rightarrow> 'io vault_op \<Rightarrow> bool" where
  "op_ok storable clock_ok E (OpStore env p ttl) = store_ok storable E env ttl"
| "op_ok storable clock_ok E (OpCleanup env) = clock_ok (now_check env)"
| "op_ok storable clock_ok E _ = True"

fun op_env :: "'io vault_op \<Rightarrow> 'io call_env" where
  "op_env (OpStore env p ttl) = env"
| "op_env (OpRetrieve env tok) = env"
| "op_env (OpDelete env tok) = env"
| "op_env (OpCleanup env) = env"

text \<open>No storage call fails during a run.\<close>

fun quiet_run ::
  "('io \<Rightarrow> 's \<Rightarrow> bool) \<Rightarrow> ext \<Rightarrow> ('s, 'io) storage_backend \<Rightarrow> 'io vault_op list \<Rightarrow> 's vault \<Rightarrow> bool" where
  "quiet_run quiet E B [] v = True"
| "quiet_run quiet E B (op # ops) v =
     (quiet (io_first (op_env op)) (storage v) \<and> quiet (io_second (op_env op)) (storage v) \<and>
      quiet_run quiet E B ops (snd (run_op E B op v)))"

section \<open>What an operation does to one record\<close>

text \<open>The operation stores under, or succeeds in consuming, the given record id.\<close>

fun stores_id :: "bytes \<Rightarrow> 'io vault_op \<Rightarrow> bool" where
  "stores_id rid (OpStore env p ttl) = (new_uuid env = rid)"
| "stores_id rid _ = False"

definition token_for :: "ext \<Rightarrow> bytes \<Rightarrow> string \<Rightarrow> bool" where
  "token_for E rid tok \<longleftrightarrow> (case claim_id_decode E tok of Ok c \<Rightarrow> record_id c = rid | _ \<Rightarrow> False)"

fun consumes_id :: "ext \<Rightarrow> bytes \<Rightarrow> 'io vault_op \<Rightarrow> answer \<Rightarrow> bool" where
  "consumes_id E rid (OpRetrieve env tok) (Retrieved r) = (token_for E rid tok \<and> is_ok r)"
| "consumes_id E rid (OpDelete env tok) (Deleted r) = (token_for E rid tok \<and> is_ok r)"
| "consumes_id E rid _ _ = False"

text \<open>The operation leaves the record alone: other ids, and no sweep at which it is due.\<close>

fun avoids :: "ext \<Rightarrow> bytes \<Rightarrow> datetime option \<Rightarrow> 'io vault_op \<Rightarrow> bool" where
  "avoids E rid ex (OpStore env p ttl) = (new_uuid env \<noteq> rid)"
| "avoids E rid ex (OpRetrieve env tok) = (\<not> token_for E rid tok)"
| "avoids E rid ex (OpDelete env tok) = (\<not> token_for E rid tok)"
| "avoids E rid ex (OpCleanup env) = (case ex of None \<Rightarrow> True | Some t \<Rightarrow> now_check env < t)"

section \<open>Single steps\<close>

text \<open>How often a run consumes, and how often it stores, the record id.\<close>

fun consumptions :: "ext \<Rightarrow> bytes \<Rightarrow> 'io vault_op list \<Rightarrow> answer list \<Rightarrow> nat" where
  "consumptions E rid (op # ops) (a # as) = (if consumes_id E rid op a then 1 else 0) + consumptions E rid ops as"
| "consumptions E rid _ _ = 0"

fun storings :: "bytes \<Rightarrow> 'io vault_op list \<Rightarrow> nat" where
  "storings rid [] = 0"
| "storings rid (op # ops) = (if stores_id rid op then 1 else 0) + storings rid ops"

definition held :: "bytes \<Rightarrow> store \<Rightarrow> nat" where
  "held rid m = (if m rid = None then 0 else 1)"

fun answer_ok :: "answer \<Rightarrow> bool" where
  "answer_ok (Stored r) = is_ok r"
| "answer_ok (Retrieved r) = is_ok r"
| "answer_ok (Deleted r) = is_ok r"
| "answer_ok (Swept r) = is_ok r"

lemma spec_op_frame:
  assumes "avoids E rid (expires_at r) op" "m rid = Some r"
  shows "snd (spec_op E op m) rid = Some r"
  using assms
  by (cases op) (auto simp: spec_store_def spec_retrieve_def spec_delete_def spec_cleanup_def token_for_def
      purge_def due_def split: option.splits result.splits)

lemma spec_op_shrinks:
  assumes "\<not> stores_id rid op"
  shows "snd (spec_op E op m) rid = None \<or> snd (spec_op E op m) rid = m rid"
  using assms
  by (cases op) (auto simp: spec_store_def spec_retrieve_def spec_delete_def spec_cleanup_def purge_def
      split: option.splits result.splits)

lemma spec_op_consumes:
  assumes "consumes_id E rid op (fst (spec_op E op m))"
  shows "m rid \<noteq> None \<and> snd (spec_op E op m) rid = None"
  using assms
  by (cases op) (auto simp: spec_retrieve_def spec_delete_def token_for_def split: option.splits result.splits if_splits)

lemma consumes_id_ok: "consumes_id E rid op a \<Longrightarrow> answer_ok a"
  by (cases "(E, rid, op, a)" rule: consumes_id.cases) auto

lemma consumes_not_stores: "consumes_id E rid op a \<Longrightarrow> \<not> stores_id rid' op"
  by (cases op) auto

text \<open>
  The outcome of an operation: the reference's, or a failure with the whole
  effect of the reference or none of it.
\<close>

definition op_conforms :: "ext \<Rightarrow> 'io vault_op \<Rightarrow> store \<Rightarrow> answer \<Rightarrow> store \<Rightarrow> bool" where
  "op_conforms E op m a m' \<longleftrightarrow> (a, m') = spec_op E op m \<or>
     \<not> answer_ok a \<and> (m' = m \<or> m' = snd (spec_op E op m))"

text \<open>
  The accounting of one step: a successful consumption is paid for by the record
  being there before and gone after; only a store can bring it back.
\<close>

lemma op_conforms_balance:
  assumes "op_conforms E op m a m'"
  shows "(if consumes_id E rid op a then 1 else 0) + held rid m' \<le> held rid m + (if stores_id rid op then 1 else 0)"
proof (cases "stores_id rid op")
  case True
  then show ?thesis
    using consumes_not_stores [of E rid op a rid] by (auto simp: held_def)
next
  case False
  have shrink: "m' rid = None \<or> m' rid = m rid"
    using assms spec_op_shrinks [OF False, of E m] unfolding op_conforms_def by (metis snd_conv)
  have "m rid \<noteq> None \<and> m' rid = None" if "consumes_id E rid op a"
    using assms spec_op_consumes [of E rid op m] consumes_id_ok [OF that] that
    by (metis op_conforms_def fst_conv snd_conv)
  then show ?thesis
    using shrink by (auto simp: held_def)
qed

lemma op_conformsI:
  assumes "conforms spec m (r, m')" "spec_op E op m = map_prod C id spec" "answer_ok (C r) = is_ok r"
  shows "op_conforms E op m (C r) m'"
  using assms by (cases spec; cases r) (auto simp: conforms_def op_conforms_def)

text \<open>
  The lengths that Rust's array types enforce in memory but the storage formats do
  not: ids of 16 bytes, nonces of 12, and tokens of 64 characters.
\<close>

definition store_typed :: "store \<Rightarrow> bool" where
  "store_typed m \<longleftrightarrow> (\<forall>rid r. m rid = Some r \<longrightarrow> length rid = 16 \<and> length (nonce (encrypted r)) = 12)"

fun answer_typed :: "answer \<Rightarrow> bool" where
  "answer_typed (Stored (Ok tok)) = (length tok = 64)"
| "answer_typed _ = True"

lemma store_typed_remove: "store_typed m \<Longrightarrow> store_typed (m(rid := None))"
  by (simp add: store_typed_def)

lemma spec_op_typed:
  assumes "base64_url_laws E" "op_ok storable clock_ok E op" "store_typed m"
  shows "store_typed (snd (spec_op E op m)) \<and> answer_typed (fst (spec_op E op m))"
proof (cases op)
  case (OpStore env p ttl)
  then have "env_ok env" using assms(2) by (simp add: store_ok_def)
  then have "length (claim_id_encode E (claim_id_new (new_uuid env) (gen_key env))) = 64"
    by (intro encode_length [OF assms(1)]) (simp add: env_ok_def)
  then show ?thesis
    using OpStore assms(3) \<open>env_ok env\<close>
    by (auto simp: spec_store_def store_typed_def issued_record_def env_ok_def split: option.splits result.splits)
qed (use assms(3) in \<open>auto simp: spec_retrieve_def spec_delete_def spec_cleanup_def store_typed_remove
      store_typed_def purge_def split: option.splits result.splits\<close>)

lemma op_conforms_typed:
  assumes "base64_url_laws E" "op_ok storable clock_ok E op" "store_typed m" "op_conforms E op m a m'"
  shows "store_typed m' \<and> answer_typed a"
proof -
  have "answer_typed a" if "\<not> answer_ok a"
    using that by (cases a rule: answer_typed.cases) auto
  then show ?thesis
    using spec_op_typed [OF assms(1-3)] assms(3,4) by (metis fst_conv op_conforms_def snd_conv)
qed

lemma map_prod_obtain: "map_prod C id p = (a, b) \<longleftrightarrow> (\<exists>r. p = (r, b) \<and> a = C r)"
  by (cases p) auto

context backend_contract
begin

lemma run_op_conforms:
  assumes inv: "inv (storage v)" and ok: "op_ok storable clock_ok E op" and run: "run_op E B op v = (a, v')"
  shows "inv (storage v') \<and> op_conforms E op (abs (storage v)) a (abs (storage v'))"
proof (cases op)
  case (OpStore env p ttl)
  with run obtain r where r: "store_proof E B env p ttl v = (r, v')" "a = Stored r"
    by (auto simp: map_prod_obtain)
  with store_proof_conforms [OF inv _ r(1)] ok OpStore show ?thesis
    by (auto intro!: op_conformsI)
next
  case (OpRetrieve env tok)
  with run obtain r where r: "retrieve_proof E B env tok v = (r, v')" "a = Retrieved r"
    by (auto simp: map_prod_obtain)
  with retrieve_proof_conforms [OF inv r(1)] OpRetrieve show ?thesis
    by (auto intro!: op_conformsI)
next
  case (OpDelete env tok)
  with run obtain r where r: "delete_proof E B env tok v = (r, v')" "a = Deleted r"
    by (auto simp: map_prod_obtain)
  with delete_proof_conforms [OF inv r(1)] OpDelete show ?thesis
    by (auto intro!: op_conformsI)
next
  case (OpCleanup env)
  with run obtain r where r: "cleanup B env v = (r, v')" "a = Swept r"
    by (auto simp: map_prod_obtain)
  with cleanup_conforms [OF inv _ r(1)] ok OpCleanup show ?thesis
    by (auto intro!: op_conformsI)
qed

lemma run_op_quiet:
  assumes inv: "inv (storage v)" and ok: "op_ok storable clock_ok E op" and run: "run_op E B op v = (a, v')"
    and q: "quiet (io_first (op_env op)) (storage v)" "quiet (io_second (op_env op)) (storage v)"
  shows "(a, abs (storage v')) = spec_op E op (abs (storage v))"
proof (cases op)
  case (OpStore env p ttl)
  with run obtain r where "store_proof E B env p ttl v = (r, v')" "a = Stored r"
    by (auto simp: map_prod_obtain)
  with store_proof_quiet [OF inv _ _ this(1), symmetric] ok q OpStore show ?thesis by simp
next
  case (OpRetrieve env tok)
  with run obtain r where "retrieve_proof E B env tok v = (r, v')" "a = Retrieved r"
    by (auto simp: map_prod_obtain)
  with retrieve_proof_quiet [OF inv _ _ this(1), symmetric] q OpRetrieve show ?thesis by simp
next
  case (OpDelete env tok)
  with run obtain r where "delete_proof E B env tok v = (r, v')" "a = Deleted r"
    by (auto simp: map_prod_obtain)
  with delete_proof_quiet [OF inv _ _ this(1), symmetric] q OpDelete show ?thesis by simp
next
  case (OpCleanup env)
  with run obtain r where "cleanup B env v = (r, v')" "a = Swept r"
    by (auto simp: map_prod_obtain)
  with cleanup_quiet [OF inv _ _ this(1), symmetric] ok q OpCleanup show ?thesis by simp
qed

section \<open>Runs\<close>

lemma run_ops_inv:
  "\<lbrakk>inv (storage v); \<forall>op \<in> set ops. op_ok storable clock_ok E op; run_ops E B ops v = (as, v')\<rbrakk> \<Longrightarrow>
     inv (storage v')"
proof (induction ops arbitrary: v as)
  case (Cons op ops)
  obtain a v1 as1 where "run_op E B op v = (a, v1)" "run_ops E B ops v1 = (as1, v')"
    using Cons.prems(3) by (auto split: prod.splits)
  with Cons run_op_conforms [OF Cons.prems(1)] show ?case by (metis list.set_intros)
qed simp

lemma run_ops_typed:
  "\<lbrakk>base64_url_laws E; inv (storage v); \<forall>op \<in> set ops. op_ok storable clock_ok E op; store_typed (abs (storage v));
    run_ops E B ops v = (as, v')\<rbrakk> \<Longrightarrow> store_typed (abs (storage v')) \<and> (\<forall>a \<in> set as. answer_typed a)"
proof (induction ops arbitrary: v as)
  case (Cons op ops)
  obtain a v1 as1 where step: "run_op E B op v = (a, v1)" and rest: "run_ops E B ops v1 = (as1, v')" and "as = a # as1"
    using Cons.prems(5) by (auto split: prod.splits)
  moreover have "inv (storage v1)" "store_typed (abs (storage v1))" "answer_typed a"
    using run_op_conforms [OF Cons.prems(2) _ step] op_conforms_typed [OF Cons.prems(1) _ Cons.prems(4)] Cons.prems(3)
    by (metis list.set_intros(1))+
  ultimately show ?case
    using Cons.IH [OF Cons.prems(1) _ _ _ rest] Cons.prems(3) by simp
qed simp

text \<open>A run without storage failures is the run of the reference.\<close>

lemma run_ops_refines:
  "\<lbrakk>inv (storage v); \<forall>op \<in> set ops. op_ok storable clock_ok E op; quiet_run quiet E B ops v;
    run_ops E B ops v = (as, v')\<rbrakk> \<Longrightarrow> (as, abs (storage v')) = spec_ops E ops (abs (storage v))"
proof (induction ops arbitrary: v as)
  case (Cons op ops)
  obtain a v1 as1 where step: "run_op E B op v = (a, v1)" and rest: "run_ops E B ops v1 = (as1, v')"
    and as: "as = a # as1"
    using Cons.prems(4) by (auto split: prod.splits)
  have ok: "op_ok storable clock_ok E op"
    using Cons.prems(2) by simp
  have "(as1, abs (storage v')) = spec_ops E ops (abs (storage v1))"
    using Cons.IH [OF _ _ _ rest] run_op_conforms [OF Cons.prems(1) ok step] Cons.prems(2,3) step by simp
  moreover have "(a, abs (storage v1)) = spec_op E op (abs (storage v))"
    using run_op_quiet [OF Cons.prems(1) ok step] Cons.prems(3) by simp
  ultimately show ?case
    by (simp add: as split: prod.splits) (metis prod.inject)
qed simp

text \<open>A record that no operation of a run touches survives the run, whatever fails.\<close>

lemma run_ops_frame:
  "\<lbrakk>inv (storage v); \<forall>op \<in> set ops. op_ok storable clock_ok E op \<and> avoids E rid (expires_at r) op;
    abs (storage v) rid = Some r; run_ops E B ops v = (as, v')\<rbrakk> \<Longrightarrow> abs (storage v') rid = Some r"
proof (induction ops arbitrary: v as)
  case (Cons op ops)
  obtain a v1 as1 where step: "run_op E B op v = (a, v1)" and rest: "run_ops E B ops v1 = (as1, v')"
    using Cons.prems(4) by (auto split: prod.splits)
  have c: "inv (storage v1) \<and> op_conforms E op (abs (storage v)) a (abs (storage v1))"
    using run_op_conforms [OF Cons.prems(1) _ step] Cons.prems(2) by simp
  have "snd (spec_op E op (abs (storage v))) rid = Some r"
    by (rule spec_op_frame) (use Cons.prems(2,3) in auto)
  with c Cons.prems(3) have "abs (storage v1) rid = Some r"
    unfolding op_conforms_def by (metis snd_conv)
  with Cons.IH [OF _ _ _ rest] c Cons.prems(2) show ?case by simp
qed simp

text \<open>Under any failures, a run consumes a record id at most as often as it was stored.\<close>

lemma run_ops_balance:
  "\<lbrakk>inv (storage v); \<forall>op \<in> set ops. op_ok storable clock_ok E op; run_ops E B ops v = (as, v')\<rbrakk> \<Longrightarrow>
     consumptions E rid ops as + held rid (abs (storage v')) \<le> held rid (abs (storage v)) + storings rid ops"
proof (induction ops arbitrary: v as)
  case (Cons op ops)
  obtain a v1 as1 where step: "run_op E B op v = (a, v1)" and rest: "run_ops E B ops v1 = (as1, v')"
    and as: "as = a # as1"
    using Cons.prems(3) by (auto split: prod.splits)
  have c: "inv (storage v1) \<and> op_conforms E op (abs (storage v)) a (abs (storage v1))"
    using run_op_conforms [OF Cons.prems(1) _ step] Cons.prems(2) by simp
  with op_conforms_balance [of E op "abs (storage v)" a "abs (storage v1)" rid] Cons.IH [OF _ _ rest] Cons.prems(2)
  show ?case by (simp add: as)
qed simp

text \<open>
  The handoff: what a successful store puts under its id, and what a retrieval by
  the issued token does to it.
\<close>

lemma store_proof_Ok:
  assumes "inv (storage v)" "store_ok storable E env ttl" and op: "store_proof E B env p ttl v = (Ok tok, v')"
  obtains ct ex where "aes_gcm_encrypt E (gen_key env) (gen_nonce env) (proof_data p) = Some ct"
    "transpose_res (map_option (expiry_at E (now_expiry env)) ttl) = Ok ex"
    "tok = claim_id_encode E (claim_id_new (new_uuid env) (gen_key env))"
    "inv (storage v')" "abs (storage v') = (abs (storage v))(new_uuid env \<mapsto> issued_record env ct ex)"
proof -
  have c: "inv (storage v')" "(Ok tok, abs (storage v')) = spec_store E env p ttl (abs (storage v))"
    using store_proof_conforms [OF assms(1,2) op] by (auto simp: conforms_def)
  then show thesis
    using that by (auto simp: spec_store_def split: if_splits option.splits result.splits)
qed

lemma issued_opens:
  assumes "aead_laws E" "env_ok env"
    and "aes_gcm_encrypt E (gen_key env) (gen_nonce env) (proof_data p) = Some ct"
  shows "open_record E (claim_id_new (new_uuid env) (gen_key env)) (issued_record env ct ex) = Some (proof_data p)"
  using assms aead_roundtrip [OF assms(1) _ _ assms(3)]
  by (simp add: open_record_def issued_record_def env_ok_def claim_id_new_def)

lemma handoff_delivers:
  assumes laws: "base64_url_laws E" "aead_laws E"
    and inv: "inv (storage v)" and st: "store_ok storable E env ttl"
    and store: "store_proof E B env p ttl v = (Ok tok, v1)"
    and ex: "transpose_res (map_option (expiry_at E (now_expiry env)) ttl) = Ok ex"
    and ops: "\<forall>op \<in> set ops. op_ok storable clock_ok E op \<and> avoids E (new_uuid env) ex op"
    and run: "run_ops E B ops v1 = (as, v2)"
    and q: "quiet (io_first env') (storage v2)" "quiet (io_second env') (storage v2)"
    and time: "\<forall>t. ex = Some t \<longrightarrow> now_check env' \<le> t"
    and ret: "retrieve_proof E B env' tok v2 = (res, v3)"
  shows "res = Ok p \<and> abs (storage v3) = (abs (storage v2))(new_uuid env := None)"
proof -
  obtain ct where ct: "aes_gcm_encrypt E (gen_key env) (gen_nonce env) (proof_data p) = Some ct"
    and tok: "tok = claim_id_encode E (claim_id_new (new_uuid env) (gen_key env))"
    and v1: "inv (storage v1)" "abs (storage v1) = (abs (storage v))(new_uuid env \<mapsto> issued_record env ct ex)"
    using store_proof_Ok [OF inv st store] ex by (metis result.inject(1))
  let ?r = "issued_record env ct ex"
  have r: "expires_at ?r = ex" by (simp add: issued_record_def)
  have env: "env_ok env" using st by (simp add: store_ok_def)
  have v2: "inv (storage v2)" "abs (storage v2) (new_uuid env) = Some ?r"
    using run_ops_inv [OF v1(1) _ run] run_ops_frame [OF v1(1) _ _ run, of "new_uuid env" ?r] ops v1(2)
    by (simp_all add: r)
  have dec: "claim_id_decode E tok = Ok (claim_id_new (new_uuid env) (gen_key env))"
    using decode_encode [OF laws(1)] env by (simp add: tok env_ok_def)
  have "\<not> is_expired (now_check env') ?r"
    using time by (auto simp: is_expired_iff r)
  then have "spec_retrieve E (now_check env') tok (abs (storage v2)) =
      (Ok p, (abs (storage v2))(new_uuid env := None))"
    using v2(2) dec issued_opens [OF laws(2) env ct, of ex]
    by (simp add: spec_retrieve_def claim_id_new_def proof_from_bytes_def)
  with retrieve_proof_quiet [OF v2(1) q ret] show ?thesis by simp
qed

end

section \<open>Runs without storage failures\<close>

text \<open>What the operations do to the storage: at most a fetch and one change.\<close>

lemma storage_after_store:
  obtains (kept) "storage (snd (store_proof E B env p ttl v)) = storage v"
  | (inserted) ct ex where "transpose_res (map_option (expiry_at E (now_expiry env)) ttl) = Ok ex"
      "storage (snd (store_proof E B env p ttl v)) =
        snd (be_insert B (io_first env) (new_uuid env) (issued_record env ct ex) (storage v))"
proof (cases "transpose_res (map_option (expiry_at E (now_expiry env)) ttl)")
  case (Ok ex)
  show thesis
  proof (cases "ttl = Some 0 \<or> aes_gcm_encrypt E (gen_key env) (gen_nonce env) (proof_as_bytes p) = None")
    case True
    then show thesis by (intro kept) (auto simp: store_proof_def)
  next
    case False
    then obtain ct where ct: "ttl \<noteq> Some 0" "aes_gcm_encrypt E (gen_key env) (gen_nonce env) (proof_as_bytes p) = Some ct"
      by auto
    obtain ri s1 where "be_insert B (io_first env) (new_uuid env) (issued_record env ct ex) (storage v) = (ri, s1)"
      by fastforce
    then show thesis
      using ct Ok by (intro inserted [of ex ct]; cases ri) (auto simp: store_proof_def Let_def claim_id_new_def)
  qed
qed (auto intro!: kept simp: store_proof_def Let_def split: option.splits)

lemma storage_after_claim:
  fixes B :: "('s, 'io) storage_backend"
  assumes "claim_id_decode E tok = Ok c" "be_fetch B (io_first env) (record_id c) (storage v) = (r, s1)"
  shows "storage (snd (retrieve_proof E B env tok v)) \<in> {s1, snd (be_delete B (io_second env) (record_id c) s1)}"
    and "storage (snd (delete_proof E B env tok v)) \<in> {s1, snd (be_delete B (io_second env) (record_id c) s1)}"
proof -
  obtain b s2 where d: "be_delete B (io_second env) (record_id c) s1 = (b, s2)" by fastforce
  show "storage (snd (retrieve_proof E B env tok v)) \<in> {s1, snd (be_delete B (io_second env) (record_id c) s1)}"
    using assms d
    by (cases r; cases b) (auto simp: retrieve_proof_def Let_def drop_expired_def from_slice_def split: option.splits)
  show "storage (snd (delete_proof E B env tok v)) \<in> {s1, snd (be_delete B (io_second env) (record_id c) s1)}"
    using assms d by (cases r; cases b) (auto simp: delete_proof_def Let_def drop_expired_def)
qed

lemma storage_after_bad_claim:
  assumes "claim_id_decode E tok = Err e"
  shows "storage (snd (retrieve_proof E B env tok v)) = storage v" "storage (snd (delete_proof E B env tok v)) = storage v"
  using assms by (simp_all add: retrieve_proof_def delete_proof_def)

lemma storage_after_cleanup:
  "storage (snd (cleanup B env v)) = snd (be_delete_expired B (io_first env) (now_check env) (storage v))"
proof -
  obtain r s1 where "be_delete_expired B (io_first env) (now_check env) (storage v) = (r, s1)" by fastforce
  then show ?thesis by (cases r) (auto simp: cleanup_def)
qed

text \<open>
  With a calm backend, whether a run is free of storage failures is settled by the
  state it starts in.
\<close>

context calm_backend
begin

lemma claim_keeps_quiet:
  assumes inv: "inv (storage v)" and q: "quiet io (storage v)"
  shows "quiet io (storage (snd (retrieve_proof E B env tok v)))" "quiet io (storage (snd (delete_proof E B env tok v)))"
proof -
  have "quiet io (storage (snd (retrieve_proof E B env tok v))) \<and> quiet io (storage (snd (delete_proof E B env tok v)))"
  proof (cases "claim_id_decode E tok")
    case (Ok c)
    obtain r s1 where f: "be_fetch B (io_first env) (record_id c) (storage v) = (r, s1)" by fastforce
    have len: "length (record_id c) = 16"
      using decode_ok_wf [OF Ok] by (simp add: claim_id_ok_def)
    have "inv s1" "quiet io s1"
      using fetch_spec [OF inv len f] fetch_keeps_quiet [OF inv len q, of "io_first env"] f by auto
    then have "quiet io s" if "s \<in> {s1, snd (be_delete B (io_second env) (record_id c) s1)}" for s
      using that delete_keeps_quiet [OF _ len] by auto
    then show ?thesis
      using storage_after_claim [OF Ok f] by blast
  next
    case (Err e)
    then show ?thesis using q by (simp add: storage_after_bad_claim)
  next
    case (Panic m)
    then show ?thesis using decode_total [of E tok] by auto
  qed
  then show "quiet io (storage (snd (retrieve_proof E B env tok v)))" "quiet io (storage (snd (delete_proof E B env tok v)))"
    by blast+
qed

lemma run_op_keeps_quiet:
  assumes inv: "inv (storage v)" and ok: "op_ok storable clock_ok E op" and q: "quiet io (storage v)"
  shows "quiet io (storage (snd (run_op E B op v)))"
proof (cases op)
  case (OpStore env p ttl)
  then have "store_ok storable E env ttl" using ok by simp
  then show ?thesis
    by (cases rule: storage_after_store [of E B env p ttl v])
      (use insert_keeps_quiet [OF inv _ _ q] q OpStore in \<open>auto simp: store_ok_def env_ok_def\<close>)
next
  case (OpCleanup env)
  then show ?thesis
    using delete_expired_keeps_quiet [OF inv _ q] ok by (simp add: storage_after_cleanup)
qed (use claim_keeps_quiet [OF inv q] in simp_all)

lemma quiet_start:
  assumes "inv (storage v)" "\<forall>op \<in> set ops. op_ok storable clock_ok E op"
    and "\<forall>op \<in> set ops. quiet (io_first (op_env op)) (storage v) \<and> quiet (io_second (op_env op)) (storage v)"
  shows "quiet_run quiet E B ops v"
  using assms
proof (induction ops arbitrary: v)
  case (Cons op ops)
  obtain a v1 where step: "run_op E B op v = (a, v1)" by fastforce
  have ok: "op_ok storable clock_ok E op" using Cons.prems(2) by simp
  have "inv (storage v1)" using run_op_conforms [OF Cons.prems(1) ok step] by simp
  moreover have "quiet io (storage v) \<Longrightarrow> quiet io (storage v1)" for io
    using run_op_keeps_quiet [OF Cons.prems(1) ok] step by (metis snd_conv)
  ultimately show ?case
    using Cons.IH [of v1] Cons.prems(2,3) step by simp
qed simp

lemma quiet_run_refines:
  assumes "inv (storage v)" "\<forall>op \<in> set ops. op_ok storable clock_ok E op"
    and "\<forall>op \<in> set ops. quiet (io_first (op_env op)) (storage v) \<and> quiet (io_second (op_env op)) (storage v)"
    and "run_ops E B ops v = (as, v')"
  shows "(as, abs (storage v')) = spec_ops E ops (abs (storage v))"
  using run_ops_refines [OF assms(1,2) quiet_start [OF assms(1-3)] assms(4)] .

end

end
