(* ===== verification/Crash_Safety.thy ===== *)
theory Crash_Safety
  imports Local_File
begin

text \<open>
  Opening and rewriting the vault file, at the granularity of single system
  calls: what \<open>LocalFileStore::new\<close> leaves behind, which states a crash in
  the middle of \<open>write_atomic\<close> can leave behind, and what happens when two
  processes create the file at the same time.
\<close>

section \<open>The system calls of \<open>write_atomic\<close>, one at a time\<close>

text \<open>
  The program counter of an interrupted write: the number of bytes that
  \<open>write_all\<close> has handed to the kernel, then the flush, the rename and the
  \<open>chmod\<close>. No destructor runs when the process dies, so the temporary file
  stays.
\<close>

datatype write_pc = AtStart | Writing nat | Flushed | Renamed | Finished

inductive write_step ::
  "ext \<Rightarrow> file_io \<Rightarrow> path \<Rightarrow> disk_state \<Rightarrow> write_pc \<times> fs \<Rightarrow> write_pc \<times> fs \<Rightarrow> bool"
  for E :: ext and io :: file_io and vp :: path and st :: disk_state where
  create_temp: "\<lbrakk>path_parent vp = Some dir; d (temp_path io dir) = None\<rbrakk> \<Longrightarrow>
     write_step E io vp st (AtStart, d) (Writing 0, d(temp_path io dir \<mapsto> \<lparr>content = [], mode = temp_mode io\<rparr>))"
| write_some: "\<lbrakk>path_parent vp = Some dir; serde_to_vec_pretty E (disk_state_serialize E st) = Ok bs;
     n < m; m \<le> length bs\<rbrakk> \<Longrightarrow>
     write_step E io vp st (Writing n, d) (Writing m, d(temp_path io dir \<mapsto> \<lparr>content = take m bs, mode = temp_mode io\<rparr>))"
| flush: "\<lbrakk>serde_to_vec_pretty E (disk_state_serialize E st) = Ok bs\<rbrakk> \<Longrightarrow>
     write_step E io vp st (Writing (length bs), d) (Flushed, d)"
| persist: "\<lbrakk>path_parent vp = Some dir\<rbrakk> \<Longrightarrow>
     write_step E io vp st (Flushed, d) (Renamed, (d(temp_path io dir := None))(vp := d (temp_path io dir)))"
| restrict: "write_step E io vp st (Renamed, d) (Finished, d(vp := map_option (mode_update (\<lambda>_. 0x180)) (d vp)))"

inductive_cases write_stepE: "write_step E io vp st (pc, d) c'"

abbreviation write_reach ::
  "ext \<Rightarrow> file_io \<Rightarrow> path \<Rightarrow> disk_state \<Rightarrow> write_pc \<times> fs \<Rightarrow> write_pc \<times> fs \<Rightarrow> bool" where
  "write_reach E io vp st \<equiv> (write_step E io vp st)\<^sup>*\<^sup>*"

text \<open>What holds at each program counter, for a write that started in \<open>d0\<close>.\<close>

fun write_inv :: "ext \<Rightarrow> file_io \<Rightarrow> path \<Rightarrow> path \<Rightarrow> disk_state \<Rightarrow> bytes \<Rightarrow> fs \<Rightarrow> write_pc \<times> fs \<Rightarrow> bool" where
  "write_inv E io vp tmp st bs d0 (AtStart, d) = (d = d0)"
| "write_inv E io vp tmp st bs d0 (Writing n, d) =
     (n \<le> length bs \<and> d = d0(tmp \<mapsto> \<lparr>content = take n bs, mode = temp_mode io\<rparr>))"
| "write_inv E io vp tmp st bs d0 (Flushed, d) = (d = d0(tmp \<mapsto> \<lparr>content = bs, mode = temp_mode io\<rparr>))"
| "write_inv E io vp tmp st bs d0 (Renamed, d) =
     (d = (d0(tmp := None))(vp \<mapsto> \<lparr>content = bs, mode = temp_mode io\<rparr>))"
| "write_inv E io vp tmp st bs d0 (Finished, d) = (d = (d0(tmp := None))(vp \<mapsto> \<lparr>content = bs, mode = 0x180\<rparr>))"

lemma write_step_inv:
  assumes "write_step E io vp st c c'" "path_parent vp = Some dir"
    and "serde_to_vec_pretty E (disk_state_serialize E st) = Ok bs"
    and "write_inv E io vp (temp_path io dir) st bs d0 c"
  shows "write_inv E io vp (temp_path io dir) st bs d0 c'"
  using assms by (induction rule: write_step.induct) (auto simp: fun_upd_twist)

lemma write_reach_inv:
  assumes "write_reach E io vp st (AtStart, d0) c" "path_parent vp = Some dir"
    and "serde_to_vec_pretty E (disk_state_serialize E st) = Ok bs"
  shows "write_inv E io vp (temp_path io dir) st bs d0 c"
  using assms(1) by (induction rule: rtranclp_induct) (auto intro: write_step_inv assms(2,3))

lemma serde_bytes:
  assumes "file_laws E"
  obtains bs where "serde_to_vec_pretty E (disk_state_serialize E st) = Ok bs"
  using file_lawsD(4) [OF assms] unfolding serde_json_laws_def by blast

text \<open>
  C11: a crash cannot corrupt the vault. Wherever a rewrite of an existing vault
  file is interrupted, after any system call and after any part of the data has
  been written, the file reads as the old state or as the new one, and no file but
  the vault file and the temporary file has changed.
\<close>

theorem crash_leaves_old_or_new:
  assumes "file_laws E" "path_parent vp = Some dir" "temp_path io dir \<noteq> vp" "btree_ok st"
    and "write_reach E io vp st (AtStart, d) (pc, d')"
  shows "(vault_state E vp d' = vault_state E vp d \<or> vault_state E vp d' = Some st) \<and>
    (\<forall>q. q \<noteq> vp \<and> q \<noteq> temp_path io dir \<longrightarrow> d' q = d q)"
proof -
  obtain bs where bs: "serde_to_vec_pretty E (disk_state_serialize E st) = Ok bs"
    using assms(1) by (rule serde_bytes)
  have new: "vault_state E vp (d0(vp \<mapsto> \<lparr>content = bs, mode = m\<rparr>)) = Some st" for d0 m
    using vault_state_written [OF assms(1,4) bs] .
  have old: "vault_state E vp (d(temp_path io dir \<mapsto> f)) = vault_state E vp d" for f
    using assms(3) by (intro vault_state_cong) simp
  show ?thesis
    using write_reach_inv [OF assms(5,2) bs] assms(3) by (cases pc) (auto simp: new old)
qed

text \<open>
  The step-by-step view is the function. When no call fails and the drawn
  name is free, the steps lead to the final state and \<open>write_atomic\<close> returns
  success in exactly that state, with the vault file readable by its owner only.
\<close>

lemma write_atomic_complete:
  assumes "file_laws E" "path_parent vp = Some dir" "\<forall>c. fault io c = None"
    and "d (temp_path io dir) = None" "temp_path io dir \<noteq> vp"
  shows "\<exists>d'. write_atomic E io vp st d = (Ok (), d') \<and> write_reach E io vp st (AtStart, d) (Finished, d') \<and>
    map_option mode (d' vp) = Some 0x180"
proof -
  obtain bs where bs: "serde_to_vec_pretty E (disk_state_serialize E st) = Ok bs"
    using assms(1) by (rule serde_bytes)
  let ?tmp = "temp_path io dir"
  let ?d1 = "d(?tmp \<mapsto> \<lparr>content = [], mode = temp_mode io\<rparr>)"
  let ?d2 = "d(?tmp \<mapsto> \<lparr>content = bs, mode = temp_mode io\<rparr>)"
  let ?d3 = "(?d2(?tmp := None))(vp := ?d2 ?tmp)"
  let ?d4 = "?d3(vp := map_option (mode_update (\<lambda>_. 0x180)) (?d3 vp))"
  have r1: "write_reach E io vp st (AtStart, d) (Writing 0, ?d1)"
    using assms by (intro r_into_rtranclp create_temp) auto
  have r2: "write_reach E io vp st (Writing 0, ?d1) (Writing (length bs), ?d2)"
  proof (cases bs)
    case (Cons b bs')
    then show ?thesis
      using write_some [OF assms(2) bs, of 0 "length bs" io ?d1] by (intro r_into_rtranclp) simp
  qed simp
  have r3: "write_reach E io vp st (Writing (length bs), ?d2) (Flushed, ?d2)"
    using bs by (intro r_into_rtranclp flush)
  have r4: "write_reach E io vp st (Flushed, ?d2) (Renamed, ?d3)"
    using assms(2) by (intro r_into_rtranclp persist)
  have r5: "write_reach E io vp st (Renamed, ?d3) (Finished, ?d4)"
    by (intro r_into_rtranclp restrict)
  note reach = rtranclp_trans [OF r1 rtranclp_trans [OF r2 rtranclp_trans [OF r3 rtranclp_trans [OF r4 r5]]]]
  have "write_atomic E io vp st d = (Ok (), ?d4)"
    using assms bs by (simp add: write_atomic_def sys_def drop_temp_def Let_def)
  with reach show ?thesis by auto
qed

section \<open>Opening a vault file\<close>

lemma local_file_new_create_spec:
  assumes "file_laws E" "path_parent vp \<noteq> None" "local_file_new_create E io vp False d = (res, d')"
  shows "(\<exists>e. res = Err e) \<and> d' = d \<or>
    (res = Ok () \<or> (\<exists>e. res = Err e)) \<and> file_inv E vp d' \<and> file_abs E vp d' = Map.empty"
proof -
  have "write_atomic E io vp [] d = (res, d')"
    using assms(3) by (simp add: local_file_new_create_def)
  with file_lawsD(4) [OF assms(1)] show ?thesis
  proof (cases rule: write_atomic_cases)
    case (written bs m)
    then have "vault_state E vp d' = Some []"
      using vault_state_written [OF assms(1) btree_ok_Nil] by simp
    then show ?thesis
      using assms(1,2) written(3) by (auto simp: file_inv_def file_abs_def fun_eq_iff)
  qed simp
qed

lemma local_file_new_Ok:
  assumes "file_laws E" "path_parent vp \<noteq> None" "d vp \<noteq> None \<longrightarrow> file_inv E vp d"
    and "local_file_new E io vp d = (Ok (), d')"
  shows "file_inv E vp d' \<and>
    file_abs E vp d' = (if d vp = None then Map.empty else file_abs E vp d)"
proof -
  have create: "local_file_new_create E io vp (local_file_new_exists vp d) d = (Ok (), d')"
    using assms(2,4) by (auto simp: local_file_new_def sys_def split: option.splits)
  show ?thesis
  proof (cases "d vp = None")
    case True
    then show ?thesis
      using create local_file_new_create_spec [OF assms(1,2), of io d "Ok ()" d']
      by (simp add: local_file_new_exists_def)
  next
    case False
    then show ?thesis
      using create assms(3) by (auto simp: local_file_new_exists_def local_file_new_create_def)
  qed
qed

text \<open>
  C38: the creation race. \<open>new\<close> tests for the file and writes the empty
  state without holding the lock. If another process creates the vault and stores
  records between the test and the write, the write succeeds and all those records
  are gone.
\<close>

theorem open_race_discards_records:
  assumes "d vp = None" "file_inv E vp d2" "file_quiet vp io d2"
  shows "\<exists>d3. local_file_new_create E io vp (local_file_new_exists vp d) d2 = (Ok (), d3) \<and>
    file_inv E vp d3 \<and> file_abs E vp d3 = Map.empty"
proof -
  have laws: "file_laws E" "path_parent vp \<noteq> None"
    using assms(2) by (simp_all add: file_inv_def)
  obtain dir where "path_parent vp = Some dir" "d2 (temp_path io dir) = None" "\<forall>c. fault io c = None"
    using assms(3) by (auto simp: file_quiet_def split: option.splits)
  then have ok: "fst (local_file_new_create E io vp False d2) = Ok ()"
    using write_atomic_quiet [OF file_lawsD(4) [OF laws(1)]] by (simp add: local_file_new_create_def)
  then obtain d3 where d3: "local_file_new_create E io vp False d2 = (Ok (), d3)"
    by (metis prod.collapse)
  with local_file_new_create_spec [OF laws d3] assms(1) show ?thesis
    by (simp add: local_file_new_exists_def)
qed

section \<open>Instances\<close>

definition sample_path :: path where
  "sample_path = [RootDir, Normal ''srv'', Normal ''vault.json'']"

definition calm_file_io :: file_io where
  "calm_file_io = \<lparr>fault = \<lambda>_. None, temp_name = ''.tmpA1b2C3'', temp_mode = 0x180, lock_mode = 0x1A4\<rparr>"

definition created_fs :: fs where
  "created_fs = snd (local_file_new ref_ext calm_file_io sample_path Map.empty)"

lemma ref_file_laws [simp]: "file_laws ref_ext"
  by (simp add: file_laws_def ref_laws)

lemma sample_path_facts [simp]:
  "path_parent sample_path = Some [RootDir, Normal ''srv'']"
  "temp_path calm_file_io [RootDir, Normal ''srv''] = [RootDir, Normal ''srv'', Normal ''.tmpA1b2C3'']"
  "lock_path sample_path = [RootDir, Normal ''srv'', Normal ''vault.lock'']"
  "fault calm_file_io c = None"
  by (simp_all add: sample_path_def path_parent_def temp_path_def path_join_def calm_file_io_def lock_path_def
      path_with_extension_def path_file_name_def file_stem_def)

lemma created_fs_eq:
  "local_file_new ref_ext calm_file_io sample_path Map.empty = (Ok (), created_fs)"
  "created_fs [RootDir, Normal ''srv'', Normal ''.tmpA1b2C3''] = None"
proof -
  have "[RootDir, Normal ''srv'', Normal ''.tmpA1b2C3''] \<noteq> sample_path"
    by (simp add: sample_path_def)
  then show "local_file_new ref_ext calm_file_io sample_path Map.empty = (Ok (), created_fs)"
    "created_fs [RootDir, Normal ''srv'', Normal ''.tmpA1b2C3''] = None"
    by (simp_all add: created_fs_def local_file_new_def local_file_new_create_def local_file_new_exists_def
        write_atomic_def sys_def drop_temp_def Let_def ref_ext_def)
qed

lemma created_fs_inv: "file_inv ref_ext sample_path created_fs"
  using local_file_new_create_spec [OF ref_file_laws, of sample_path calm_file_io Map.empty "Ok ()" created_fs] created_fs_eq(1)
  by (simp add: local_file_new_def sys_def local_file_new_exists_def)

lemma created_fs_quiet: "file_quiet sample_path calm_file_io created_fs"
  using created_fs_eq(2) by (simp add: file_quiet_def)

theorem crash_leaves_old_or_new_witness:
  "\<exists>d1. write_reach ref_ext calm_file_io sample_path [] (AtStart, created_fs) (Writing 0, d1) \<and>
     vault_state ref_ext sample_path d1 \<noteq> None"
proof -
  let ?d = "created_fs([RootDir, Normal ''srv'', Normal ''.tmpA1b2C3''] \<mapsto> \<lparr>content = [], mode = temp_mode calm_file_io\<rparr>)"
  have r: "write_reach ref_ext calm_file_io sample_path [] (AtStart, created_fs) (Writing 0, ?d)"
    using create_temp [of sample_path "[RootDir, Normal ''srv'']" created_fs calm_file_io ref_ext "[]"] created_fs_eq(2)
    by (intro r_into_rtranclp) simp
  have "temp_path calm_file_io [RootDir, Normal ''srv''] \<noteq> sample_path"
    by (simp add: sample_path_def)
  from crash_leaves_old_or_new [OF ref_file_laws sample_path_facts(1) this btree_ok_Nil r] created_fs_inv r
  show ?thesis by (auto simp: file_inv_def)
qed

lemma temp_not_vault: "[RootDir, Normal ''srv'', Normal ''.tmpA1b2C3''] \<noteq> sample_path"
  by (simp add: sample_path_def)

lemma stored_fs:
  obtains d2 where "local_file_insert ref_ext sample_path calm_file_io rid r created_fs = (Ok (), d2)"
    "file_quiet sample_path calm_file_io d2"
proof -
  obtain d2 where ins: "local_file_insert ref_ext sample_path calm_file_io rid r created_fs = (Ok (), d2)"
    using local_file_insert_quiet [OF created_fs_inv created_fs_quiet, of rid r] by (metis prod.collapse)
  obtain st where st: "vault_state ref_ext sample_path created_fs = Some st"
    using created_fs_inv by (auto simp: file_inv_def)
  have "write_atomic ref_ext calm_file_io sample_path (btree_insert (uuid_hyphenated ref_ext rid) r st)
      (locked calm_file_io sample_path created_fs) = (Ok (), d2)"
    using ins by (simp add: local_file_insert_def with_locked_state_quiet [OF st])
  with file_lawsD(4) [OF ref_file_laws] have "d2 [RootDir, Normal ''srv'', Normal ''.tmpA1b2C3''] = None"
    by (cases rule: write_atomic_cases) (use created_fs_eq(2) temp_not_vault in \<open>auto simp: locked_def\<close>)
  then show thesis
    using that ins by (simp add: file_quiet_def)
qed

theorem open_race_discards_records_witness:
  "\<exists>r d2 d3. local_file_insert ref_ext sample_path calm_file_io (replicate 16 1) r created_fs = (Ok (), d2) \<and>
     file_abs ref_ext sample_path d2 (replicate 16 1) = Some r \<and>
     local_file_new_create ref_ext calm_file_io sample_path (local_file_new_exists sample_path Map.empty) d2 = (Ok (), d3) \<and>
     file_abs ref_ext sample_path d3 = Map.empty"
proof -
  let ?r = "\<lparr>encrypted = \<lparr>nonce = [], ciphertext = []\<rparr>, stored_at = 0, expires_at = None\<rparr>"
  obtain d2 where ins: "local_file_insert ref_ext sample_path calm_file_io (replicate 16 1) ?r created_fs = (Ok (), d2)"
    and q: "file_quiet sample_path calm_file_io d2"
    by (rule stored_fs)
  have d2: "file_inv ref_ext sample_path d2" "file_abs ref_ext sample_path d2 (replicate 16 1) = Some ?r"
    using local_file_insert_spec [OF created_fs_inv _ ins] by simp_all
  show ?thesis
    using open_race_discards_records [of Map.empty sample_path, OF _ d2(1) q] ins d2(2) by auto
qed

end
