(* ===== verification/Vault_Guarantees.thy ===== *)
theory Vault_Guarantees
  imports Vault_Runs Crash_Safety
begin

text \<open>
  The guarantees of the vault over the storage it is deployed with
  (\<open>AnyBackend\<close>): refinement of the reference operations, delivery and
  single use of a claim, confidentiality of the stored state, behaviour under
  storage failures, and the exact conditions of a panic. Each follows from the
  contract of the storage backends through its interpretation on the dispatcher.
\<close>

abbreviation any_store_ok :: "ext \<Rightarrow> any_io call_env \<Rightarrow> u64 option \<Rightarrow> bool" where
  "any_store_ok \<equiv> store_ok rfc3339_record"

abbreviation any_op_ok :: "ext \<Rightarrow> any_io vault_op \<Rightarrow> bool" where
  "any_op_ok \<equiv> op_ok rfc3339_record rfc3339_range"

section \<open>A concrete deployment\<close>

text \<open>
  The inputs of the instances below: an empty database (or vault file), calls
  without failures, and a call environment with recognisable random values.
\<close>

definition calm_io :: any_io where
  "calm_io = \<lparr>file_part = \<lparr>fault = \<lambda>_. None, temp_name = ''.tmpA1b2C3'', temp_mode = 0x180, lock_mode = 0x1A4\<rparr>,
     sqlite_part = \<lparr>db_fault = \<lambda>_. None, db_create_mode = 0x1A4\<rparr>\<rparr>"

definition at_instant :: "datetime \<Rightarrow> any_io call_env" where
  "at_instant t = \<lparr>gen_key = replicate 32 7, gen_nonce = replicate 12 9, new_uuid = replicate 16 1,
     now_expiry = t, now_stored = t, now_check = t, io_first = calm_io, io_second = calm_io\<rparr>"

definition empty_db :: "any_backend vault" where
  "empty_db = vault_new (Sqlite \<lparr>proofs = Some [], db_mode = 0x180\<rparr>)"

definition sample_proof :: plaintext_proof where
  "sample_proof = proof_from_bytes (as_bytes ''{}'')"

definition sample_token :: string where
  "sample_token = claim_id_encode ref_ext (claim_id_new (replicate 16 1) (replicate 32 7))"

lemma empty_db_facts [simp]:
  "any_inv ref_ext (storage empty_db)" "any_abs ref_ext (storage empty_db) = Map.empty"
  by (simp_all add: empty_db_def vault_new_def sqlite_inv_def ref_laws sqlite_abs_def)

lemma calm_quiet [simp]: "sqlite_quiet (sqlite_part calm_io) db"
  by (simp add: calm_io_def sqlite_quiet_def)

lemma at_instant_sel [simp]:
  "now_check (at_instant t) = t" "now_expiry (at_instant t) = t" "now_stored (at_instant t) = t"
  "io_first (at_instant t) = calm_io" "io_second (at_instant t) = calm_io"
  "new_uuid (at_instant t) = replicate 16 1" "gen_key (at_instant t) = replicate 32 7"
  "gen_nonce (at_instant t) = replicate 12 9" "env_ok (at_instant t)"
  by (simp_all add: at_instant_def env_ok_def)

lemma at_instant_store_ok [simp]: "rfc3339_range t \<Longrightarrow> any_store_ok ref_ext (at_instant t) None"
  by (simp add: store_ok_def issued_record_def rfc3339_record_def)

text \<open>The state after storing the sample, and the token it is answered with.\<close>

lemma sample_store:
  obtains v1 db where "store_proof ref_ext (any_backend_ops ref_ext) (at_instant t) sample_proof None empty_db = (Ok sample_token, v1)"
    "storage v1 = Sqlite db"
proof -
  have "aes_gcm_encrypt ref_ext (replicate 32 7) (replicate 12 9) (proof_data sample_proof) \<noteq> None"
    by (simp add: ref_ext_def ref_encrypt_def sample_proof_def proof_from_bytes_def)
  then obtain ct where ct: "aes_gcm_encrypt ref_ext (replicate 32 7) (replicate 12 9) (proof_data sample_proof) = Some ct"
    by blast
  have "\<exists>v1 db. store_proof ref_ext (any_backend_ops ref_ext) (at_instant t) sample_proof None empty_db = (Ok sample_token, v1) \<and>
      storage v1 = Sqlite db"
    by (simp add: store_proof_def proof_as_bytes_def ct Let_def on_storage_def empty_db_def vault_new_def
        sqlite_insert_def with_connection_def db_sys_def calm_io_def sample_token_def claim_id_new_def emit_def)
  then show thesis using that by blast
qed

section \<open>Delivery and single use\<close>

text \<open>
  C1: the handoff. When a store succeeds, then whatever other operations run
  in between (with any storage failures, as long as none of them stores under,
  retrieves, deletes or sweeps this record), a retrieval with the issued token
  whose storage calls work and that comes no later than the expiry returns
  exactly the stored plaintext and removes the record, and only it.
\<close>

theorem handoff_delivery:
  assumes "base64_url_laws E" "aead_laws E"
    and "any_inv E (storage v)" "any_store_ok E env ttl"
    and "store_proof E (any_backend_ops E) env p ttl v = (Ok tok, v1)"
    and "transpose_res (map_option (expiry_at E (now_expiry env)) ttl) = Ok ex"
    and "\<forall>op \<in> set ops. any_op_ok E op \<and> avoids E (new_uuid env) ex op"
    and "run_ops E (any_backend_ops E) ops v1 = (as, v2)"
    and "any_quiet (io_first env') (storage v2)" "any_quiet (io_second env') (storage v2)"
    and "\<forall>t. ex = Some t \<longrightarrow> now_check env' \<le> t"
    and "retrieve_proof E (any_backend_ops E) env' tok v2 = (res, v3)"
  shows "res = Ok p \<and> any_abs E (storage v3) = (any_abs E (storage v2))(new_uuid env := None)"
  using assms by (rule any_store.handoff_delivers)

theorem handoff_delivery_witness:
  "\<exists>v1. store_proof ref_ext (any_backend_ops ref_ext) (at_instant 0) sample_proof None empty_db = (Ok sample_token, v1) \<and>
     fst (retrieve_proof ref_ext (any_backend_ops ref_ext) (at_instant 5) sample_token v1) = Ok sample_proof"
proof -
  obtain v1 db where st: "store_proof ref_ext (any_backend_ops ref_ext) (at_instant 0) sample_proof None empty_db = (Ok sample_token, v1)"
    and db: "storage v1 = Sqlite db"
    by (rule sample_store)
  obtain res v3 where ret: "retrieve_proof ref_ext (any_backend_ops ref_ext) (at_instant 5) sample_token v1 = (res, v3)"
    by fastforce
  have "res = Ok sample_proof"
    using handoff_delivery [OF ref_base64_url ref_aead _ _ st, of None "[]" "[]" v1 "at_instant 5" res v3] db ret
    by (simp add: rfc3339_range_def)
  with st ret show ?thesis by auto
qed

text \<open>
  C2: single use. Over any run of operations, each running to completion, and
  under any storage failures, the successful retrievals and deletions of a record
  id, together with a record still held under it at the end, are at most the
  record held at the start plus the stores made under that id.
\<close>

theorem single_use:
  assumes "any_inv E (storage v)" "\<forall>op \<in> set ops. any_op_ok E op"
    and "run_ops E (any_backend_ops E) ops v = (as, v')"
  shows "consumptions E rid ops as + held rid (any_abs E (storage v')) \<le>
    held rid (any_abs E (storage v)) + storings rid ops"
  using assms by (rule any_store.run_ops_balance)

theorem single_use_witness:
  "consumptions ref_ext (replicate 16 1)
      [OpStore (at_instant 0) sample_proof None, OpRetrieve (at_instant 5) sample_token, OpRetrieve (at_instant 6) sample_token]
      (fst (run_ops ref_ext (any_backend_ops ref_ext)
        [OpStore (at_instant 0) sample_proof None, OpRetrieve (at_instant 5) sample_token, OpRetrieve (at_instant 6) sample_token]
        empty_db)) \<le> 1"
proof -
  let ?ops = "[OpStore (at_instant 0) sample_proof None, OpRetrieve (at_instant 5) sample_token, OpRetrieve (at_instant 6) sample_token]"
  obtain as v' where run: "run_ops ref_ext (any_backend_ops ref_ext) ?ops empty_db = (as, v')"
    by fastforce
  have "\<forall>op \<in> set ?ops. any_op_ok ref_ext op"
    by (simp add: rfc3339_range_def)
  from single_use [OF _ this run, of "replicate 16 1"] show ?thesis
    by (simp only: run fst_conv) (simp add: held_def)
qed

text \<open>
  C7: refinement. A run on a storage whose calls do not fail answers every operation
  as the reference operations on the abstract store do, and ends in a state that
  stands for the reference's final store.
\<close>

theorem vault_refines_reference:
  assumes "any_inv E (storage v)" "\<forall>op \<in> set ops. any_op_ok E op"
    and "\<forall>op \<in> set ops. any_quiet (io_first (op_env op)) (storage v) \<and> any_quiet (io_second (op_env op)) (storage v)"
    and "run_ops E (any_backend_ops E) ops v = (as, v')"
  shows "(as, any_abs E (storage v')) = spec_ops E ops (any_abs E (storage v))"
  using assms by (rule any_calm.quiet_run_refines)

theorem vault_refines_reference_witness:
  "(fst (run_ops ref_ext (any_backend_ops ref_ext) [OpCleanup (at_instant 3), OpDelete (at_instant 4) sample_token] empty_db))
     = fst (spec_ops ref_ext [OpCleanup (at_instant 3), OpDelete (at_instant 4) sample_token] Map.empty)"
proof -
  let ?ops = "[OpCleanup (at_instant 3), OpDelete (at_instant 4) sample_token]"
  obtain as v' where run: "run_ops ref_ext (any_backend_ops ref_ext) ?ops empty_db = (as, v')"
    by fastforce
  have ok: "\<forall>op \<in> set ?ops. any_op_ok ref_ext op"
    by (simp add: rfc3339_range_def)
  have "\<forall>op \<in> set ?ops. any_quiet (io_first (op_env op)) (storage empty_db) \<and> any_quiet (io_second (op_env op)) (storage empty_db)"
    by (simp add: empty_db_def vault_new_def)
  from arg_cong [OF vault_refines_reference [OF empty_db_facts(1) ok this run], of fst] show ?thesis
    by (simp only: run fst_conv empty_db_facts(2))
qed

text \<open>
  C6: failures are all-or-nothing. Whatever storage calls fail, every operation
  keeps the storage invariant, and it either answers and acts as its reference
  operation, or reports a failure with the reference's effect on the abstract
  store applied completely or not at all.
\<close>

theorem failures_are_atomic:
  assumes "any_inv E (storage v)" "any_op_ok E op" "run_op E (any_backend_ops E) op v = (a, v')"
  shows "any_inv E (storage v') \<and> op_conforms E op (any_abs E (storage v)) a (any_abs E (storage v'))"
  using assms by (rule any_store.run_op_conforms)

text \<open>An environment in which the database refuses to execute statements.\<close>

definition broken_io :: any_io where
  "broken_io = calm_io\<lparr>sqlite_part := \<lparr>db_fault = (\<lambda>c. if c = DbExecute then Some ''disk full'' else None), db_create_mode = 0x1A4\<rparr>\<rparr>"

theorem failures_are_atomic_witness:
  "op_conforms ref_ext (OpStore ((at_instant 0)\<lparr>io_first := broken_io\<rparr>) sample_proof None) Map.empty
     (fst (run_op ref_ext (any_backend_ops ref_ext) (OpStore ((at_instant 0)\<lparr>io_first := broken_io\<rparr>) sample_proof None) empty_db))
     (any_abs ref_ext (storage (snd (run_op ref_ext (any_backend_ops ref_ext) (OpStore ((at_instant 0)\<lparr>io_first := broken_io\<rparr>) sample_proof None) empty_db))))"
proof -
  let ?op = "OpStore ((at_instant 0)\<lparr>io_first := broken_io\<rparr>) sample_proof None"
  have "any_op_ok ref_ext ?op"
    by (simp add: store_ok_def at_instant_def env_ok_def issued_record_def rfc3339_record_def rfc3339_range_def)
  from failures_are_atomic [OF empty_db_facts(1) this surjective_pairing] show ?thesis
    by simp
qed

text \<open>
  C8: the lengths of the data. Over any run and under any storage failures, a store
  whose ids have 16 bytes and whose nonces have 12 keeps that form, and every token
  that is handed out has 64 characters.
\<close>

theorem lengths_preserved:
  assumes "base64_url_laws E" "any_inv E (storage v)" "\<forall>op \<in> set ops. any_op_ok E op"
    and "store_typed (any_abs E (storage v))" "run_ops E (any_backend_ops E) ops v = (as, v')"
  shows "store_typed (any_abs E (storage v')) \<and> (\<forall>a \<in> set as. answer_typed a)"
  using assms by (rule any_store.run_ops_typed)

theorem lengths_preserved_witness:
  "store_typed (any_abs ref_ext (storage (snd (run_ops ref_ext (any_backend_ops ref_ext)
      [OpStore (at_instant 0) sample_proof None, OpCleanup (at_instant 3)] empty_db))))"
proof -
  let ?ops = "[OpStore (at_instant 0) sample_proof None, OpCleanup (at_instant 3)]"
  have "\<forall>op \<in> set ?ops. any_op_ok ref_ext op"
    by (simp add: rfc3339_range_def)
  from lengths_preserved [OF ref_base64_url empty_db_facts(1) this _ surjective_pairing] show ?thesis
    by (simp add: store_typed_def)
qed

section \<open>Who can consume a claim\<close>

text \<open>
  C14: a token whose key does not open the record never consumes it. Under any
  storage failures, as long as the record has not expired, a retrieval with such a
  token answers with an error and leaves the abstract store as it was.
\<close>

theorem wrong_key_keeps_record:
  assumes "any_inv E (storage v)" "claim_id_decode E tok = Ok c"
    and "any_abs E (storage v) (record_id c) = Some r" "\<not> is_expired (now_check env) r"
    and "open_record E c r = None"
    and "retrieve_proof E (any_backend_ops E) env tok v = (res, v')"
  shows "(res = Err DecryptionFailed \<or> (\<exists>se. res = Err (Storage se))) \<and>
    any_abs E (storage v') = any_abs E (storage v)"
proof -
  have "spec_retrieve E (now_check env) tok (any_abs E (storage v)) = (Err DecryptionFailed, any_abs E (storage v))"
    using assms(2-5) by (simp add: spec_retrieve_def)
  with any_store.retrieve_proof_conforms [OF assms(1,6)] show ?thesis
    by (auto simp: conforms_def)
qed

text \<open>A database holding the sample, and a token for its id with another key.\<close>

definition sample_record :: stored_record where
  "sample_record = issued_record (at_instant 0) (replicate 32 7 @ replicate 12 9 @ as_bytes ''{}'') None"

definition sample_db :: "any_backend vault" where
  "sample_db = vault_new (Sqlite \<lparr>proofs = Some [(replicate 16 1, row_of ref_ext sample_record)], db_mode = 0x180\<rparr>)"

definition forged_claim :: claim_id where
  "forged_claim = claim_id_new (replicate 16 1) (replicate 32 8)"

lemma sample_record_ok [simp]: "rfc3339_record sample_record" "expires_at sample_record = None"
  by (simp_all add: sample_record_def issued_record_def rfc3339_record_def rfc3339_range_def)

lemma sample_db_facts [simp]:
  "any_inv ref_ext (storage sample_db)"
  "any_abs ref_ext (storage sample_db) = [replicate 16 1 \<mapsto> sample_record]"
proof -
  show "any_inv ref_ext (storage sample_db)"
    using sample_record_ok(1) by (auto simp: sample_db_def vault_new_def sqlite_inv_def ref_laws intro: exI [of _ sample_record])
  show "any_abs ref_ext (storage sample_db) = [replicate 16 1 \<mapsto> sample_record]"
    by (rule ext)
      (simp add: sample_db_def vault_new_def sqlite_abs_def record_of_row_of [OF ref_chrono_rfc3339 sample_record_ok(1)])
qed

lemma sample_db_quiet [simp]: "any_quiet calm_io (storage sample_db)" "any_quiet calm_io (storage empty_db)"
  by (simp_all add: sample_db_def empty_db_def vault_new_def)

lemma forged_decode: "claim_id_decode ref_ext (claim_id_encode ref_ext forged_claim) = Ok forged_claim"
  by (rule decode_encode [OF ref_base64_url]) (simp add: forged_claim_def)

lemma strip_prefix_key: "strip_prefix (replicate 32 (8 :: byte) @ n) (replicate 32 7 @ c) = None"
  by (simp add: numeral_eq_Suc)

lemma forged_fails: "open_record ref_ext forged_claim sample_record = None"
proof -
  have "ref_decrypt (replicate 32 8) (replicate 12 9) (replicate 32 7 @ replicate 12 9 @ as_bytes ''{}'') = None"
    unfolding ref_decrypt_def by (rule strip_prefix_key)
  then show ?thesis
    by (simp add: open_record_def forged_claim_def claim_id_new_def sample_record_def issued_record_def ref_ext_def)
qed

theorem wrong_key_keeps_record_witness:
  "any_abs ref_ext (storage (snd (retrieve_proof ref_ext (any_backend_ops ref_ext) (at_instant 9)
     (claim_id_encode ref_ext forged_claim) sample_db))) (replicate 16 1) = Some sample_record"
proof -
  have "any_abs ref_ext (storage sample_db) (record_id forged_claim) = Some sample_record"
    by (simp add: forged_claim_def claim_id_new_def)
  from wrong_key_keeps_record [OF sample_db_facts(1) forged_decode this _ forged_fails surjective_pairing, of "at_instant 9"]
  show ?thesis by (simp add: is_expired_def)
qed

text \<open>
  C35: deletion needs the record id only. A token made of the id of a live record
  and any 32 bytes in place of the key deletes the record when the storage works.
\<close>

theorem delete_needs_only_record_id:
  assumes "base64_url_laws E" "any_inv E (storage v)"
    and "any_quiet (io_first env) (storage v)" "any_quiet (io_second env) (storage v)"
    and "length rid = 16" "length k = 32"
    and "any_abs E (storage v) rid = Some r" "\<not> is_expired (now_check env) r"
    and "delete_proof E (any_backend_ops E) env (claim_id_encode E (claim_id_new rid k)) v = (res, v')"
  shows "res = Ok () \<and> any_abs E (storage v') = (any_abs E (storage v))(rid := None)"
proof -
  have "claim_id_decode E (claim_id_encode E (claim_id_new rid k)) = Ok (claim_id_new rid k)"
    using assms(1,5,6) by (simp add: decode_encode)
  then have "spec_delete E (now_check env) (claim_id_encode E (claim_id_new rid k)) (any_abs E (storage v)) =
      (Ok (), (any_abs E (storage v))(rid := None))"
    using assms(7,8) by (simp add: spec_delete_def claim_id_new_def)
  with any_store.delete_proof_quiet [OF assms(2-4,9)] show ?thesis by simp
qed

theorem delete_needs_only_record_id_witness:
  "fst (delete_proof ref_ext (any_backend_ops ref_ext) (at_instant 9) (claim_id_encode ref_ext forged_claim) sample_db) = Ok () \<and>
   open_record ref_ext forged_claim sample_record = None"
  using delete_needs_only_record_id [OF ref_base64_url sample_db_facts(1), of "at_instant 9" "replicate 16 1" "replicate 32 8"
      sample_record, OF _ _ _ _ _ _ surjective_pairing] forged_fails
  by (simp add: forged_claim_def is_expired_def)

section \<open>Confidentiality of the stored state\<close>

text \<open>
  C9: the key and the plaintext reach neither the storage nor the log, except
  through the ciphertext. Two stores whose keys and plaintexts differ but that
  encrypt to the same ciphertext leave the vault in the same state, whatever the
  backend does and whichever storage calls fail.
\<close>

theorem store_hides_key_and_plaintext:
  assumes "aes_gcm_encrypt E (gen_key env) (gen_nonce env) (proof_data p) =
      aes_gcm_encrypt E k' (gen_nonce env) (proof_data p')"
  shows "snd (store_proof E B env p ttl v) = snd (store_proof E B (env\<lparr>gen_key := k'\<rparr>) p' ttl v)"
proof -
  have r: "issued_record (env\<lparr>gen_key := k'\<rparr>) ct ex = issued_record env ct ex" for ct ex
    by (simp add: issued_record_def)
  show ?thesis
  proof (cases "transpose_res (map_option (expiry_at E (now_expiry env)) ttl)")
    case (Ok ex)
    then show ?thesis
      using assms by (auto simp: store_proof_def proof_as_bytes_def Let_def r claim_id_new_def split: option.splits intro: snd_try_op_answer)
  qed (use assms in \<open>auto simp: store_proof_def proof_as_bytes_def Let_def split: option.splits\<close>)
qed

text \<open>
  The witness takes a cipher that adds key and plaintext byte by byte (any one-time
  pad has this shape), so that different keys and plaintexts do collide.
\<close>

theorem store_hides_key_and_plaintext_witness:
  "snd (store_proof (ref_ext\<lparr>aes_gcm_encrypt := \<lambda>k n p. Some (map2 (+) k p)\<rparr>) (any_backend_ops ref_ext) (at_instant 0)
       \<lparr>proof_data = [1, 2]\<rparr> None empty_db) =
   snd (store_proof (ref_ext\<lparr>aes_gcm_encrypt := \<lambda>k n p. Some (map2 (+) k p)\<rparr>) (any_backend_ops ref_ext)
       ((at_instant 0)\<lparr>gen_key := replicate 32 5\<rparr>) \<lparr>proof_data = [3, 4]\<rparr> None empty_db)"
  by (rule store_hides_key_and_plaintext) (simp add: numeral_eq_Suc)

section \<open>Panics\<close>

text \<open>
  C32: retrieval, deletion and sweeping never panic, whatever token they are given
  and whichever storage calls fail.
\<close>

theorem no_panic:
  assumes "any_inv E (storage v)" "rfc3339_range (now_check env)"
  shows "\<not> is_panic (fst (retrieve_proof E (any_backend_ops E) env tok v)) \<and>
    \<not> is_panic (fst (delete_proof E (any_backend_ops E) env tok v)) \<and>
    \<not> is_panic (fst (cleanup (any_backend_ops E) env v))"
proof -
  have "\<not> is_panic (fst (spec_retrieve E (now_check env) tok m))" "\<not> is_panic (fst (spec_delete E (now_check env) tok m))"
    "\<not> is_panic (fst (spec_cleanup (now_check env) m))" for m
    by (auto simp: spec_retrieve_def spec_delete_def spec_cleanup_def split: result.splits option.splits)
  moreover have "\<not> is_panic (fst spec) \<Longrightarrow> conforms spec m out \<Longrightarrow> \<not> is_panic (fst out)" for spec m out
    by (auto simp: conforms_def)
  ultimately show ?thesis
    using any_store.retrieve_proof_conforms [OF assms(1) surjective_pairing, of E env tok]
      any_store.delete_proof_conforms [OF assms(1) surjective_pairing, of E env tok]
      any_store.cleanup_conforms [OF assms surjective_pairing]
    by (metis fst_conv)
qed

theorem no_panic_witness:
  "\<not> is_panic (fst (retrieve_proof ref_ext (any_backend_ops ref_ext) (at_instant 9) ''not a token'' sample_db))"
  using no_panic [of ref_ext sample_db "at_instant 9" "''not a token''"] by (simp add: rfc3339_range_def)

text \<open>
  C33: when a store panics. With chrono's documented arithmetic and a clock after
  the epoch, a store of an encryptable plaintext panics exactly when the requested
  lifetime is below \<open>2^63\<close> seconds (so that the conversion accepts it) but
  either above chrono's largest duration or past chrono's last instant.
\<close>

theorem store_panics_iff:
  assumes "chrono_arith_laws E" "0 \<le> now_expiry env" "now_expiry env \<le> chrono_max E"
    and "any_inv E (storage v)" "length (new_uuid env) = 16"
    and "aes_gcm_encrypt E (gen_key env) (gen_nonce env) (proof_data p) = Some ct"
  shows "is_panic (fst (store_proof E (any_backend_ops E) env p (Some s) v)) \<longleftrightarrow>
    unat s < 2 ^ 63 \<and> (int (unat s) > max_duration_seconds \<or>
      now_expiry env + int (unat s) * 1000000000 > chrono_max E)"
proof -
  obtain res v' where op: "store_proof E (any_backend_ops E) env p (Some s) v = (res, v')"
    by fastforce
  have exp: "is_panic (expiry_at E (now_expiry env) s) \<longleftrightarrow> unat s < 2 ^ 63 \<and>
    (int (unat s) > max_duration_seconds \<or> now_expiry env + int (unat s) * 1000000000 > chrono_max E)"
    using assms(1,2) by (auto simp: expiry_at_def chrono_arith_laws_def split: if_splits)
  have "s \<noteq> 0" if "is_panic (expiry_at E (now_expiry env) s)"
    using that assms(3) by (auto simp: exp max_duration_seconds_def)
  moreover have "\<not> is_panic res" if "\<not> is_panic (expiry_at E (now_expiry env) s)"
  proof -
    have ins: "any_insert E (io_first env) (new_uuid env) r (storage v) \<noteq> (Panic m, s')" for r m s'
      using any_insert_no_panic [OF assms(4,5), of "io_first env" r] by auto
    show ?thesis
      using that op assms(6) ins
      by (cases "expiry_at E (now_expiry env) s")
        (auto simp: store_proof_def proof_as_bytes_def Let_def claim_id_new_def on_storage_def is_panic_iff
          try_op_answer_Panic split: if_splits prod.splits)
  qed
  moreover have "is_panic res" if "is_panic (expiry_at E (now_expiry env) s)" "s \<noteq> 0"
    using that op assms(6) by (cases "expiry_at E (now_expiry env) s") (auto simp: store_proof_def proof_as_bytes_def Let_def)
  ultimately show ?thesis
    using op exp by auto
qed

theorem store_panics_iff_witness:
  "is_panic (fst (store_proof ref_ext (any_backend_ops ref_ext) (at_instant 0) sample_proof (Some 9223372036854776) empty_db)) \<and>
   \<not> is_panic (fst (store_proof ref_ext (any_backend_ops ref_ext) (at_instant 0) sample_proof (Some 3600) empty_db))"
proof -
  have ct: "aes_gcm_encrypt ref_ext (gen_key (at_instant 0)) (gen_nonce (at_instant 0)) (proof_data sample_proof) =
      Some (replicate 32 7 @ replicate 12 9 @ as_bytes ''{}'')"
    by (simp add: ref_ext_def ref_encrypt_def sample_proof_def proof_from_bytes_def)
  have max: "chrono_max ref_ext = 8210266876799999999999"
    by (simp add: ref_ext_def)
  show ?thesis
    using store_panics_iff [OF ref_chrono_arith _ _ empty_db_facts(1) _ ct, of 9223372036854776]
      store_panics_iff [OF ref_chrono_arith _ _ empty_db_facts(1) _ ct, of 3600]
    by (simp add: max max_duration_seconds_def)
qed

section \<open>Expiry\<close>

text \<open>
  C17: an expired proof is never served. Whatever storage calls fail and whatever
  key the token carries, a retrieval whose clock reading is past the expiry of the
  record does not return a plaintext, and it reports the expiry when the storage works.
\<close>

theorem expired_never_served:
  assumes "any_inv E (storage v)" "claim_id_decode E tok = Ok c"
    and "any_abs E (storage v) (record_id c) = Some r" "expires_at r = Some t" "t < now_check env"
    and "retrieve_proof E (any_backend_ops E) env tok v = (res, v')"
  shows "(res = Err ProofExpired \<or> (\<exists>se. res = Err (Storage se))) \<and>
    (any_quiet (io_first env) (storage v) \<and> any_quiet (io_second env) (storage v) \<longrightarrow>
      res = Err ProofExpired \<and> any_abs E (storage v') = (any_abs E (storage v))(record_id c := None))"
proof -
  have spec: "spec_retrieve E (now_check env) tok (any_abs E (storage v)) =
      (Err ProofExpired, (any_abs E (storage v))(record_id c := None))"
    using assms(2-5) by (simp add: spec_retrieve_def is_expired_def)
  with any_store.retrieve_proof_conforms [OF assms(1,6)]
  have "res = Err ProofExpired \<or> (\<exists>se. res = Err (Storage se))"
    by (auto simp: conforms_def)
  then show ?thesis
    using any_store.retrieve_proof_quiet [OF assms(1) _ _ assms(6)] spec by auto
qed

text \<open>
  The sample record with an expiry, in a database of its own; its token is the
  sample token.
\<close>

definition timed_record :: "datetime \<Rightarrow> stored_record" where
  "timed_record t = sample_record\<lparr>expires_at := Some t\<rparr>"

definition timed_db :: "datetime \<Rightarrow> any_backend vault" where
  "timed_db t = vault_new (Sqlite \<lparr>proofs = Some [(replicate 16 1, row_of ref_ext (timed_record t))], db_mode = 0x180\<rparr>)"

lemma timed_db_facts:
  assumes "rfc3339_range t"
  shows "any_inv ref_ext (storage (timed_db t))" "any_quiet calm_io (storage (timed_db t))"
    "any_abs ref_ext (storage (timed_db t)) = [replicate 16 1 \<mapsto> timed_record t]"
proof -
  have ok: "rfc3339_record (timed_record t)"
    using assms sample_record_ok(1) by (simp add: timed_record_def rfc3339_record_def)
  show "any_inv ref_ext (storage (timed_db t))"
    using ok by (auto simp: timed_db_def vault_new_def sqlite_inv_def ref_laws intro: exI [of _ "timed_record t"])
  show "any_quiet calm_io (storage (timed_db t))"
    by (simp add: timed_db_def vault_new_def)
  show "any_abs ref_ext (storage (timed_db t)) = [replicate 16 1 \<mapsto> timed_record t]"
    by (rule ext) (simp add: timed_db_def vault_new_def sqlite_abs_def record_of_row_of [OF ref_chrono_rfc3339 ok])
qed

lemma sample_token_decodes: "claim_id_decode ref_ext sample_token = Ok (claim_id_new (replicate 16 1) (replicate 32 7))"
  unfolding sample_token_def by (rule decode_encode [OF ref_base64_url]) simp

lemma sample_opens: "open_record ref_ext (claim_id_new (replicate 16 1) (replicate 32 7)) (timed_record t) = Some (as_bytes ''{}'')"
proof -
  have "strip_prefix (replicate 32 7 @ replicate 12 9) (replicate 32 7 @ replicate 12 9 @ as_bytes ''{}'') = Some (as_bytes ''{}'')"
    by simp
  then show ?thesis
    by (simp add: open_record_def claim_id_new_def timed_record_def sample_record_def issued_record_def ref_ext_def
        ref_decrypt_def del: strip_prefix_Some)
qed

theorem expired_never_served_witness:
  "fst (retrieve_proof ref_ext (any_backend_ops ref_ext) (at_instant 101) sample_token (timed_db 100)) = Err ProofExpired"
proof -
  have t: "rfc3339_range 100" by (simp add: rfc3339_range_def)
  have r: "any_abs ref_ext (storage (timed_db 100)) (record_id (claim_id_new (replicate 16 1) (replicate 32 7))) = Some (timed_record 100)"
    by (simp add: timed_db_facts(3) [OF t] claim_id_new_def)
  show ?thesis
    using expired_never_served [OF timed_db_facts(1) [OF t] sample_token_decodes r, of 100 "at_instant 101",
        OF _ _ surjective_pairing] timed_db_facts(2) [OF t]
    by (simp add: timed_record_def)
qed

text \<open>
  C36: the instant of expiry itself. At exactly the expiry instant a retrieval still
  returns the proof, while a sweep at the same instant removes the record.
\<close>

theorem expiry_instant_boundary:
  assumes "any_inv E (storage v)" "any_quiet (io_first env) (storage v)" "any_quiet (io_second env) (storage v)"
    and "claim_id_decode E tok = Ok c" "any_abs E (storage v) (record_id c) = Some r"
    and "open_record E c r = Some pt" "expires_at r = Some (now_check env)" "rfc3339_range (now_check env)"
  shows "fst (retrieve_proof E (any_backend_ops E) env tok v) = Ok (proof_from_bytes pt) \<and>
    any_abs E (storage (snd (cleanup (any_backend_ops E) env v))) (record_id c) = None"
proof -
  have "spec_retrieve E (now_check env) tok (any_abs E (storage v)) =
      (Ok (proof_from_bytes pt), (any_abs E (storage v))(record_id c := None))"
    using assms(4-7) by (simp add: spec_retrieve_def is_expired_def)
  moreover have "purge (now_check env) (any_abs E (storage v)) (record_id c) = None"
    using assms(5,7) by (simp add: purge_def due_def)
  ultimately show ?thesis
    using arg_cong [OF any_store.retrieve_proof_quiet [OF assms(1-3) surjective_pairing, of E tok], of fst]
      arg_cong [OF any_store.cleanup_quiet [OF assms(1,8,2) surjective_pairing], of snd]
    by (simp add: spec_cleanup_def)
qed

theorem expiry_instant_boundary_witness:
  "fst (retrieve_proof ref_ext (any_backend_ops ref_ext) (at_instant 100) sample_token (timed_db 100)) =
     Ok (proof_from_bytes (as_bytes ''{}''))"
proof -
  have t: "rfc3339_range 100" by (simp add: rfc3339_range_def)
  have r: "any_abs ref_ext (storage (timed_db 100)) (record_id (claim_id_new (replicate 16 1) (replicate 32 7))) = Some (timed_record 100)"
    by (simp add: timed_db_facts(3) [OF t] claim_id_new_def)
  show ?thesis
    using expiry_instant_boundary [OF timed_db_facts(1) [OF t] _ _ sample_token_decodes r sample_opens, of "at_instant 100"]
      timed_db_facts(2) [OF t] t
    by (simp add: timed_record_def)
qed

section \<open>The two backends are interchangeable\<close>

text \<open>
  C16: the choice of backend is invisible. From states that stand for the same
  records, the same operations give the same answers and the same records on the
  file backend and on the SQLite backend, when no storage call fails.
\<close>

theorem backends_agree:
  assumes "any_inv E (File vp d)" "any_inv E (Sqlite db)" "any_abs E (File vp d) = any_abs E (Sqlite db)"
    and "\<forall>op \<in> set ops. any_op_ok E op"
    and "\<forall>op \<in> set ops. any_quiet (io_first (op_env op)) (File vp d) \<and> any_quiet (io_second (op_env op)) (File vp d)"
    and "\<forall>op \<in> set ops. any_quiet (io_first (op_env op)) (Sqlite db) \<and> any_quiet (io_second (op_env op)) (Sqlite db)"
    and "run_ops E (any_backend_ops E) ops (vault_new (File vp d)) = (as, v')"
    and "run_ops E (any_backend_ops E) ops (vault_new (Sqlite db)) = (bs, w')"
  shows "as = bs \<and> any_abs E (storage v') = any_abs E (storage w')"
proof -
  have v: "storage (vault_new s) = s" for s :: any_backend by (simp add: vault_new_def)
  have "(as, any_abs E (storage v')) = spec_ops E ops (any_abs E (File vp d))"
    using any_calm.quiet_run_refines [of E "vault_new (File vp d)" ops, unfolded v, OF assms(1,4,5,7)] .
  moreover have "(bs, any_abs E (storage w')) = spec_ops E ops (any_abs E (Sqlite db))"
    using any_calm.quiet_run_refines [of E "vault_new (Sqlite db)" ops, unfolded v, OF assms(2,4,6,8)] .
  ultimately show ?thesis
    using assms(3) by (metis prod.inject)
qed

theorem backends_agree_witness:
  "fst (run_ops ref_ext (any_backend_ops ref_ext) [OpRetrieve (at_instant 4) sample_token] (vault_new (File sample_path created_fs))) =
   fst (run_ops ref_ext (any_backend_ops ref_ext) [OpRetrieve (at_instant 4) sample_token] (vault_new (Sqlite \<lparr>proofs = Some [], db_mode = 0x180\<rparr>)))"
proof -
  let ?ops = "[OpRetrieve (at_instant 4) sample_token]" and ?db = "\<lparr>proofs = Some [], db_mode = 0x180\<rparr>"
  have io: "file_part calm_io = calm_file_io"
    by (simp add: calm_io_def calm_file_io_def)
  have "file_abs ref_ext sample_path created_fs = Map.empty"
    using local_file_new_create_spec [OF ref_file_laws, of sample_path calm_file_io Map.empty "Ok ()" created_fs] created_fs_eq(1)
    by (simp add: local_file_new_def sys_def local_file_new_exists_def)
  then have abs: "any_abs ref_ext (File sample_path created_fs) = any_abs ref_ext (Sqlite ?db)"
    by (simp add: sqlite_abs_def)
  have inv: "any_inv ref_ext (File sample_path created_fs)" "any_inv ref_ext (Sqlite ?db)"
    using created_fs_inv by (simp_all add: sqlite_inv_def ref_laws)
  have "\<forall>op \<in> set ?ops. any_quiet (io_first (op_env op)) (File sample_path created_fs) \<and>
      any_quiet (io_second (op_env op)) (File sample_path created_fs)"
    "\<forall>op \<in> set ?ops. any_quiet (io_first (op_env op)) (Sqlite ?db) \<and> any_quiet (io_second (op_env op)) (Sqlite ?db)"
    using created_fs_quiet by (simp_all add: io)
  from backends_agree [OF inv abs _ this surjective_pairing surjective_pairing] show ?thesis
    by simp
qed

end
