(* ===== verification/Auth.thy ===== *)
theory Auth
  imports Reference_Externals
begin

text \<open>
  \<^verbatim>\<open>src/auth.rs\<close>: the HTTP layer that asks for a bearer token. A tower
  service is a pair of functions on a state; the layer turns a service into a
  service. Header names are in the lower-case form the \<open>http\<close> crate keeps, a
  header value is a byte string, and \<open>get\<close> returns the first value of a name.
  The log lines of the layer go to the second component of the state.
\<close>

section \<open>Requests, responses, services\<close>

record 'b http_request =
  req_headers :: "(string \<times> bytes) list"
  req_body :: 'b

record 'r http_response =
  status :: nat
  resp_headers :: "(string \<times> bytes) list"
  resp_body :: 'r

datatype ('e) poll = Pending | Ready "(unit, 'e) result"

record ('b, 'r, 'e, 's) service =
  svc_poll_ready :: "'s \<Rightarrow> 'e poll \<times> 's"
  svc_call :: "'b http_request \<Rightarrow> 's \<Rightarrow> ('r http_response, 'e) result \<times> 's"

type_synonym 's logged = "'s \<times> (string \<times> string) list"

definition UNAUTHORIZED :: nat where
  "UNAUTHORIZED = 401"

section \<open>The layer\<close>

record bearer_auth_layer =
  layer_token :: "string option"

definition bearer_new :: "string \<Rightarrow> bearer_auth_layer" where
  "bearer_new token = \<lparr>layer_token = Some token\<rparr>"

definition bearer_disabled :: bearer_auth_layer where
  "bearer_disabled = \<lparr>layer_token = None\<rparr>"

definition bearer_from_config :: "string option \<Rightarrow> bearer_auth_layer" where
  "bearer_from_config token =
     (case token of
        Some t \<Rightarrow> if t \<noteq> [] then bearer_new t else bearer_disabled
      | None \<Rightarrow> bearer_disabled)"

text \<open>The token a request presents, if it presents one.\<close>

definition provided_token :: "ext \<Rightarrow> 'b http_request \<Rightarrow> bytes option" where
  "provided_token E req =
     map_option as_bytes
       (Option.bind (Option.bind (map_of (req_headers req) ''authorization'') (header_to_str E))
         (strip_prefix ''Bearer ''))"

definition unauthorized_response :: "'r \<Rightarrow> 'r http_response" where
  "unauthorized_response body =
     \<lparr>status = UNAUTHORIZED,
      resp_headers = [(''www-authenticate'', as_bytes (''Bearer realm='' @ [CHR 0x22] @ ''tari_vault'' @ [CHR 0x22]))],
      resp_body = body\<rparr>"

text \<open>\<open>BearerAuthService::call\<close>; \<open>body\<close> is \<open>RespBody::default()\<close>.\<close>

definition bearer_call ::
  "ext \<Rightarrow> 'r \<Rightarrow> string option \<Rightarrow> ('b, 'r, 'e, 's logged) service \<Rightarrow> 'b http_request \<Rightarrow> 's logged \<Rightarrow>
     ('r http_response, 'e) result \<times> 's logged" where
  "bearer_call E body token inner req st =
     (case token of
        None \<Rightarrow> svc_call inner req st
      | Some expected \<Rightarrow>
          let auth_ok = (case provided_token E req of
                           Some p \<Rightarrow> ct_eq E p (as_bytes expected) | None \<Rightarrow> False) in
          if auth_ok then svc_call inner req st
          else (Ok (unauthorized_response body),
                (fst st, snd st @ [(''tari_vault::auth'', ''Rejected request: missing or invalid Bearer token'')])))"

definition bearer_layer ::
  "ext \<Rightarrow> 'r \<Rightarrow> bearer_auth_layer \<Rightarrow> ('b, 'r, 'e, 's logged) service \<Rightarrow> ('b, 'r, 'e, 's logged) service" where
  "bearer_layer E body l inner =
     \<lparr>svc_poll_ready = svc_poll_ready inner, svc_call = bearer_call E body (layer_token l) inner\<rparr>"

section \<open>Properties\<close>

lemma provided_token_iff:
  assumes "header_laws E"
  shows "provided_token E req = Some (as_bytes t) \<longleftrightarrow>
    map_of (req_headers req) ''authorization'' = Some (as_bytes (''Bearer '' @ t)) \<and>
    list_all visible_ascii (as_bytes (''Bearer '' @ t))"
proof -
  have h: "header_to_str E v = Some s \<longleftrightarrow> v = as_bytes s \<and> list_all visible_ascii v" for v s
    using assms by (simp add: header_laws_def)
  show ?thesis
    by (auto simp: provided_token_def h bind_eq_Some_conv simp del: append_Cons)
qed

text \<open>
  The gate. With a non-empty token configured, a request reaches the inner
  service exactly when its first authorization header is the word Bearer, one space
  and that token, all in visible ASCII; every other request gets a 401 with the
  challenge header, and the inner service is not called.
\<close>

lemma bearer_gate:
  assumes "header_laws E" "ct_eq_laws E" "t \<noteq> []"
  shows "svc_call (bearer_layer E body (bearer_from_config (Some t)) inner) req st =
    (if map_of (req_headers req) ''authorization'' = Some (as_bytes (''Bearer '' @ t)) \<and>
        list_all visible_ascii (as_bytes (''Bearer '' @ t))
     then svc_call inner req st
     else (Ok (unauthorized_response body),
           (fst st, snd st @ [(''tari_vault::auth'', ''Rejected request: missing or invalid Bearer token'')])))"
proof -
  have "(case provided_token E req of Some p \<Rightarrow> ct_eq E p (as_bytes t) | None \<Rightarrow> False) \<longleftrightarrow>
      provided_token E req = Some (as_bytes t)"
    using assms(2) by (auto simp: ct_eq_laws_def split: option.splits)
  then show ?thesis
    using provided_token_iff [OF assms(1), of req t] assms(3)
    by (simp add: bearer_layer_def bearer_from_config_def bearer_new_def bearer_call_def del: append_Cons)
qed

definition sample_service :: "(unit, nat, unit, nat logged) service" where
  "sample_service = \<lparr>svc_poll_ready = (\<lambda>s. (Ready (Ok ()), s)),
     svc_call = (\<lambda>_ (n, l). (Ok \<lparr>status = 200, resp_headers = [], resp_body = n\<rparr>, (Suc n, l)))\<rparr>"

text \<open>
  No token, no gate. Without a token, or with an empty one, the layer is
  transparent: it is the inner service.
\<close>

lemma auth_disabled_transparent:
  "bearer_layer E body (bearer_from_config None) inner = (inner :: ('b, 'r, 'e, 's logged) service) \<and>
   bearer_layer E body (bearer_from_config (Some [])) inner = inner"
proof -
  have "bearer_call E body None inner = svc_call inner"
    by (intro ext) (simp add: bearer_call_def)
  then show ?thesis
    by (simp add: bearer_layer_def bearer_from_config_def bearer_disabled_def)
qed

text \<open>
  C40: an unusable token locks everybody out. If the configured token holds a byte
  outside visible ASCII, every request is answered with a 401, the one that presents
  exactly this token included.
\<close>

theorem non_ascii_token_locks_out:
  assumes "header_laws E" "ct_eq_laws E" "\<not> list_all visible_ascii (as_bytes t)"
  shows "fst (svc_call (bearer_layer E body (bearer_from_config (Some t)) inner) req st) = Ok (unauthorized_response body) \<and>
    fst (snd (svc_call (bearer_layer E body (bearer_from_config (Some t)) inner) req st)) = fst st"
proof -
  have "provided_token E req \<noteq> Some (as_bytes t)"
    using provided_token_iff [OF assms(1), of req t] assms(3) by (auto simp: as_bytes_def)
  moreover have "t \<noteq> []" using assms(3) by (auto simp: as_bytes_def)
  ultimately show ?thesis
    using assms(2)
    by (auto simp: bearer_layer_def bearer_from_config_def bearer_new_def bearer_call_def ct_eq_laws_def split: option.splits)
qed

theorem non_ascii_token_locks_out_witness:
  "fst (svc_call (bearer_layer ref_ext 0 (bearer_from_config (Some [CHR 0xE9])) sample_service)
      \<lparr>req_headers = [(''authorization'', as_bytes (''Bearer '' @ [CHR 0xE9]))], req_body = ()\<rparr> (7, [])) =
     Ok (unauthorized_response 0)"
proof -
  have "\<not> list_all visible_ascii (as_bytes [CHR 0xE9])"
    by code_simp
  then show ?thesis
    by (rule non_ascii_token_locks_out [OF ref_header ref_ct_eq, THEN conjunct1])
qed

end
