(* ===== verification/Socket_Addr.thy ===== *)
theory Socket_Addr
  imports Vault_Prelude
begin

text \<open>
  \<open>std::net::SocketAddr\<close>: the textual form the server parses its bind
  address from, and the loopback test. The reader follows the parser of the
  standard library: every reader consumes a prefix of the text or fails without
  consuming anything, and the whole text has to be consumed.
\<close>

datatype ip_addr = V4 "nat list" | V6 "nat list"

record socket_addr =
  sa_ip :: ip_addr
  sa_port :: nat

section \<open>Numbers\<close>

definition to_digit :: "nat \<Rightarrow> char \<Rightarrow> nat option" where
  "to_digit radix c =
     (let n = of_char c :: nat;
          d = (if 48 \<le> n \<and> n \<le> 57 then n - 48
               else if 97 \<le> n \<and> n \<le> 122 then n - 87
               else if 65 \<le> n \<and> n \<le> 90 then n - 55 else 36) in
      if d < radix then Some d else None)"

fun digits_prefix :: "nat \<Rightarrow> string \<Rightarrow> nat list \<times> string" where
  "digits_prefix radix [] = ([], [])"
| "digits_prefix radix (c # s) =
     (case to_digit radix c of
        None \<Rightarrow> ([], c # s)
      | Some d \<Rightarrow> (case digits_prefix radix s of (ds, r) \<Rightarrow> (d # ds, r)))"

text \<open>
  \<open>read_number\<close>: \<open>largest\<close> is the largest value of the target type, beyond
  which the checked arithmetic fails.
\<close>

definition read_number :: "nat \<Rightarrow> nat \<Rightarrow> nat option \<Rightarrow> bool \<Rightarrow> string \<Rightarrow> (nat \<times> string) option" where
  "read_number radix largest max_digits allow_zero_prefix s =
     (case digits_prefix radix s of (ds, r) \<Rightarrow>
        let value = foldl (\<lambda>a d. a * radix + d) 0 ds in
        if ds = [] \<or> value > largest \<or> (case max_digits of None \<Rightarrow> False | Some m \<Rightarrow> length ds > m) \<or>
           (\<not> allow_zero_prefix \<and> hd ds = 0 \<and> length ds > 1)
        then None else Some (value, r))"

definition read_char :: "char \<Rightarrow> string \<Rightarrow> string option" where
  "read_char c s = (case s of [] \<Rightarrow> None | d # r \<Rightarrow> if d = c then Some r else None)"

definition read_separator :: "char \<Rightarrow> nat \<Rightarrow> (string \<Rightarrow> ('a \<times> string) option) \<Rightarrow> string \<Rightarrow> ('a \<times> string) option" where
  "read_separator sep i inner s = (if i > 0 then Option.bind (read_char sep s) inner else inner s)"

section \<open>Addresses\<close>

definition read_octet :: "nat \<Rightarrow> string \<Rightarrow> (nat \<times> string) option" where
  "read_octet i = read_separator (CHR ''.'') i (read_number 10 255 (Some 3) False)"

definition read_ipv4 :: "string \<Rightarrow> (nat list \<times> string) option" where
  "read_ipv4 s =
     Option.bind (read_octet 0 s) (\<lambda>(a, s).
     Option.bind (read_octet 1 s) (\<lambda>(b, s).
     Option.bind (read_octet 2 s) (\<lambda>(c, s).
     Option.bind (read_octet 3 s) (\<lambda>(d, s). Some ([a, b, c, d], s)))))"

text \<open>
  \<open>read_groups\<close>: groups \<open>i, i + 1, \<dots>\<close> of at most \<open>limit\<close>, with
  the flag of an embedded IPv4 tail; the first argument counts the groups left.
\<close>

fun read_groups :: "nat \<Rightarrow> nat \<Rightarrow> nat \<Rightarrow> string \<Rightarrow> nat list \<times> bool \<times> string" where
  "read_groups 0 limit i s = ([], False, s)"
| "read_groups (Suc left) limit i s =
     (case (if i + 1 < limit then read_separator (CHR '':'') i read_ipv4 s else None) of
        Some ([a, b, c, d], r) \<Rightarrow> ([a * 256 + b, c * 256 + d], True, r)
      | _ \<Rightarrow> (case read_separator (CHR '':'') i (read_number 16 65535 (Some 4) True) s of
          None \<Rightarrow> ([], False, s)
        | Some (g, r) \<Rightarrow> (case read_groups left limit (Suc i) r of (gs, v4, r') \<Rightarrow> (g # gs, v4, r'))))"

definition read_ipv6 :: "string \<Rightarrow> (nat list \<times> string) option" where
  "read_ipv6 s =
     (case read_groups 8 8 0 s of (front, v4, r) \<Rightarrow>
        if length front = 8 then Some (front, r)
        else if v4 then None
        else Option.bind (read_char (CHR '':'') r) (\<lambda>r.
             Option.bind (read_char (CHR '':'') r) (\<lambda>r.
             let limit = 8 - (length front + 1) in
             case read_groups limit limit 0 r of (back, _, r) \<Rightarrow>
               Some (front @ replicate (8 - length front - length back) 0 @ back, r))))"

definition read_port :: "string \<Rightarrow> (nat \<times> string) option" where
  "read_port s = Option.bind (read_char (CHR '':'') s) (read_number 10 65535 None True)"

definition read_socket_v4 :: "string \<Rightarrow> (socket_addr \<times> string) option" where
  "read_socket_v4 s =
     Option.bind (read_ipv4 s) (\<lambda>(ip, s).
     Option.bind (read_port s) (\<lambda>(p, s). Some (\<lparr>sa_ip = V4 ip, sa_port = p\<rparr>, s)))"

definition read_scope_id :: "string \<Rightarrow> string" where
  "read_scope_id s =
     (case Option.bind (read_char (CHR ''%'') s) (read_number 10 4294967295 None True) of
        None \<Rightarrow> s | Some (_, r) \<Rightarrow> r)"

definition read_socket_v6 :: "string \<Rightarrow> (socket_addr \<times> string) option" where
  "read_socket_v6 s =
     Option.bind (read_char (CHR ''['') s) (\<lambda>s.
     Option.bind (read_ipv6 s) (\<lambda>(ip, s).
     Option.bind (read_char (CHR '']'') (read_scope_id s)) (\<lambda>s.
     Option.bind (read_port s) (\<lambda>(p, s). Some (\<lparr>sa_ip = V6 ip, sa_port = p\<rparr>, s)))))"

definition parse_socket_addr :: "string \<Rightarrow> socket_addr option" where
  "parse_socket_addr s =
     (case (case read_socket_v4 s of Some x \<Rightarrow> Some x | None \<Rightarrow> read_socket_v6 s) of
        Some (a, []) \<Rightarrow> Some a | _ \<Rightarrow> None)"

fun is_loopback :: "ip_addr \<Rightarrow> bool" where
  "is_loopback (V4 os) = (os ! 0 = 127)"
| "is_loopback (V6 gs) = (gs = [0, 0, 0, 0, 0, 0, 0, 1])"

section \<open>What the reader accepts\<close>

lemmas reader_simps = parse_socket_addr_def read_socket_v4_def read_socket_v6_def read_ipv4_def read_ipv6_def
  read_octet_def read_port_def read_scope_id_def read_separator_def read_char_def read_number_def to_digit_def

text \<open>One unfolding of the group reader at a time keeps evaluation small.\<close>

declare read_groups.simps(2) [simp del]

lemma read_groups_loopback:
  "read_groups 8 8 0 ''::1]:80'' = ([], False, ''::1]:80'')"
  "read_groups 7 7 0 ''1]:80'' = ([1], False, '']:80'')"
proof -
  have last: "read_groups 6 7 1 '']:80'' = ([], False, '']:80'')"
    by (simp only: numeral_eq_Suc [of "num.Bit0 (num.Bit1 num.One)"] read_groups.simps(2)) (simp add: reader_simps)
  show "read_groups 8 8 0 ''::1]:80'' = ([], False, ''::1]:80'')"
    by (simp only: numeral_eq_Suc [of "num.Bit0 (num.Bit0 (num.Bit0 num.One))"] read_groups.simps(2)) (simp add: reader_simps)
  show "read_groups 7 7 0 ''1]:80'' = ([1], False, '']:80'')"
    using last
    by (simp only: numeral_eq_Suc [of "num.Bit1 (num.Bit1 num.One)"] read_groups.simps(2)) (simp add: reader_simps)
qed

lemma replicate_seven: "replicate 7 (0 :: nat) = [0, 0, 0, 0, 0, 0, 0]"
  by (simp add: numeral_eq_Suc)

lemma parse_loopback_texts:
  "parse_socket_addr ''127.0.0.1:9000'' = Some \<lparr>sa_ip = V4 [127, 0, 0, 1], sa_port = 9000\<rparr>"
  "parse_socket_addr ''0.0.0.0:9000'' = Some \<lparr>sa_ip = V4 [0, 0, 0, 0], sa_port = 9000\<rparr>"
  "parse_socket_addr ''[::1]:80'' = Some \<lparr>sa_ip = V6 [0, 0, 0, 0, 0, 0, 0, 1], sa_port = 80\<rparr>"
  by (simp_all add: reader_simps read_groups_loopback replicate_seven)

lemma parse_rejects:
  "parse_socket_addr ''localhost:9000'' = None"
  "parse_socket_addr ''127.0.0.01:9000'' = None"
  "parse_socket_addr ''127.0.0.1:65536'' = None"
  by (simp_all add: reader_simps)

lemma read_number_bound: "read_number radix largest md az s = Some (n, r) \<Longrightarrow> n \<le> largest"
  by (auto simp: read_number_def Let_def split: prod.splits if_splits)

lemma read_octet_bound: "read_octet i s = Some (n, r) \<Longrightarrow> n \<le> 255"
  by (auto simp: read_octet_def read_separator_def bind_eq_Some_conv split: if_splits dest: read_number_bound)

lemma read_ipv4_shape: "read_ipv4 s = Some (os, r) \<Longrightarrow> length os = 4 \<and> (\<forall>x \<in> set os. x \<le> 255)"
  by (auto simp: read_ipv4_def bind_eq_Some_conv dest: read_octet_bound)

end
