(* ===== verification/Rpc_Server.thy ===== *)
theory Rpc_Server
  imports Vault_Guarantees Auth Socket_Addr
begin

text \<open>
  \<^verbatim>\<open>src/rpc/server.rs\<close>, \<^verbatim>\<open>src/rpc/api.rs\<close> and
  \<^verbatim>\<open>src/rpc/discovery.rs\<close>: the JSON-RPC handlers over any
  \<open>ProofVault\<close>, the error mapping, the limits, the rule that plain HTTP needs
  a loopback address, and the start of the server. The handlers rely on the vault
  through the locale \<open>vault_contract\<close>, which the standard vault and its
  \<open>Arc\<close> wrapper interpret.
\<close>

section \<open>The handlers\<close>

record store_proof_params =
  proof_json :: json
  expires_in_secs :: "u64 option"

record proof_object =
  object_json :: json

record error_object =
  err_code :: int
  err_message :: string
  err_data :: "string option"

record 'v rpc_state =
  rpc_vault :: 'v
  rpc_log :: "log_line list"

definition on_vault :: "('v \<Rightarrow> ('a, 'e) result \<times> 'v) \<Rightarrow> 'v rpc_state \<Rightarrow> ('a, 'e) result \<times> 'v rpc_state" where
  "on_vault f st = (case f (rpc_vault st) of (r, v) \<Rightarrow> (r, st\<lparr>rpc_vault := v\<rparr>))"

definition vault_to_rpc_err :: "vault_error \<Rightarrow> 'v rpc_state \<Rightarrow> error_object \<times> 'v rpc_state" where
  "vault_to_rpc_err err st =
     (let code = rpc_code err;
          st = (if code = - 32005
                then st\<lparr>rpc_log := rpc_log st @
                       [(WARN, ''tari_vault::rpc'', ''Internal vault error: '' @ vault_error_display err)]\<rparr>
                else st)
      in (\<lparr>err_code = code, err_message = vault_error_display err, err_data = None\<rparr>, st))"

text \<open>\<open>map_err(vault_to_rpc_err)\<close>.\<close>

fun map_rpc_err :: "('a, vault_error) result \<times> 'v rpc_state \<Rightarrow> ('a, error_object) result \<times> 'v rpc_state" where
  "map_rpc_err (Ok a, st) = (Ok a, st)"
| "map_rpc_err (Err e, st) = map_prod Err id (vault_to_rpc_err e st)"
| "map_rpc_err (Panic m, st) = (Panic m, st)"

definition rpc_store_proof ::
  "ext \<Rightarrow> ('v, 'env) proof_vault \<Rightarrow> u64 \<Rightarrow> 'env \<Rightarrow> store_proof_params \<Rightarrow>
     'v rpc_state \<Rightarrow> (string, error_object) result \<times> 'v rpc_state" where
  "rpc_store_proof E PV max_proof_size_bytes env params st =
     (let proof_size = length (serde_to_string E (proof_json params)) in
      if proof_size > unat max_proof_size_bytes
      then map_rpc_err (Err (InvalidParameter (''proof_json exceeds maximum allowed size of '' @
             show_nat (unat max_proof_size_bytes) @ '' bytes'')), st)
      else
        try_op (map_rpc_err (proof_from_json E (proof_json params), st)) (\<lambda>p st.
        map_rpc_err (on_vault (pv_store_proof PV env p (expires_in_secs params)) st)))"

definition rpc_retrieve_proof ::
  "ext \<Rightarrow> ('v, 'env) proof_vault \<Rightarrow> 'env \<Rightarrow> string \<Rightarrow>
     'v rpc_state \<Rightarrow> (proof_object, error_object) result \<times> 'v rpc_state" where
  "rpc_retrieve_proof E PV env claim_id st =
     try_op (map_rpc_err (on_vault (pv_retrieve_proof PV env claim_id) st)) (\<lambda>p st.
     try_op (map_rpc_err (proof_into_json E p, st)) (\<lambda>j st.
     (Ok \<lparr>object_json = j\<rparr>, st)))"

definition rpc_delete_proof ::
  "('v, 'env) proof_vault \<Rightarrow> 'env \<Rightarrow> string \<Rightarrow> 'v rpc_state \<Rightarrow> (unit, error_object) result \<times> 'v rpc_state" where
  "rpc_delete_proof PV env claim_id st = map_rpc_err (on_vault (pv_delete_proof PV env claim_id) st)"

section \<open>Limits and the bind address\<close>

definition saturating_add :: "u64 \<Rightarrow> u64 \<Rightarrow> u64" where
  "saturating_add a b = (if unat a + unat b \<ge> 2 ^ 64 then - 1 else a + b)"

text \<open>
  \<open>try_into().unwrap_or(u32::MAX)\<close>. The limit is a \<open>usize\<close>, taken as
  64 bits wide; a narrower one could only make the limit smaller.
\<close>

definition http_body_limit :: "u64 \<Rightarrow> u32" where
  "http_body_limit max_proof_size_bytes =
     (let n = saturating_add max_proof_size_bytes 4096 in
      if unat n < 2 ^ 32 then of_nat (unat n) else - 1)"

record tls_config =
  cert_path :: string
  key_path :: string

definition check_tls_for_non_loopback :: "string \<Rightarrow> tls_config option \<Rightarrow> bool \<Rightarrow> (unit, string) result" where
  "check_tls_for_non_loopback bind_addr tls insecure_no_tls =
     (if tls \<noteq> None \<or> insecure_no_tls then Ok ()
      else case parse_socket_addr bind_addr of
        None \<Rightarrow> Err (''invalid bind address: '' @ bind_addr)
      | Some addr \<Rightarrow>
          if \<not> is_loopback (sa_ip addr)
          then Err (''TLS is disabled but the bind address ('' @ bind_addr @ '') is not a loopback address. '' @
                    ''Provide --tls-cert and --tls-key to enable TLS, bind to 127.0.0.1 / ::1, '' @
                    ''or pass --insecure-no-tls if TLS is terminated by an external proxy.'')
          else Ok ())"

section \<open>Starting the server\<close>

text \<open>
  The calls that can fail while the server starts, and what a started server is:
  the address it listens on and whether it speaks TLS there, the address of the
  plain HTTP server behind it, the limit on request bodies, the authentication
  layer and the registered methods.
\<close>

datatype net_call = BuildServer | BuildLoopbackServer | LocalAddr | ReadCert | ReadKey | ParseCerts | ParseKey
  | FindKey | BuildTlsConfig | BindTls

type_synonym net_io = "net_call \<Rightarrow> string option"

definition net_sys :: "net_io \<Rightarrow> net_call \<Rightarrow> (unit, string) result" where
  "net_sys io c = (case io c of None \<Rightarrow> Ok () | Some m \<Rightarrow> Err m)"

datatype rpc_method = StoreProof | RetrieveProof | DeleteProof | Discover

record server =
  public_addr :: string
  public_tls :: bool
  plain_addr :: string
  body_limit :: u32
  auth_layer :: bearer_auth_layer
  methods :: "(string \<times> rpc_method) list"

text \<open>The methods of the \<open>#[rpc(server, namespace = "vault")]\<close> trait, and \<open>rpc.discover\<close>.\<close>

definition vault_methods :: "(string \<times> rpc_method) list" where
  "vault_methods = [(''vault_storeProof'', StoreProof), (''vault_retrieveProof'', RetrieveProof),
     (''vault_deleteProof'', DeleteProof)]"

definition discovery_module :: "(string \<times> rpc_method) list" where
  "discovery_module = [(''rpc.discover'', Discover)]"

text \<open>
  The handler of \<open>rpc.discover\<close>: the document embedded at compile time
  (\<open>OPENRPC_SPEC\<close>, here an argument) is parsed on every call.
\<close>

definition discover :: "ext \<Rightarrow> string \<Rightarrow> (json, error_object) result" where
  "discover E openrpc_spec =
     map_err (\<lambda>e. \<lparr>err_code = - 32603, err_message = ''Failed to load OpenRPC spec'', err_data = Some e\<rparr>)
       (value_from_slice E (as_bytes openrpc_spec))"

text \<open>\<open>merge\<close> refuses a method name that is already registered.\<close>

definition merge_modules :: "(string \<times> rpc_method) list \<Rightarrow> (string \<times> rpc_method) list \<Rightarrow>
    ((string \<times> rpc_method) list, string) result" where
  "merge_modules a b =
     (case filter (\<lambda>m. fst m \<in> fst ` set a) b of
        [] \<Rightarrow> Ok (a @ b)
      | m # _ \<Rightarrow> Err (''Method: '' @ fst m @ '' was already registered''))"

definition start_plain ::
  "net_io \<Rightarrow> string \<Rightarrow> bearer_auth_layer \<Rightarrow> (string \<times> rpc_method) list \<Rightarrow> u64 \<Rightarrow> (server, string) result" where
  "start_plain io bind_addr middleware rpc_module max_proof_size_bytes =
     bind_res (net_sys io BuildServer) (\<lambda>_.
     bind_res (net_sys io LocalAddr) (\<lambda>_.
     Ok \<lparr>public_addr = bind_addr, public_tls = False, plain_addr = bind_addr,
         body_limit = http_body_limit max_proof_size_bytes, auth_layer = middleware, methods = rpc_module\<rparr>))"

definition build_tls_acceptor :: "net_io \<Rightarrow> tls_config \<Rightarrow> (unit, string) result" where
  "build_tls_acceptor io cfg =
     bind_res (map_err (\<lambda>_. ''failed to read TLS cert: '' @ debug_str (cert_path cfg)) (net_sys io ReadCert)) (\<lambda>_.
     bind_res (map_err (\<lambda>_. ''failed to read TLS key: '' @ debug_str (key_path cfg)) (net_sys io ReadKey)) (\<lambda>_.
     bind_res (map_err (\<lambda>_. ''failed to parse TLS certificates'') (net_sys io ParseCerts)) (\<lambda>_.
     bind_res (map_err (\<lambda>_. ''failed to parse TLS private key'') (net_sys io ParseKey)) (\<lambda>_.
     bind_res (map_err (\<lambda>_. ''no private key found in TLS key file'') (net_sys io FindKey)) (\<lambda>_.
     map_err (\<lambda>_. ''failed to build TLS server config'') (net_sys io BuildTlsConfig))))))"

definition start_tls ::
  "net_io \<Rightarrow> string \<Rightarrow> bearer_auth_layer \<Rightarrow> (string \<times> rpc_method) list \<Rightarrow> tls_config \<Rightarrow> u64 \<Rightarrow> (server, string) result" where
  "start_tls io bind_addr middleware rpc_module tls_cfg max_proof_size_bytes =
     bind_res (build_tls_acceptor io tls_cfg) (\<lambda>_.
     bind_res (net_sys io BuildLoopbackServer) (\<lambda>_.
     bind_res (net_sys io LocalAddr) (\<lambda>_.
     bind_res (net_sys io BindTls) (\<lambda>_.
     Ok \<lparr>public_addr = bind_addr, public_tls = True, plain_addr = ''127.0.0.1:0'',
         body_limit = http_body_limit max_proof_size_bytes, auth_layer = middleware, methods = rpc_module\<rparr>))))"

definition start_server ::
  "net_io \<Rightarrow> string \<Rightarrow> string option \<Rightarrow> tls_config option \<Rightarrow> bool \<Rightarrow> u64 \<Rightarrow> (server, string) result" where
  "start_server io bind_addr auth_token tls insecure_no_tls max_proof_size_bytes =
     bind_res (check_tls_for_non_loopback bind_addr tls insecure_no_tls) (\<lambda>_.
     let auth = bearer_from_config auth_token in
     bind_res (merge_modules vault_methods discovery_module) (\<lambda>rpc_module.
     case tls of
       None \<Rightarrow> start_plain io bind_addr auth rpc_module max_proof_size_bytes
     | Some tls_cfg \<Rightarrow> start_tls io bind_addr auth rpc_module tls_cfg max_proof_size_bytes))"

lemma merged_methods [simp]: "merge_modules vault_methods discovery_module = Ok (vault_methods @ discovery_module)"
  by (simp add: merge_modules_def vault_methods_def discovery_module_def)

section \<open>What the handlers rely on\<close>

text \<open>
  The contract of a \<open>ProofVault\<close>: every operation conforms to its reference
  on the abstract store and keeps the vault's invariant. \<open>ok\<close> bounds the
  environments and lifetimes of a store, \<open>clock\<close> those of a sweep.
\<close>

locale vault_contract =
  fixes PV :: "('v, 'io call_env) proof_vault"
    and E :: ext
    and view :: "'v \<Rightarrow> store"
    and vinv :: "'v \<Rightarrow> bool"
    and ok :: "'io call_env \<Rightarrow> u64 option \<Rightarrow> bool"
    and clock :: "datetime \<Rightarrow> bool"
  assumes store_law:
      "\<lbrakk>vinv v; ok env ttl; pv_store_proof PV env p ttl v = (rs, v')\<rbrakk> \<Longrightarrow>
         vinv v' \<and> conforms (spec_store E env p ttl (view v)) (view v) (rs, view v')"
    and retrieve_law:
      "\<lbrakk>vinv v; pv_retrieve_proof PV env tok v = (rr, v')\<rbrakk> \<Longrightarrow>
         vinv v' \<and> conforms (spec_retrieve E (now_check env) tok (view v)) (view v) (rr, view v')"
    and delete_law:
      "\<lbrakk>vinv v; pv_delete_proof PV env tok v = (rd, v')\<rbrakk> \<Longrightarrow>
         vinv v' \<and> conforms (spec_delete E (now_check env) tok (view v)) (view v) (rd, view v')"
    and cleanup_law:
      "\<lbrakk>vinv v; clock (now_check env); pv_cleanup PV env v = (rc, v')\<rbrakk> \<Longrightarrow>
         vinv v' \<and> conforms (spec_cleanup (now_check env) (view v)) (view v) (rc, view v')"

lemma fst_map_rpc_err:
  "fst (map_rpc_err m) = (case fst m of Ok a \<Rightarrow> Ok a | Err e \<Rightarrow> Err \<lparr>err_code = rpc_code e, err_message = vault_error_display e, err_data = None\<rparr> | Panic x \<Rightarrow> Panic x)"
  by (cases m rule: map_rpc_err.cases) (auto simp: vault_to_rpc_err_def Let_def)

lemma map_rpc_err_vault [simp]: "rpc_vault (snd (map_rpc_err m)) = rpc_vault (snd m)"
  by (cases m rule: map_rpc_err.cases) (auto simp: vault_to_rpc_err_def Let_def)

lemma on_vault_eq [simp]: "f (rpc_vault st) = (r, v) \<Longrightarrow> on_vault f st = (r, st\<lparr>rpc_vault := v\<rparr>)"
  by (simp add: on_vault_def)

context vault_contract
begin

text \<open>A retrieval by RPC leaves the vault as the retrieval does, and reports its error.\<close>

lemma rpc_retrieve_vault:
  assumes "vinv (rpc_vault st)" "rpc_retrieve_proof E PV env tok st = (res, st')"
  shows "vinv (rpc_vault st') \<and>
    (\<exists>r. pv_retrieve_proof PV env tok (rpc_vault st) = (r, rpc_vault st') \<and>
      conforms (spec_retrieve E (now_check env) tok (view (rpc_vault st))) (view (rpc_vault st)) (r, view (rpc_vault st')) \<and>
      (\<forall>e. r = Err e \<longrightarrow> res = Err \<lparr>err_code = rpc_code e, err_message = vault_error_display e, err_data = None\<rparr>) \<and>
      (\<forall>p j. r = Ok p \<and> proof_into_json E p = Ok j \<longrightarrow> res = Ok \<lparr>object_json = j\<rparr>))"
proof -
  obtain r v' where r: "pv_retrieve_proof PV env tok (rpc_vault st) = (r, v')" by fastforce
  note law = retrieve_law [OF assms(1) r]
  have v': "rpc_vault st' = v'"
    using assms(2) r
    by (cases r) (auto simp: rpc_retrieve_proof_def vault_to_rpc_err_def Let_def proof_into_json_def
        split: result.splits if_splits elim!: try_op.elims map_rpc_err.elims)
  have "(\<forall>e. r = Err e \<longrightarrow> res = Err \<lparr>err_code = rpc_code e, err_message = vault_error_display e, err_data = None\<rparr>) \<and>
      (\<forall>p j. r = Ok p \<and> proof_into_json E p = Ok j \<longrightarrow> res = Ok \<lparr>object_json = j\<rparr>)"
    using assms(2) r by (cases r) (auto simp: rpc_retrieve_proof_def vault_to_rpc_err_def Let_def)
  then show ?thesis
    using law r v' by auto
qed

end

lemma arc_vault_id [simp]: "arc_vault PV = PV"
  by (cases PV) (simp add: arc_vault_def)

interpretation std_vault: vault_contract
  "standard_vault E (any_backend_ops E)" E "\<lambda>v. any_abs E (storage v)" "\<lambda>v. any_inv E (storage v)"
  "any_store_ok E" rfc3339_range
  for E
proof (unfold_locales, unfold standard_vault_def proof_vault.select_convs, goal_cases)
  case 1 then show ?case by (rule any_store.store_proof_conforms)
next
  case 2 then show ?case by (rule any_store.retrieve_proof_conforms)
next
  case 3 then show ?case by (rule any_store.delete_proof_conforms)
next
  case 4 then show ?case by (rule any_store.cleanup_conforms)
qed

interpretation shared_vault: vault_contract
  "arc_vault (standard_vault E (any_backend_ops E))" E "\<lambda>v. any_abs E (storage v)" "\<lambda>v. any_inv E (storage v)"
  "any_store_ok E" rfc3339_range
  for E
  unfolding arc_vault_id by (rule std_vault.vault_contract_axioms)

section \<open>The handlers, end to end\<close>

abbreviation deployed :: "ext \<Rightarrow> (any_backend vault, any_io call_env) proof_vault" where
  "deployed E \<equiv> arc_vault (standard_vault E (any_backend_ops E))"

lemma deployed_ops [simp]:
  "pv_store_proof (standard_vault E B) = store_proof E B"
  "pv_retrieve_proof (standard_vault E B) = retrieve_proof E B"
  "pv_delete_proof (standard_vault E B) = delete_proof E B"
  "pv_cleanup (standard_vault E B) = cleanup B"
  by (simp_all add: standard_vault_def)

text \<open>A server state with an empty database, for the instances.\<close>

definition fresh_rpc :: "any_backend vault rpc_state" where
  "fresh_rpc = \<lparr>rpc_vault = empty_db, rpc_log = []\<rparr>"

text \<open>
  What a client is told of each error, written out: the code and the text. Errors of
  the storage and of the serialisation are internal.
\<close>

fun published :: "vault_error \<Rightarrow> int \<times> string" where
  "published ProofNotFound = (- 32001, ''Proof not found'')"
| "published ProofExpired = (- 32002, ''Proof has expired'')"
| "published InvalidClaimId = (- 32003, ''Invalid claim ID format'')"
| "published DecryptionFailed = (- 32004, ''Decryption failed'')"
| "published (Storage (Io m)) = (- 32005, ''Storage error: I/O error: '' @ m)"
| "published (Storage (Json m)) = (- 32005, ''Storage error: JSON error: '' @ m)"
| "published (Storage NotFound) = (- 32005, ''Storage error: Record not found'')"
| "published (Serialization m) = (- 32005, ''Serialization error: '' @ m)"
| "published (InvalidParameter m) = (- 32006, ''Invalid parameter: '' @ m)"

text \<open>
  An answer reports the outcome of the vault: a value is passed on, an error becomes
  its published code and text without data, and an internal error adds one warning to
  the log, which nothing else does.
\<close>

fun reports :: "('a, vault_error) result \<Rightarrow> log_line list \<Rightarrow> ('a, error_object) result \<times> log_line list \<Rightarrow> bool" where
  "reports (Ok a) log out \<longleftrightarrow> out = (Ok a, log)"
| "reports (Err e) log out \<longleftrightarrow>
     out = (Err \<lparr>err_code = fst (published e), err_message = snd (published e), err_data = None\<rparr>,
       log @ (if fst (published e) = - 32005
              then [(WARN, ''tari_vault::rpc'', ''Internal vault error: '' @ snd (published e))] else []))"
| "reports (Panic m) log out \<longleftrightarrow> out = (Panic m, log)"

lemma map_rpc_err_reports:
  "map_rpc_err (q, st) = (res, st') \<Longrightarrow> reports q (rpc_log st) (res, rpc_log st')"
proof (cases q)
  case (Err e)
  have "published e = (rpc_code e, vault_error_display e)"
    by (cases e rule: published.cases) simp_all
  then show "map_rpc_err (q, st) = (res, st') \<Longrightarrow> ?thesis"
    using Err by (auto simp: vault_to_rpc_err_def Let_def)
qed auto

lemma published_storage [simp]: "fst (published (Storage se)) = - 32005"
  by (cases se) simp_all

text \<open>The document a retrieved proof parses to.\<close>

definition parsed :: "ext \<Rightarrow> (plaintext_proof, vault_error) result \<Rightarrow> (proof_object, vault_error) result" where
  "parsed E q = bind_res q (\<lambda>p. bind_res (map_err Serialization (value_from_slice E (proof_data p))) (\<lambda>j.
     Ok \<lparr>object_json = j\<rparr>))"

context vault_contract
begin

lemma rpc_store_conforms:
  assumes "serde_json_laws E" "vinv (rpc_vault st)" "ok env (expires_in_secs params)"
    and "length (serde_to_string E (proof_json params)) \<le> unat limit"
    and "rpc_store_proof E PV limit env params st = (res, st')"
  shows "vinv (rpc_vault st') \<and>
    (\<exists>q. conforms (spec_store E env (proof_from_bytes (as_bytes (serde_to_string E (proof_json params))))
        (expires_in_secs params) (view (rpc_vault st))) (view (rpc_vault st)) (q, view (rpc_vault st')) \<and>
      reports q (rpc_log st) (res, rpc_log st'))"
proof -
  let ?p = "proof_from_bytes (as_bytes (serde_to_string E (proof_json params)))"
  obtain q v' where q: "pv_store_proof PV env ?p (expires_in_secs params) (rpc_vault st) = (q, v')" by fastforce
  have m: "map_rpc_err (q, st\<lparr>rpc_vault := v'\<rparr>) = (res, st')"
    using assms(4,5) q proof_from_json_Ok [OF assms(1), of "proof_json params"] by (simp add: rpc_store_proof_def)
  then have "rpc_vault st' = v'"
    using map_rpc_err_vault [of "(q, st\<lparr>rpc_vault := v'\<rparr>)"] by simp
  with store_law [OF assms(2,3) q] map_rpc_err_reports [OF m] show ?thesis by auto
qed

lemma rpc_delete_conforms:
  assumes "vinv (rpc_vault st)" "rpc_delete_proof PV env tok st = (res, st')"
  shows "vinv (rpc_vault st') \<and>
    (\<exists>q. conforms (spec_delete E (now_check env) tok (view (rpc_vault st))) (view (rpc_vault st)) (q, view (rpc_vault st')) \<and>
      reports q (rpc_log st) (res, rpc_log st'))"
proof -
  obtain q v' where q: "pv_delete_proof PV env tok (rpc_vault st) = (q, v')" by fastforce
  have m: "map_rpc_err (q, st\<lparr>rpc_vault := v'\<rparr>) = (res, st')"
    using assms(2) q by (simp add: rpc_delete_proof_def)
  then have "rpc_vault st' = v'"
    using map_rpc_err_vault [of "(q, st\<lparr>rpc_vault := v'\<rparr>)"] by simp
  with delete_law [OF assms(1) q] map_rpc_err_reports [OF m] show ?thesis by auto
qed

lemma rpc_retrieve_conforms:
  assumes "vinv (rpc_vault st)" "rpc_retrieve_proof E PV env tok st = (res, st')"
  shows "vinv (rpc_vault st') \<and>
    (\<exists>q. conforms (spec_retrieve E (now_check env) tok (view (rpc_vault st))) (view (rpc_vault st)) (q, view (rpc_vault st')) \<and>
      reports (parsed E q) (rpc_log st) (res, rpc_log st'))"
proof -
  obtain q v' where q: "pv_retrieve_proof PV env tok (rpc_vault st) = (q, v')" by fastforce
  have m: "map_rpc_err (parsed E q, st\<lparr>rpc_vault := v'\<rparr>) = (res, st')"
  proof (cases q)
    case (Ok p)
    then show ?thesis
      using assms(2) q by (cases "value_from_slice E (proof_data p)")
        (auto simp: rpc_retrieve_proof_def parsed_def proof_into_json_def vault_to_rpc_err_def Let_def)
  qed (use assms(2) q in \<open>auto simp: rpc_retrieve_proof_def parsed_def vault_to_rpc_err_def Let_def\<close>)
  then have "rpc_vault st' = v'"
    using map_rpc_err_vault [of "(parsed E q, st\<lparr>rpc_vault := v'\<rparr>)"] by simp
  with retrieve_law [OF assms(1) q] map_rpc_err_reports [OF m] show ?thesis by auto
qed

end

text \<open>
  C23: the three handlers on the deployed vault, whatever storage calls fail. A
  document whose compact text is longer than the limit is refused with code -32006
  and a message that names the limit, and nothing happens. Otherwise a store behaves
  as the reference store of the bytes of that text, and a retrieval and a deletion as
  theirs, up to reported storage failures; the client gets the value, or the published
  code and text of the error and no data; and the handler's log grows by one warning
  if the error is internal and is unchanged if not.
\<close>

theorem rpc_handlers_conform:
  assumes "serde_json_laws E" "any_inv E (storage (rpc_vault st))" "any_store_ok E env (expires_in_secs params)"
    and "rpc_store_proof E (deployed E) limit env params st = (stored, st1)"
    and "rpc_retrieve_proof E (deployed E) env tok st = (retrieved, st2)"
    and "rpc_delete_proof (deployed E) env tok st = (deleted, st3)"
  shows "(let doc = serde_to_string E (proof_json params); m = any_abs E (storage (rpc_vault st)) in
    (if length doc > unat limit
     then stored = Err \<lparr>err_code = - 32006, err_message = ''Invalid parameter: proof_json exceeds maximum allowed size of '' @
            show_nat (unat limit) @ '' bytes'', err_data = None\<rparr> \<and> st1 = st
     else \<exists>q. conforms (spec_store E env \<lparr>proof_data = as_bytes doc\<rparr> (expires_in_secs params) m) m
            (q, any_abs E (storage (rpc_vault st1))) \<and> reports q (rpc_log st) (stored, rpc_log st1)) \<and>
    (\<exists>q. conforms (spec_retrieve E (now_check env) tok m) m (q, any_abs E (storage (rpc_vault st2))) \<and>
       reports (parsed E q) (rpc_log st) (retrieved, rpc_log st2)) \<and>
    (\<exists>q. conforms (spec_delete E (now_check env) tok m) m (q, any_abs E (storage (rpc_vault st3))) \<and>
       reports q (rpc_log st) (deleted, rpc_log st3)))"
proof -
  have "stored = Err \<lparr>err_code = - 32006, err_message = ''Invalid parameter: proof_json exceeds maximum allowed size of '' @
      show_nat (unat limit) @ '' bytes'', err_data = None\<rparr> \<and> st1 = st"
    if "length (serde_to_string E (proof_json params)) > unat limit"
    using that assms(4) by (simp add: rpc_store_proof_def vault_to_rpc_err_def Let_def)
  then show ?thesis
    using shared_vault.rpc_store_conforms [OF assms(1-3) _ assms(4)] shared_vault.rpc_retrieve_conforms [OF assms(2,5)]
      shared_vault.rpc_delete_conforms [OF assms(2,6)]
    by (simp add: Let_def proof_from_bytes_def)
qed

theorem rpc_handlers_conform_witness:
  "(\<exists>x st'. rpc_delete_proof (deployed ref_ext) (at_instant 0) sample_token fresh_rpc = (Err x, st') \<and> err_code x \<in> {- 32001, - 32005}) \<and>
    rpc_store_proof ref_ext (deployed ref_ext) 2 (at_instant 0) \<lparr>proof_json = JString ''abc'', expires_in_secs = None\<rparr> fresh_rpc =
     (Err \<lparr>err_code = - 32006, err_message = ''Invalid parameter: proof_json exceeds maximum allowed size of 2 bytes'',
        err_data = None\<rparr>, fresh_rpc)"
proof -
  let ?params = "\<lparr>proof_json = JString ''abc'', expires_in_secs = None\<rparr>"
  obtain q1 st1 where 1: "rpc_store_proof ref_ext (deployed ref_ext) 2 (at_instant 0) ?params fresh_rpc = (q1, st1)" by fastforce
  obtain q2 st2 where 2: "rpc_retrieve_proof ref_ext (deployed ref_ext) (at_instant 0) sample_token fresh_rpc = (q2, st2)" by fastforce
  obtain q3 st3 where 3: "rpc_delete_proof (deployed ref_ext) (at_instant 0) sample_token fresh_rpc = (q3, st3)" by fastforce
  have inv: "any_inv ref_ext (storage (rpc_vault fresh_rpc))" by (simp add: fresh_rpc_def)
  have ok: "any_store_ok ref_ext (at_instant 0) (expires_in_secs ?params)" by (simp add: rfc3339_range_def)
  have size: "length (serde_to_string ref_ext (JString ''abc'')) > 2"
    by (simp add: ref_ext_def text_code_def)
  have two: "show_nat 2 = ''2''" by code_simp
  note t = rpc_handlers_conform [OF ref_serde_json inv ok 1 2 3]
  have "q1 = Err \<lparr>err_code = - 32006, err_message = ''Invalid parameter: proof_json exceeds maximum allowed size of 2 bytes'',
      err_data = None\<rparr> \<and> st1 = fresh_rpc"
    using t size two by (simp add: Let_def)
  moreover have "\<exists>x. q3 = Err x \<and> err_code x \<in> {- 32001, - 32005}"
    using t [unfolded Let_def, THEN conjunct2, THEN conjunct2]
    by (auto simp: spec_delete_def sample_token_decodes fresh_rpc_def conforms_def claim_id_new_def)
  ultimately show ?thesis using 1 3 by auto
qed

lemma rpc_store_Ok:
  assumes "serde_json_laws E" "rpc_store_proof E PV limit env params st = (Ok tok, st1)"
  shows "pv_store_proof PV env (proof_from_bytes (as_bytes (serde_to_string E (proof_json params))))
    (expires_in_secs params) (rpc_vault st) = (Ok tok, rpc_vault st1)"
proof -
  have j: "proof_from_json E (proof_json params) = Ok (proof_from_bytes (as_bytes (serde_to_string E (proof_json params))))"
    using assms(1) by (rule proof_from_json_Ok)
  obtain r v where "pv_store_proof PV env (proof_from_bytes (as_bytes (serde_to_string E (proof_json params))))
      (expires_in_secs params) (rpc_vault st) = (r, v)" by fastforce
  then show ?thesis
    using assms(2) j by (cases r) (auto simp: rpc_store_proof_def vault_to_rpc_err_def Let_def split: if_splits)
qed

text \<open>
  The handoff over RPC. A document that is stored by \<open>vault_storeProof\<close>
  comes back unchanged from \<open>vault_retrieveProof\<close> with the returned token,
  whatever other vault operations run in between without touching its record, when
  the retrieval is in time and its storage calls work; afterwards the record is gone.
\<close>

lemma rpc_handoff:
  assumes "base64_url_laws E" "aead_laws E" "serde_json_laws E" "json_exact (proof_json params) \<and> is_value (proof_json params)"
    and "any_inv E (storage (rpc_vault st))" "any_store_ok E env (expires_in_secs params)"
    and "rpc_store_proof E (deployed E) limit env params st = (Ok tok, st1)"
    and "transpose_res (map_option (expiry_at E (now_expiry env)) (expires_in_secs params)) = Ok ex"
    and "\<forall>op \<in> set ops. any_op_ok E op \<and> avoids E (new_uuid env) ex op"
    and "run_ops E (any_backend_ops E) ops (rpc_vault st1) = (as, rpc_vault st2)"
    and "any_quiet (io_first env') (storage (rpc_vault st2))" "any_quiet (io_second env') (storage (rpc_vault st2))"
    and "\<forall>t. ex = Some t \<longrightarrow> now_check env' \<le> t"
    and "rpc_retrieve_proof E (deployed E) env' tok st2 = (res, st3)"
  shows "res = Ok \<lparr>object_json = proof_json params\<rparr> \<and>
    any_abs E (storage (rpc_vault st3)) = (any_abs E (storage (rpc_vault st2)))(new_uuid env := None)"
proof -
  let ?p = "proof_from_bytes (as_bytes (serde_to_string E (proof_json params)))"
  have store: "store_proof E (any_backend_ops E) env ?p (expires_in_secs params) (rpc_vault st) = (Ok tok, rpc_vault st1)"
    using rpc_store_Ok [OF assms(3,7)] by simp
  obtain r v3 where ret: "retrieve_proof E (any_backend_ops E) env' tok (rpc_vault st2) = (r, v3)" by fastforce
  have r: "r = Ok ?p" "any_abs E (storage v3) = (any_abs E (storage (rpc_vault st2)))(new_uuid env := None)"
    using any_store.handoff_delivers [OF assms(1,2,5,6) store assms(8-13) ret] by auto
  have "proof_into_json E ?p = Ok (proof_json params)"
    using assms(3,4) by (simp add: proof_into_json_def proof_from_bytes_def serde_json_laws_def value_from_slice_def is_value_def)
  then show ?thesis
    using assms(14) ret r by (auto simp: rpc_retrieve_proof_def)
qed

text \<open>The parameters of the instances.\<close>

definition sample_params :: store_proof_params where
  "sample_params = \<lparr>proof_json = JObject [], expires_in_secs = None\<rparr>"

lemma sample_rpc_store:
  obtains tok st1 db where "rpc_store_proof ref_ext (deployed ref_ext) 1048576 (at_instant 0) sample_params fresh_rpc = (Ok tok, st1)"
    "storage (rpc_vault st1) = Sqlite db"
proof -
  have "aes_gcm_encrypt ref_ext (replicate 32 7) (replicate 12 9) (as_bytes (serde_to_string ref_ext (JObject []))) \<noteq> None"
    by (simp add: ref_ext_def ref_encrypt_def)
  then obtain ct where ct: "aes_gcm_encrypt ref_ext (replicate 32 7) (replicate 12 9) (as_bytes (serde_to_string ref_ext (JObject []))) = Some ct"
    by blast
  have size: "length (serde_to_string ref_ext (JObject [])) = 2"
    by (simp add: ref_ext_def)
  have js: "proof_from_json ref_ext (JObject []) = Ok \<lparr>proof_data = as_bytes (serde_to_string ref_ext (JObject []))\<rparr>"
    using proof_from_json_Ok [OF ref_serde_json] by (simp add: proof_from_bytes_def)
  have "\<exists>tok st1 db. rpc_store_proof ref_ext (deployed ref_ext) 1048576 (at_instant 0) sample_params fresh_rpc = (Ok tok, st1) \<and>
      storage (rpc_vault st1) = Sqlite db"
    by (simp add: rpc_store_proof_def sample_params_def fresh_rpc_def size js on_vault_def store_proof_def proof_as_bytes_def ct
        Let_def on_storage_def empty_db_def vault_new_def sqlite_insert_def with_connection_def db_sys_def calm_io_def
        claim_id_new_def emit_def)
  then show thesis using that by blast
qed

text \<open>
  Decryption failures are opaque. Whatever the reason a live record does not
  open with the presented key (another key, a changed ciphertext, a nonce of the wrong
  length), the caller gets the same code -32004 and the same message, nothing is
  logged, and the record stays.
\<close>

lemma decryption_failure_opaque:
  assumes "any_inv E (storage (rpc_vault st))" "any_quiet (io_first env) (storage (rpc_vault st))"
    and "any_quiet (io_second env) (storage (rpc_vault st))"
    and "claim_id_decode E tok = Ok c" "any_abs E (storage (rpc_vault st)) (record_id c) = Some r"
    and "\<not> is_expired (now_check env) r" "open_record E c r = None"
    and "rpc_retrieve_proof E (deployed E) env tok st = (res, st')"
  shows "res = Err \<lparr>err_code = - 32004, err_message = ''Decryption failed'', err_data = None\<rparr> \<and> rpc_log st' = rpc_log st \<and>
    any_abs E (storage (rpc_vault st')) = any_abs E (storage (rpc_vault st))"
proof -
  obtain q v' where q: "retrieve_proof E (any_backend_ops E) env tok (rpc_vault st) = (q, v')" by fastforce
  have "spec_retrieve E (now_check env) tok (any_abs E (storage (rpc_vault st))) =
      (Err DecryptionFailed, any_abs E (storage (rpc_vault st)))"
    using assms(4-7) by (simp add: spec_retrieve_def)
  with any_store.retrieve_proof_quiet [OF assms(1-3) q]
  have "q = Err DecryptionFailed" "any_abs E (storage v') = any_abs E (storage (rpc_vault st))" by simp_all
  then show ?thesis
    using assms(8) q by (auto simp: rpc_retrieve_proof_def vault_to_rpc_err_def Let_def)
qed

section \<open>Limits and transport\<close>

lemma unat_of_nat_u32: "n < 2 ^ 32 \<Longrightarrow> unat (of_nat n :: u32) = n"
  by (simp add: unat_of_nat take_bit_eq_mod)

lemma http_body_limit_value: "unat (http_body_limit m) = min (unat m + 4096) (2 ^ 32 - 1)"
proof -
  let ?n = "saturating_add m 4096"
  have m: "unat m < 2 ^ 64"
    using unsigned_less [of m] by simp
  have max64: "unat (- 1 :: u64) = 2 ^ 64 - 1" and max32: "unat (- 1 :: u32) = 2 ^ 32 - 1"
    by (simp_all add: unsigned_minus_1_eq_mask mask_eq_exp_minus_1)
  have c: "unat (4096 :: u64) = 4096" by simp
  have n: "unat ?n = min (unat m + 4096) (2 ^ 64 - 1)"
  proof (cases "unat m + 4096 < 2 ^ 64")
    case True
    then have "unat (m + 4096) = unat m + 4096"
      by (simp add: unat_word_ariths(1))
    then show ?thesis using True by (simp add: saturating_add_def)
  next
    case False
    then show ?thesis using max64 by (simp add: saturating_add_def)
  qed
  show ?thesis
  proof (cases "unat ?n < 2 ^ 32")
    case True
    then have "unat (of_nat (unat ?n) :: u32) = unat ?n"
      by (rule unat_of_nat_u32)
    then have "unat (http_body_limit m) = unat ?n"
      using True by (simp only: http_body_limit_def Let_def if_True)
    then show ?thesis
      using True n by simp
  next
    case False
    then show ?thesis
      using n max32 by (simp add: http_body_limit_def Let_def)
  qed
qed

text \<open>
  C34: the transport limit. The limit on request bodies is the size limit plus 4096
  bytes, cut off at the largest 32-bit number; in particular it is never smaller than
  the size limit plus 4096 as long as that fits 32 bits, and no wrap-around occurs.
\<close>

theorem body_limit_value: "unat (http_body_limit m) = min (unat m + 4096) (2 ^ 32 - 1)"
  by (rule http_body_limit_value)

lemma start_server_Ok:
  assumes "start_server io bind_addr auth_token tls insecure_no_tls limit = Ok srv"
  shows "(tls = None \<and> \<not> insecure_no_tls \<longrightarrow>
      (\<exists>a. parse_socket_addr (public_addr srv) = Some a \<and> is_loopback (sa_ip a))) \<and>
    (public_tls srv \<longleftrightarrow> tls \<noteq> None) \<and> (public_tls srv \<longrightarrow> plain_addr srv = ''127.0.0.1:0'') \<and>
    auth_layer srv = bearer_from_config auth_token \<and> body_limit srv = http_body_limit limit \<and>
    map fst (methods srv) = [''vault_storeProof'', ''vault_retrieveProof'', ''vault_deleteProof'', ''rpc.discover'']"
proof -
  have check: "check_tls_for_non_loopback bind_addr tls insecure_no_tls = Ok ()"
    using assms by (simp add: start_server_def bind_res_Ok_iff)
  have names: "map fst (vault_methods @ discovery_module) =
      [''vault_storeProof'', ''vault_retrieveProof'', ''vault_deleteProof'', ''rpc.discover'']"
    by (simp add: vault_methods_def discovery_module_def)
  show ?thesis
  proof (cases tls)
    case None
    then have srv: "srv = \<lparr>public_addr = bind_addr, public_tls = False, plain_addr = bind_addr,
        body_limit = http_body_limit limit, auth_layer = bearer_from_config auth_token, methods = vault_methods @ discovery_module\<rparr>"
      using assms by (auto simp: start_server_def start_plain_def bind_res_Ok_iff)
    have "\<exists>a. parse_socket_addr bind_addr = Some a \<and> is_loopback (sa_ip a)" if "\<not> insecure_no_tls"
      using check None that by (auto simp: check_tls_for_non_loopback_def split: option.splits if_splits)
    then show ?thesis using None names by (simp add: srv)
  next
    case (Some cfg)
    then have srv: "srv = \<lparr>public_addr = bind_addr, public_tls = True, plain_addr = ''127.0.0.1:0'',
        body_limit = http_body_limit limit, auth_layer = bearer_from_config auth_token, methods = vault_methods @ discovery_module\<rparr>"
      using assms by (auto simp: start_server_def start_tls_def bind_res_Ok_iff)
    then show ?thesis using Some names by (simp add: srv)
  qed
qed

lemma start_server_methods:
  assumes "start_server io bind_addr auth_token tls insecure_no_tls limit = Ok srv"
  shows "methods srv = vault_methods @ discovery_module" "public_addr srv = bind_addr"
  using assms by (auto simp: start_server_def start_plain_def start_tls_def bind_res_Ok_iff Let_def split: option.splits)

text \<open>
  C18: who may speak plain HTTP. A server that starts without TLS and without the
  explicit override listens on a loopback address; with TLS its plain HTTP side
  listens on a loopback address. Either way every request passes the configured
  authentication layer and the body limit, and exactly the four documented methods
  are registered.
\<close>

theorem server_transport:
  assumes "start_server io bind_addr auth_token tls insecure_no_tls limit = Ok srv"
  shows "(tls = None \<and> \<not> insecure_no_tls \<longrightarrow>
      (\<exists>a. parse_socket_addr (public_addr srv) = Some a \<and> is_loopback (sa_ip a))) \<and>
    (public_tls srv \<longleftrightarrow> tls \<noteq> None) \<and> (public_tls srv \<longrightarrow> plain_addr srv = ''127.0.0.1:0'') \<and>
    auth_layer srv = bearer_from_config auth_token \<and> body_limit srv = http_body_limit limit \<and>
    map fst (methods srv) = [''vault_storeProof'', ''vault_retrieveProof'', ''vault_deleteProof'', ''rpc.discover'']"
  using assms by (rule start_server_Ok)

theorem server_transport_witness:
  "\<exists>srv. start_server (\<lambda>_. None) ''127.0.0.1:9000'' (Some ''secret'') None False 1048576 = Ok srv \<and>
     auth_layer srv = bearer_new ''secret'' \<and> \<not> public_tls srv"
proof -
  have "check_tls_for_non_loopback ''127.0.0.1:9000'' None False = Ok ()"
    by (simp add: check_tls_for_non_loopback_def parse_loopback_texts)
  then obtain srv where srv: "start_server (\<lambda>_. None) ''127.0.0.1:9000'' (Some ''secret'') None False 1048576 = Ok srv"
    by (simp add: start_server_def start_plain_def net_sys_def)
  from server_transport [OF srv] srv show ?thesis by (simp add: bearer_from_config_def)
qed

text \<open>
  Plain HTTP elsewhere is refused: without TLS and without the override, a bind
  address that is not a socket address (a host name, for instance) or that is not a
  loopback address stops the server before it listens.
\<close>

lemma plain_http_refused:
  "(\<exists>e. start_server io bind_addr auth_token None False limit = Err e) \<longleftrightarrow>
     (parse_socket_addr bind_addr = None \<or> (\<exists>a. parse_socket_addr bind_addr = Some a \<and> \<not> is_loopback (sa_ip a)) \<or>
      io BuildServer \<noteq> None \<or> io LocalAddr \<noteq> None)"
  by (cases "parse_socket_addr bind_addr"; cases "io BuildServer"; cases "io LocalAddr")
    (simp_all add: start_server_def check_tls_for_non_loopback_def start_plain_def net_sys_def)

end
