(* ===== verification/Cleanup_Task.thy ===== *)
theory Cleanup_Task
  imports Rpc_Server
begin

text \<open>
  \<^verbatim>\<open>src/vault/cleanup.rs\<close>: the background task that sweeps for expired
  proofs. The world of the task is its two cancellation tokens, whether it is
  running, the vault it shares and the log. A wake-up is one pass of the
  \<open>select!\<close> loop: cancellation is looked at first, then the ticker. A child
  token is cancelled when it or its parent is.
\<close>

record 'v cleanup_world =
  parent_cancelled :: bool
  child_cancelled :: bool
  running :: bool
  cw_vault :: 'v
  cw_log :: "log_line list"

definition token_cancelled :: "'v cleanup_world \<Rightarrow> bool" where
  "token_cancelled w \<longleftrightarrow> parent_cancelled w \<or> child_cancelled w"

definition note_cleanup :: "log_level \<Rightarrow> string \<Rightarrow> 'v cleanup_world \<Rightarrow> 'v cleanup_world" where
  "note_cleanup lv msg w = w\<lparr>cw_log := cw_log w @ [(lv, ''tari_vault::cleanup'', msg)]\<rparr>"

text \<open>
  \<open>spawn_cleanup_task\<close> with an interval in nanoseconds; \<open>time::interval\<close>
  panics on zero, which ends the task.
\<close>

definition spawn_cleanup_task :: "nat \<Rightarrow> bool \<Rightarrow> 'v \<Rightarrow> log_line list \<Rightarrow> 'v cleanup_world" where
  "spawn_cleanup_task interval parent vault log =
     (let w = \<lparr>parent_cancelled = parent, child_cancelled = False, running = True, cw_vault = vault, cw_log = log\<rparr> in
      if interval = 0 then w\<lparr>running := False\<rparr>
      else note_cleanup DEBUG (''Cleanup task started (interval: '' @ show_nat (interval div 1000000000) @ ''s)'') w)"

definition cleanup_sweep :: "('v, 'env) proof_vault \<Rightarrow> 'env \<Rightarrow> 'v cleanup_world \<Rightarrow> 'v cleanup_world" where
  "cleanup_sweep PV env w =
     (case pv_cleanup PV env (cw_vault w) of
        (Ok n, v) \<Rightarrow>
          if n = 0 then note_cleanup DEBUG ''Periodic sweep: no expired proofs'' (w\<lparr>cw_vault := v\<rparr>)
          else note_cleanup INFO (''Periodic sweep removed '' @ show_nat n @ '' expired proof(s)'') (w\<lparr>cw_vault := v\<rparr>)
      | (Err e, v) \<Rightarrow> note_cleanup WARN (''Cleanup sweep failed: '' @ vault_error_display e) (w\<lparr>cw_vault := v\<rparr>)
      | (Panic m, v) \<Rightarrow> w\<lparr>cw_vault := v, running := False\<rparr>)"

definition cleanup_wake :: "('v, 'env) proof_vault \<Rightarrow> 'env option \<Rightarrow> 'v cleanup_world \<Rightarrow> 'v cleanup_world" where
  "cleanup_wake PV tick w =
     (if \<not> running w then w
      else if token_cancelled w
      then (note_cleanup DEBUG ''Cleanup task stopped'' (note_cleanup DEBUG ''Cleanup task stopping'' w))\<lparr>running := False\<rparr>
      else case tick of None \<Rightarrow> w | Some env \<Rightarrow> cleanup_sweep PV env w)"

definition cleanup_stop :: "'v cleanup_world \<Rightarrow> 'v cleanup_world" where
  "cleanup_stop w = w\<lparr>child_cancelled := True\<rparr>"

definition parent_cancel :: "'v cleanup_world \<Rightarrow> 'v cleanup_world" where
  "parent_cancel w = w\<lparr>parent_cancelled := True\<rparr>"

text \<open>What \<open>stopped\<close> waits for.\<close>

definition cleanup_stopped :: "'v cleanup_world \<Rightarrow> bool" where
  "cleanup_stopped w \<longleftrightarrow> \<not> running w"

datatype 'env task_event = Wake "'env option" | CancelParent | StopTask

fun cleanup_event :: "('v, 'env) proof_vault \<Rightarrow> 'env task_event \<Rightarrow> 'v cleanup_world \<Rightarrow> 'v cleanup_world" where
  "cleanup_event PV (Wake tick) w = cleanup_wake PV tick w"
| "cleanup_event PV CancelParent w = parent_cancel w"
| "cleanup_event PV StopTask w = cleanup_stop w"

definition cleanup_events :: "('v, 'env) proof_vault \<Rightarrow> 'env task_event list \<Rightarrow> 'v cleanup_world \<Rightarrow> 'v cleanup_world" where
  "cleanup_events PV es w = fold (cleanup_event PV) es w"

section \<open>Cancellation\<close>

lemma note_cleanup_sel [simp]:
  "parent_cancelled (note_cleanup lv msg w) = parent_cancelled w" "child_cancelled (note_cleanup lv msg w) = child_cancelled w"
  "running (note_cleanup lv msg w) = running w" "cw_vault (note_cleanup lv msg w) = cw_vault w"
  by (simp_all add: note_cleanup_def)

lemma cleanup_sweep_sel [simp]:
  "parent_cancelled (cleanup_sweep PV env w) = parent_cancelled w" "child_cancelled (cleanup_sweep PV env w) = child_cancelled w"
  "cw_vault (cleanup_sweep PV env w) = snd (pv_cleanup PV env (cw_vault w))"
  by (auto simp: cleanup_sweep_def split: prod.splits result.splits)

lemma cleanup_event_cancelled:
  assumes "token_cancelled w"
  shows "token_cancelled (cleanup_event PV e w)" "cw_vault (cleanup_event PV e w) = cw_vault w"
    "\<not> running w \<Longrightarrow> \<not> running (cleanup_event PV e w)" "e = Wake t \<Longrightarrow> \<not> running (cleanup_event PV e w)"
  using assms
  by (cases e; simp add: token_cancelled_def cleanup_wake_def parent_cancel_def cleanup_stop_def)+

lemma cleanup_events_cancelled:
  "token_cancelled w \<Longrightarrow> cw_vault (cleanup_events PV es w) = cw_vault w \<and>
     ((\<exists>t. Wake t \<in> set es) \<or> \<not> running w \<longrightarrow> \<not> running (cleanup_events PV es w))"
proof (induction es arbitrary: w)
  case (Cons e es)
  note step = cleanup_event_cancelled [OF Cons.prems, where PV = PV and e = e]
  show ?case
    using Cons.IH [OF step(1)] step(2-4) by (auto simp: cleanup_events_def)
qed (simp add: cleanup_events_def)

text \<open>
  C31: cancellation is final. Once the task's own token or its parent is cancelled,
  no later tick sweeps the vault, and the next wake-up of the task ends it.
\<close>

theorem cancelled_task_stops:
  assumes "token_cancelled w"
  shows "cw_vault (cleanup_events PV es w) = cw_vault w \<and>
    ((\<exists>t. Wake t \<in> set es) \<longrightarrow> cleanup_stopped (cleanup_events PV es w))"
  using cleanup_events_cancelled [OF assms, of PV es] by (simp add: cleanup_stopped_def)

theorem cancelled_task_stops_witness:
  "cleanup_stopped (cleanup_events (deployed ref_ext) [Wake (Some (at_instant 5))]
     (cleanup_stop (spawn_cleanup_task 300000000000 False empty_db [])))"
proof -
  let ?w = "cleanup_stop (spawn_cleanup_task 300000000000 False empty_db [])"
  have "token_cancelled ?w" by (simp add: token_cancelled_def cleanup_stop_def)
  from cancelled_task_stops [OF this, of "deployed ref_ext" "[Wake (Some (at_instant 5))]"] show ?thesis by auto
qed

text \<open>
  Stopping the task leaves the application's token alone: after any events the
  parent token is cancelled exactly when it was before or the application cancelled it.
\<close>

lemma stop_keeps_parent:
  "parent_cancelled (cleanup_events PV es w) \<longleftrightarrow> parent_cancelled w \<or> CancelParent \<in> set es"
proof -
  have "parent_cancelled (cleanup_event PV e w) \<longleftrightarrow> parent_cancelled w \<or> e = CancelParent" for e w
    by (cases e) (auto simp: cleanup_wake_def parent_cancel_def cleanup_stop_def split: option.splits)
  then show ?thesis
    by (induction es arbitrary: w) (auto simp: cleanup_events_def)
qed

section \<open>Sweeping\<close>

definition tick_instants :: "'io call_env task_event list \<Rightarrow> datetime set" where
  "tick_instants es = {now_check env | env. Wake (Some env) \<in> set es}"

lemma tick_instants_simps [simp]:
  "tick_instants [] = {}" "tick_instants (Wake (Some env) # es) = insert (now_check env) (tick_instants es)"
  "tick_instants (Wake None # es) = tick_instants es" "tick_instants (CancelParent # es) = tick_instants es"
  "tick_instants (StopTask # es) = tick_instants es"
  by (auto simp: tick_instants_def)

context vault_contract
begin

lemma sweep_spec:
  assumes "vinv (cw_vault w)" "clock (now_check env)"
  shows "vinv (cw_vault (cleanup_sweep PV env w)) \<and> running (cleanup_sweep PV env w) = running w \<and>
    (view (cw_vault (cleanup_sweep PV env w)) = view (cw_vault w) \<or>
     view (cw_vault (cleanup_sweep PV env w)) = purge (now_check env) (view (cw_vault w)))"
proof -
  obtain r v where r: "pv_cleanup PV env (cw_vault w) = (r, v)" by fastforce
  have law: "vinv v" "conforms (spec_cleanup (now_check env) (view (cw_vault w))) (view (cw_vault w)) (r, view v)"
    using cleanup_law [OF assms r] by auto
  have "\<forall>m. r \<noteq> Panic m"
    using law(2) by (auto simp: conforms_def spec_cleanup_def)
  then have "running (cleanup_sweep PV env w) = running w"
    using r by (cases r) (auto simp: cleanup_sweep_def)
  moreover have "view v = view (cw_vault w) \<or> view v = purge (now_check env) (view (cw_vault w))"
    using law(2) by (auto simp: conforms_def spec_cleanup_def)
  ultimately show ?thesis
    using law(1) r by simp
qed

lemma cleanup_event_spec:
  assumes "vinv (cw_vault w)" "\<forall>env. e = Wake (Some env) \<longrightarrow> clock (now_check env)"
  shows "vinv (cw_vault (cleanup_event PV e w)) \<and>
    (\<not> token_cancelled w \<longrightarrow> running (cleanup_event PV e w) = running w) \<and>
    (\<forall>rid r. view (cw_vault w) rid = Some r \<and> (\<forall>env. e = Wake (Some env) \<longrightarrow> \<not> due (now_check env) r) \<longrightarrow>
       view (cw_vault (cleanup_event PV e w)) rid = Some r)"
proof (cases "\<exists>env. e = Wake (Some env) \<and> running w \<and> \<not> token_cancelled w")
  case True
  then obtain env where e: "e = Wake (Some env)" "running w" "\<not> token_cancelled w" by blast
  then have "cleanup_event PV e w = cleanup_sweep PV env w" by (simp add: cleanup_wake_def)
  with sweep_spec [OF assms(1), of env] assms(2) e(1) show ?thesis
    by (auto simp: purge_def)
next
  case False
  then have "cw_vault (cleanup_event PV e w) = cw_vault w"
    "\<not> token_cancelled w \<longrightarrow> running (cleanup_event PV e w) = running w"
    by (cases e; auto simp: cleanup_wake_def parent_cancel_def cleanup_stop_def split: option.splits)+
  then show ?thesis using assms(1) by simp
qed

lemma cleanup_events_spec:
  assumes "vinv (cw_vault w)" "\<forall>t \<in> tick_instants es. clock t"
  shows "vinv (cw_vault (cleanup_events PV es w)) \<and>
    (\<forall>rid r. view (cw_vault w) rid = Some r \<and> (\<forall>t \<in> tick_instants es. \<not> due t r) \<longrightarrow>
       view (cw_vault (cleanup_events PV es w)) rid = Some r)"
  using assms
proof (induction es arbitrary: w)
  case (Cons e es)
  have ticks: "tick_instants es \<subseteq> tick_instants (e # es)" "\<forall>env. e = Wake (Some env) \<longrightarrow> now_check env \<in> tick_instants (e # es)"
    by (auto simp: tick_instants_def)
  have step: "vinv (cw_vault (cleanup_event PV e w))"
    "\<forall>rid r. view (cw_vault w) rid = Some r \<and> (\<forall>env. e = Wake (Some env) \<longrightarrow> \<not> due (now_check env) r) \<longrightarrow>
       view (cw_vault (cleanup_event PV e w)) rid = Some r"
    using cleanup_event_spec [OF Cons.prems(1), of e] Cons.prems(2) ticks(2) by blast+
  have "\<forall>t \<in> tick_instants es. clock t" using Cons.prems(2) ticks(1) by blast
  from Cons.IH [OF step(1) this] step(2) ticks show ?case
    unfolding cleanup_events_def fold_simps comp_apply by blast
qed (simp add: cleanup_events_def)

lemma cleanup_runs_on:
  assumes "vinv (cw_vault w)" "\<forall>t \<in> tick_instants es. clock t" "\<not> token_cancelled w" "set es \<inter> {CancelParent, StopTask} = {}"
  shows "running (cleanup_events PV es w) = running w"
  using assms
proof (induction es arbitrary: w)
  case (Cons e es)
  have ticks: "tick_instants es \<subseteq> tick_instants (e # es)" "\<forall>env. e = Wake (Some env) \<longrightarrow> now_check env \<in> tick_instants (e # es)"
    by (auto simp: tick_instants_def)
  have step: "vinv (cw_vault (cleanup_event PV e w))" "running (cleanup_event PV e w) = running w"
    using cleanup_event_spec [OF Cons.prems(1), of e] Cons.prems(2,3) ticks(2) by blast+
  have "\<not> token_cancelled (cleanup_event PV e w)"
    using Cons.prems(3,4) by (cases e) (auto simp: token_cancelled_def cleanup_wake_def split: option.splits)
  moreover have "\<forall>t \<in> tick_instants es. clock t" using Cons.prems(2) ticks(1) by blast
  moreover have "set es \<inter> {CancelParent, StopTask} = {}" using Cons.prems(4) by auto
  ultimately show ?case
    using Cons.IH [OF step(1)] step(2) by (simp add: cleanup_events_def)
qed (simp add: cleanup_events_def)

end

text \<open>
  The task survives failing sweeps. As long as nobody cancels, a running task
  keeps running through any wake-ups, whatever storage calls fail in its sweeps.
\<close>

lemma sweep_failures_do_not_stop_task:
  assumes "any_inv E (storage (cw_vault w))" "\<forall>t \<in> tick_instants es. rfc3339_range t"
    and "\<not> token_cancelled w" "set es \<inter> {CancelParent, StopTask} = {}" "running w"
  shows "running (cleanup_events (deployed E) es w) \<and>
    any_inv E (storage (cw_vault (cleanup_events (deployed E) es w)))"
  using shared_vault.cleanup_runs_on [OF assms(1-4)] shared_vault.cleanup_events_spec [OF assms(1,2)] assms(5)
  by blast

text \<open>
  C22: the task only removes expired proofs. Through any events and any storage
  failures, a record that is not due at any tick of the task, in particular a record
  without an expiry, is still there afterwards.
\<close>

theorem sweeps_keep_live_records:
  assumes "any_inv E (storage (cw_vault w))" "\<forall>t \<in> tick_instants es. rfc3339_range t"
    and "any_abs E (storage (cw_vault w)) rid = Some r" "\<forall>t \<in> tick_instants es. \<not> due t r"
  shows "any_abs E (storage (cw_vault (cleanup_events (deployed E) es w))) rid = Some r"
  using shared_vault.cleanup_events_spec [OF assms(1,2)] assms(3,4) by blast

theorem sweeps_keep_live_records_witness:
  "any_abs ref_ext (storage (cw_vault (cleanup_events (deployed ref_ext) [Wake (Some (at_instant 5)), Wake (Some (at_instant 9))]
     (spawn_cleanup_task 300000000000 False sample_db [])))) (replicate 16 1) = Some sample_record"
proof -
  let ?es = "[Wake (Some (at_instant 5)), Wake (Some (at_instant 9))]"
  have t: "tick_instants ?es = {5, 9}"
    by simp
  show ?thesis
    using sweeps_keep_live_records [of ref_ext "spawn_cleanup_task 300000000000 False sample_db []" ?es "replicate 16 1" sample_record] t
    by (simp add: spawn_cleanup_task_def rfc3339_range_def)
qed

text \<open>
  A tick sweeps everything that is due. A wake-up of a running, uncancelled task
  whose storage calls work leaves exactly the records that are not due at its instant.
\<close>

lemma tick_purges_due_records:
  assumes "any_inv E (storage (cw_vault w))" "rfc3339_range (now_check env)" "any_quiet (io_first env) (storage (cw_vault w))"
    and "running w" "\<not> token_cancelled w"
  shows "any_abs E (storage (cw_vault (cleanup_events (deployed E) [Wake (Some env)] w))) =
    purge (now_check env) (any_abs E (storage (cw_vault w)))"
  using arg_cong [OF any_store.cleanup_quiet [OF assms(1-3) surjective_pairing], of snd] assms(4,5)
  by (simp add: cleanup_events_def cleanup_wake_def spec_cleanup_def)

end
