(* ===== verification/Vault_Config.thy ===== *)
theory Vault_Config
  imports Cleanup_Task
begin

text \<open>
  \<^verbatim>\<open>src/config.rs\<close> and the command line of \<^verbatim>\<open>src/main.rs\<close>:
  the configuration records, their defaults, the layers they are loaded from and
  the flags that override them. Names of fields that other records already use
  carry the prefix \<open>cfg_\<close>.
\<close>

section \<open>The configuration\<close>

record server_config =
  bind_address :: string
  auth_token :: "string option"
  tls_cert_path :: "string option"
  tls_key_path :: "string option"
  insecure_no_tls :: bool
  max_proof_size_bytes :: u64

datatype backend_kind = FileBackend | SqliteBackend

record storage_config =
  vault_file :: path
  cleanup_interval_secs :: u64
  backend :: backend_kind
  sqlite_path :: "path option"

record logging_config =
  level :: string

record vault_config =
  cfg_server :: server_config
  cfg_storage :: storage_config
  cfg_logging :: logging_config

definition default_max_proof_size_bytes :: u64 where
  "default_max_proof_size_bytes = 1048576"

text \<open>\<open>data_local_dir\<close> is what the \<open>dirs-next\<close> crate finds.\<close>

definition default_vault_path :: "path option \<Rightarrow> path" where
  "default_vault_path data_local_dir =
     (let base = (case data_local_dir of None \<Rightarrow> [CurDir] | Some p \<Rightarrow> p) in
      path_join (path_join base ''tari_vault'') ''vault.json'')"

definition vault_config_default :: "path option \<Rightarrow> vault_config" where
  "vault_config_default data_local_dir =
     \<lparr>cfg_server = \<lparr>bind_address = ''127.0.0.1:9000'', auth_token = None, tls_cert_path = None, tls_key_path = None,
        insecure_no_tls = False, max_proof_size_bytes = default_max_proof_size_bytes\<rparr>,
      cfg_storage = \<lparr>vault_file = default_vault_path data_local_dir, cleanup_interval_secs = 300,
        backend = FileBackend, sqlite_path = None\<rparr>,
      cfg_logging = \<lparr>level = ''info''\<rparr>\<rparr>"

text \<open>
  The \<open>Debug\<close> form of the server section; \<open>quoted\<close> is the \<open>Debug\<close>
  form of a string. The token only shows whether there is one.
\<close>

definition debug_option :: "('a \<Rightarrow> string) \<Rightarrow> 'a option \<Rightarrow> string" where
  "debug_option f x = (case x of None \<Rightarrow> ''None'' | Some a \<Rightarrow> ''Some('' @ f a @ '')'')"

definition server_config_debug :: "(string \<Rightarrow> string) \<Rightarrow> server_config \<Rightarrow> string" where
  "server_config_debug quoted c =
     ''ServerConfig { bind_address: '' @ quoted (bind_address c) @
     '', auth_token: '' @ debug_option quoted (map_option (\<lambda>_. ''<redacted>'') (auth_token c)) @
     '', tls_cert_path: '' @ debug_option quoted (tls_cert_path c) @
     '', tls_key_path: '' @ debug_option quoted (tls_key_path c) @
     '', insecure_no_tls: '' @ (if insecure_no_tls c then ''true'' else ''false'') @
     '', max_proof_size_bytes: '' @ show_nat (unat (max_proof_size_bytes c)) @ '' }''"

lemma server_config_debug_redacts:
  "server_config_debug quoted (c\<lparr>auth_token := Some t\<rparr>) = server_config_debug quoted (c\<lparr>auth_token := Some t'\<rparr>)"
  by (simp add: server_config_debug_def)

section \<open>Loading\<close>

text \<open>
  The builder of the \<open>config\<close> crate is a parameter: it takes the defaults and
  the sources in ascending priority and returns the deserialised configuration.
\<close>

datatype config_value = CText string | CPath path | CNumber u64

datatype config_source =
    FilePath path bool
  | FileNamed string bool
  | Environment string string bool

type_synonym config_builder = "(string \<times> config_value) list \<Rightarrow> config_source list \<Rightarrow> (vault_config, string) result"

definition load_config :: "config_builder \<Rightarrow> path option \<Rightarrow> path option \<Rightarrow> (vault_config, string) result" where
  "load_config build data_local_dir config_file =
     (let defaults = vault_config_default data_local_dir in
      build
        [(''server.bind_address'', CText (bind_address (cfg_server defaults))),
         (''storage.vault_file'', CPath (vault_file (cfg_storage defaults))),
         (''storage.cleanup_interval_secs'', CNumber (cleanup_interval_secs (cfg_storage defaults))),
         (''storage.backend'', CText ''file''),
         (''logging.level'', CText (level (cfg_logging defaults))),
         (''server.max_proof_size_bytes'', CNumber (max_proof_size_bytes (cfg_server defaults)))]
        [case config_file of Some p \<Rightarrow> FilePath p True | None \<Rightarrow> FileNamed ''vault_config'' False,
         Environment ''VAULT'' ''__'' True])"

section \<open>The command line\<close>

record cli =
  cli_config :: "path option"
  cli_vault_file :: "path option"
  cli_bind :: "string option"
  cli_cleanup_interval :: "u64 option"
  cli_log_level :: "string option"
  cli_auth_token :: "string option"
  cli_sqlite_path :: "path option"
  cli_tls_cert :: "string option"
  cli_tls_key :: "string option"
  cli_insecure_no_tls :: bool

text \<open>
  \<open>Cli::parse\<close> on the flags that were given: \<open>--log-level\<close> has a default
  value, so its field is never empty after parsing.
\<close>

definition cli_parse :: "cli \<Rightarrow> cli" where
  "cli_parse given =
     given\<lparr>cli_log_level := Some (case cli_log_level given of None \<Rightarrow> ''info'' | Some l \<Rightarrow> l)\<rparr>"

text \<open>The overrides of \<open>main\<close>, in its order.\<close>

definition override :: "'a option \<Rightarrow> ('a \<Rightarrow> 'c \<Rightarrow> 'c) \<Rightarrow> 'c \<Rightarrow> 'c" where
  "override x put c = (case x of None \<Rightarrow> c | Some a \<Rightarrow> put a c)"

definition apply_cli :: "cli \<Rightarrow> vault_config \<Rightarrow> vault_config" where
  "apply_cli cl cfg =
     (let cfg = override (cli_vault_file cl) (\<lambda>p. cfg_storage_update (vault_file_update (\<lambda>_. p))) cfg;
          cfg = override (cli_sqlite_path cl) (\<lambda>p. cfg_storage_update (sqlite_path_update (\<lambda>_. Some p))) cfg;
          cfg = override (cli_bind cl) (\<lambda>b. cfg_server_update (bind_address_update (\<lambda>_. b))) cfg;
          cfg = override (cli_cleanup_interval cl) (\<lambda>s. cfg_storage_update (cleanup_interval_secs_update (\<lambda>_. s))) cfg;
          cfg = override (cli_log_level cl) (\<lambda>l. cfg_logging_update (level_update (\<lambda>_. l))) cfg;
          cfg = override (cli_auth_token cl) (\<lambda>t. cfg_server_update (auth_token_update (\<lambda>_. Some t))) cfg;
          cfg = override (cli_tls_cert cl) (\<lambda>c. cfg_server_update (tls_cert_path_update (\<lambda>_. Some c))) cfg;
          cfg = override (cli_tls_key cl) (\<lambda>k. cfg_server_update (tls_key_path_update (\<lambda>_. Some k))) cfg
      in if cli_insecure_no_tls cl then cfg_server_update (insecure_no_tls_update (\<lambda>_. True)) cfg else cfg)"

text \<open>
  What the command line does to the configuration. Every flag that is given wins
  over the loaded value, every flag that is not given leaves it, and the insecure flag
  can only switch the check off; the log level is the exception: the loaded level is
  never used, because the flag always has a value.
\<close>

lemma command_line_precedence:
  "let c = apply_cli (cli_parse cl) cfg in
     vault_file (cfg_storage c) = (case cli_vault_file cl of None \<Rightarrow> vault_file (cfg_storage cfg) | Some p \<Rightarrow> p) \<and>
     sqlite_path (cfg_storage c) = (case cli_sqlite_path cl of None \<Rightarrow> sqlite_path (cfg_storage cfg) | Some p \<Rightarrow> Some p) \<and>
     backend (cfg_storage c) = backend (cfg_storage cfg) \<and>
     cleanup_interval_secs (cfg_storage c) =
       (case cli_cleanup_interval cl of None \<Rightarrow> cleanup_interval_secs (cfg_storage cfg) | Some s \<Rightarrow> s) \<and>
     bind_address (cfg_server c) = (case cli_bind cl of None \<Rightarrow> bind_address (cfg_server cfg) | Some b \<Rightarrow> b) \<and>
     auth_token (cfg_server c) = (case cli_auth_token cl of None \<Rightarrow> auth_token (cfg_server cfg) | Some t \<Rightarrow> Some t) \<and>
     tls_cert_path (cfg_server c) = (case cli_tls_cert cl of None \<Rightarrow> tls_cert_path (cfg_server cfg) | Some p \<Rightarrow> Some p) \<and>
     tls_key_path (cfg_server c) = (case cli_tls_key cl of None \<Rightarrow> tls_key_path (cfg_server cfg) | Some p \<Rightarrow> Some p) \<and>
     insecure_no_tls (cfg_server c) = (insecure_no_tls (cfg_server cfg) \<or> cli_insecure_no_tls cl) \<and>
     max_proof_size_bytes (cfg_server c) = max_proof_size_bytes (cfg_server cfg) \<and>
     level (cfg_logging c) = (case cli_log_level cl of None \<Rightarrow> ''info'' | Some l \<Rightarrow> l)"
  by (simp add: apply_cli_def cli_parse_def override_def Let_def split: option.splits)

text \<open>The loaded logging section has no effect at all.\<close>

lemma logging_section_ignored:
  "apply_cli (cli_parse cl) (cfg\<lparr>cfg_logging := lg\<rparr>) = apply_cli (cli_parse cl) cfg"
  by (cases lg; cases cfg; cases "cfg_logging cfg"; cases "cli_vault_file cl"; cases "cli_sqlite_path cl"; cases "cli_bind cl";
      cases "cli_cleanup_interval cl"; cases "cli_auth_token cl"; cases "cli_tls_cert cl"; cases "cli_tls_key cl")
    (simp_all add: apply_cli_def cli_parse_def override_def Let_def)

end
