(* ===== verification/Vault_Main.thy ===== *)
theory Vault_Main
  imports Vault_Config
begin

text \<open>
  \<^verbatim>\<open>src/main.rs\<close>: from the configuration to the running service and its
  shutdown. The world of \<open>main\<close> is the file system and the databases; what it
  does that others can observe is the list of its milestones. The environment of a
  run says which of its calls fail.
\<close>

datatype milestone =
    LoggingStarted string
  | StorageOpened backend_kind
  | StartupSweep nat
  | CleanupEnabled u64
  | CleanupDisabled
  | InsecureWarning
  | ServerListening string bool
  | SignalReceived
  | ServerStopped
  | TokenCancelled
  | CleanupAwaited
  | ShutdownComplete

text \<open>
  \<open>RUST_LOG\<close>, and the parsers of \<open>tracing-subscriber\<close> for filter
  directives: \<open>try_new\<close> reports an error where \<open>new\<close> skips what it
  cannot read. A filter is its directives, as text.
\<close>

record main_env =
  rust_log :: "string option"
  filter_try_new :: "string \<Rightarrow> string option"
  filter_new :: "string \<Rightarrow> string"
  open_io :: any_io
  sweep_env :: "any_io call_env"
  net :: net_io
  ctrl_c :: "string option"
  server_stop :: "string option"

record app =
  app_vault :: "any_backend vault"
  app_cleanup :: "any_backend vault cleanup_world option"
  app_server :: server

type_synonym world = "fs \<times> (path \<rightharpoonup> db_file)"

definition init_logging :: "main_env \<Rightarrow> vault_config \<Rightarrow> string" where
  "init_logging env cfg =
     (case Option.bind (rust_log env) (filter_try_new env) of
        Some directives \<Rightarrow> directives
      | None \<Rightarrow> filter_new env (level (cfg_logging cfg)))"

definition sqlite_file :: "vault_config \<Rightarrow> path" where
  "sqlite_file cfg =
     (case sqlite_path (cfg_storage cfg) of
        Some p \<Rightarrow> p | None \<Rightarrow> path_with_file_name ''vault.db'' (vault_file (cfg_storage cfg)))"

definition open_storage :: "ext \<Rightarrow> any_io \<Rightarrow> vault_config \<Rightarrow> world \<Rightarrow> (any_backend, string) result" where
  "open_storage E io cfg w =
     (case backend (cfg_storage cfg) of
        FileBackend \<Rightarrow>
          (case local_file_new E (file_part io) (vault_file (cfg_storage cfg)) (fst w) of
             (Ok _, d) \<Rightarrow> Ok (File (vault_file (cfg_storage cfg)) d)
           | (Err e, _) \<Rightarrow> Err ''Failed to open vault storage file''
           | (Panic m, _) \<Rightarrow> Panic m)
      | SqliteBackend \<Rightarrow>
          (case sqlite_new (sqlite_part io) (sqlite_file cfg) (snd w (sqlite_file cfg)) of
             (Ok _, Some db) \<Rightarrow> Ok (Sqlite db)
           | (Ok _, None) \<Rightarrow> Err ''Failed to open SQLite database''
           | (Err e, _) \<Rightarrow> Err ''Failed to open SQLite database''
           | (Panic m, _) \<Rightarrow> Panic m))"

definition tls_of :: "server_config \<Rightarrow> (tls_config option, string) result" where
  "tls_of c =
     (case (tls_cert_path c, tls_key_path c) of
        (Some cert, Some key) \<Rightarrow> Ok (Some \<lparr>cert_path = cert, key_path = key\<rparr>)
      | (None, None) \<Rightarrow> Ok None
      | _ \<Rightarrow> Err ''TLS requires both --tls-cert and --tls-key to be specified'')"

text \<open>
  Up to the listening server. Steps append their milestones; an error keeps those
  reached so far.
\<close>

definition main_start ::
  "ext \<Rightarrow> main_env \<Rightarrow> vault_config \<Rightarrow> world \<Rightarrow> (app, string) result \<times> milestone list" where
  "main_start E env cfg w =
     try_op (open_storage E (open_io env) cfg w, [LoggingStarted (init_logging env cfg)]) (\<lambda>storage ms.
     let ms = ms @ [StorageOpened (backend (cfg_storage cfg))] in
     (case cleanup (any_backend_ops E) (sweep_env env) (vault_new storage) of
        (Err e, _) \<Rightarrow> (Err ''Startup cleanup failed'', ms)
      | (Panic m, _) \<Rightarrow> (Panic m, ms)
      | (Ok purged, v) \<Rightarrow>
          let ms = ms @ [StartupSweep purged];
              secs = cleanup_interval_secs (cfg_storage cfg);
              task = (if secs > 0 then Some (spawn_cleanup_task (unat secs * 1000000000) False v []) else None);
              ms = ms @ [if secs > 0 then CleanupEnabled secs else CleanupDisabled] in
          try_op (tls_of (cfg_server cfg), ms) (\<lambda>tls ms.
          let ms = (if insecure_no_tls (cfg_server cfg) then ms @ [InsecureWarning] else ms) in
          try_op (map_err (\<lambda>_. ''Failed to start RPC server'')
                    (start_server (net env) (bind_address (cfg_server cfg)) (auth_token (cfg_server cfg)) tls
                       (insecure_no_tls (cfg_server cfg)) (max_proof_size_bytes (cfg_server cfg))), ms) (\<lambda>srv ms.
          (Ok \<lparr>app_vault = v, app_cleanup = task, app_server = srv\<rparr>,
           ms @ [ServerListening (public_addr srv) (public_tls srv)])))))"



section \<open>Properties\<close>

lemma main_start_Ok:
  assumes "main_start E env cfg w = (Ok a, ms)"
  obtains s purged v tls where "open_storage E (open_io env) cfg w = Ok s"
    "cleanup (any_backend_ops E) (sweep_env env) (vault_new s) = (Ok purged, v)"
    "tls_of (cfg_server cfg) = Ok tls"
    "start_server (net env) (bind_address (cfg_server cfg)) (auth_token (cfg_server cfg)) tls
       (insecure_no_tls (cfg_server cfg)) (max_proof_size_bytes (cfg_server cfg)) = Ok (app_server a)"
    "app_vault a = v"
    "app_cleanup a = (if cleanup_interval_secs (cfg_storage cfg) > 0
       then Some (spawn_cleanup_task (unat (cleanup_interval_secs (cfg_storage cfg)) * 1000000000) False v []) else None)"
proof -
  obtain s where s: "open_storage E (open_io env) cfg w = Ok s"
    using assms by (cases "open_storage E (open_io env) cfg w") (auto simp: main_start_def)
  obtain q v where q: "cleanup (any_backend_ops E) (sweep_env env) (vault_new s) = (q, v)" by fastforce
  obtain purged where p: "q = Ok purged"
    using assms s q by (cases q) (auto simp: main_start_def)
  obtain tls where t: "tls_of (cfg_server cfg) = Ok tls"
    using assms s q p by (cases "tls_of (cfg_server cfg)") (auto simp: main_start_def Let_def)
  obtain srv where srv: "start_server (net env) (bind_address (cfg_server cfg)) (auth_token (cfg_server cfg)) tls
       (insecure_no_tls (cfg_server cfg)) (max_proof_size_bytes (cfg_server cfg)) = Ok srv"
    using assms s q p t
    by (cases "start_server (net env) (bind_address (cfg_server cfg)) (auth_token (cfg_server cfg)) tls
       (insecure_no_tls (cfg_server cfg)) (max_proof_size_bytes (cfg_server cfg))") (auto simp: main_start_def Let_def)
  have "app_server a = srv" "app_vault a = v"
    "app_cleanup a = (if cleanup_interval_secs (cfg_storage cfg) > 0
       then Some (spawn_cleanup_task (unat (cleanup_interval_secs (cfg_storage cfg)) * 1000000000) False v []) else None)"
    using assms s q p t srv by (auto simp: main_start_def Let_def)
  then show thesis using that s q p t srv by blast
qed

text \<open>What is on disk before the start, and that it is well formed.\<close>

definition world_ok :: "ext \<Rightarrow> vault_config \<Rightarrow> world \<Rightarrow> bool" where
  "world_ok E cfg w \<longleftrightarrow>
     (case backend (cfg_storage cfg) of
        FileBackend \<Rightarrow> file_laws E \<and> path_parent (vault_file (cfg_storage cfg)) \<noteq> None \<and>
          (fst w (vault_file (cfg_storage cfg)) \<noteq> None \<longrightarrow> file_inv E (vault_file (cfg_storage cfg)) (fst w))
      | SqliteBackend \<Rightarrow> chrono_rfc3339_laws E \<and>
          (\<forall>f. snd w (sqlite_file cfg) = Some f \<and> proofs f \<noteq> None \<longrightarrow> sqlite_inv E f))"

definition records_on_disk :: "ext \<Rightarrow> vault_config \<Rightarrow> world \<Rightarrow> store" where
  "records_on_disk E cfg w =
     (case backend (cfg_storage cfg) of
        FileBackend \<Rightarrow> if fst w (vault_file (cfg_storage cfg)) = None then Map.empty
                       else file_abs E (vault_file (cfg_storage cfg)) (fst w)
      | SqliteBackend \<Rightarrow> (case snd w (sqlite_file cfg) of None \<Rightarrow> Map.empty | Some f \<Rightarrow> sqlite_abs E f))"

lemma open_storage_Ok:
  assumes "world_ok E cfg w" "open_storage E io cfg w = Ok s"
  shows "any_inv E s \<and> any_abs E s = records_on_disk E cfg w"
proof (cases "backend (cfg_storage cfg)")
  case FileBackend
  obtain q d where q: "local_file_new E (file_part io) (vault_file (cfg_storage cfg)) (fst w) = (q, d)" by fastforce
  then have "q = Ok ()" "s = File (vault_file (cfg_storage cfg)) d"
    using assms(2) FileBackend by (cases q; auto simp: open_storage_def)+
  then show ?thesis
    using local_file_new_Ok [of E "vault_file (cfg_storage cfg)" "fst w" "file_part io" d] q assms(1) FileBackend
    by (auto simp: world_ok_def records_on_disk_def)
next
  case SqliteBackend
  obtain q db where q: "sqlite_new (sqlite_part io) (sqlite_file cfg) (snd w (sqlite_file cfg)) = (q, db)" by fastforce
  then obtain f where "q = Ok ()" "db = Some f" "s = Sqlite f"
    using assms(2) SqliteBackend by (cases q; cases db) (auto simp: open_storage_def)
  then show ?thesis
    using sqlite_new_Ok [of E "snd w (sqlite_file cfg)" "sqlite_part io" "sqlite_file cfg" db] q assms(1) SqliteBackend
    by (auto simp: world_ok_def records_on_disk_def)
qed

text \<open>
  C21: what a started service is. When \<open>main\<close> reaches the listening server, the
  vault is well formed and holds exactly the records found on disk less those due at
  the startup sweep; a certificate without a key (or a key without a certificate)
  does not get that far; plain HTTP without the override means a loopback address;
  and every request passes the configured authentication.
\<close>

theorem startup_establishes_service:
  assumes "world_ok E cfg w" "rfc3339_range (now_check (sweep_env env))" "main_start E env cfg w = (Ok a, ms)"
  shows "any_inv E (storage (app_vault a)) \<and>
    any_abs E (storage (app_vault a)) = purge (now_check (sweep_env env)) (records_on_disk E cfg w) \<and>
    (tls_cert_path (cfg_server cfg) = None \<longleftrightarrow> tls_key_path (cfg_server cfg) = None) \<and>
    (tls_cert_path (cfg_server cfg) = None \<and> \<not> insecure_no_tls (cfg_server cfg) \<longrightarrow>
      (\<exists>addr. parse_socket_addr (public_addr (app_server a)) = Some addr \<and> is_loopback (sa_ip addr))) \<and>
    auth_layer (app_server a) = bearer_from_config (auth_token (cfg_server cfg))"
proof -
  obtain s purged v tls where s: "open_storage E (open_io env) cfg w = Ok s"
    and q: "cleanup (any_backend_ops E) (sweep_env env) (vault_new s) = (Ok purged, v)"
    and t: "tls_of (cfg_server cfg) = Ok tls"
    and srv: "start_server (net env) (bind_address (cfg_server cfg)) (auth_token (cfg_server cfg)) tls
       (insecure_no_tls (cfg_server cfg)) (max_proof_size_bytes (cfg_server cfg)) = Ok (app_server a)"
    and v: "app_vault a = v"
    using main_start_Ok [OF assms(3)] by metis
  have inv: "any_inv E (storage (vault_new s))" and abs: "any_abs E (storage (vault_new s)) = records_on_disk E cfg w"
    using open_storage_Ok [OF assms(1) s] by (simp_all add: vault_new_def)
  have sweep: "any_inv E (storage v)" "any_abs E (storage v) = purge (now_check (sweep_env env)) (records_on_disk E cfg w)"
    using any_store.cleanup_conforms [OF inv assms(2) q] abs by (auto simp: conforms_def spec_cleanup_def)
  have tls: "tls_cert_path (cfg_server cfg) = None \<longleftrightarrow> tls_key_path (cfg_server cfg) = None"
    "tls_cert_path (cfg_server cfg) = None \<longrightarrow> tls = None"
    using t by (auto simp: tls_of_def split: option.splits)
  show ?thesis
    using sweep tls start_server_Ok [OF srv] v by auto
qed



section \<open>Instances\<close>

text \<open>A first start with the SQLite backend and every other setting at its default.\<close>

definition first_config :: vault_config where
  "first_config = cfg_storage_update (backend_update (\<lambda>_. SqliteBackend)) (vault_config_default (Some [RootDir, Normal ''srv'']))"

definition calm_env :: main_env where
  "calm_env = \<lparr>rust_log = None, filter_try_new = Some, filter_new = id, open_io = calm_io, sweep_env = at_instant 5, net = (\<lambda>_. None), ctrl_c = None, server_stop = None\<rparr>"


definition empty_world :: world where
  "empty_world = (Map.empty, Map.empty)"

lemma first_start: "\<exists>a ms. main_start ref_ext calm_env first_config empty_world = (Ok a, ms)"
proof -
  have open_ok: "open_storage ref_ext calm_io first_config empty_world = Ok (Sqlite \<lparr>proofs = Some [], db_mode = 0x180\<rparr>)"
    by (simp add: open_storage_def first_config_def empty_world_def sqlite_new_def db_sys_def calm_io_def Let_def sql_create_table_def)
  obtain q v where q: "cleanup (any_backend_ops ref_ext) (at_instant 5) (vault_new (Sqlite \<lparr>proofs = Some [], db_mode = 0x180\<rparr>)) = (q, v)"
    by fastforce
  have "q = Ok (card {rid. \<exists>r. any_abs ref_ext (storage empty_db) rid = Some r \<and> due 5 r})"
    using any_store.cleanup_quiet [of ref_ext empty_db "at_instant 5" q v] q
    by (simp add: empty_db_def [symmetric] spec_cleanup_def rfc3339_range_def)
  moreover obtain srv where "start_server (\<lambda>_. None) ''127.0.0.1:9000'' None None False default_max_proof_size_bytes = Ok srv"
    using plain_http_refused [of "\<lambda>_. None" "''127.0.0.1:9000''" None default_max_proof_size_bytes]
    by (cases "start_server (\<lambda>_. None) ''127.0.0.1:9000'' None None False default_max_proof_size_bytes")
      (auto simp: parse_loopback_texts start_server_def start_plain_def net_sys_def check_tls_for_non_loopback_def)
  ultimately show ?thesis
    using q by (simp add: main_start_def calm_env_def open_ok)
      (simp add: first_config_def vault_config_default_def tls_of_def)
qed



theorem startup_establishes_service_witness:
  "\<exists>a ms. main_start ref_ext calm_env first_config empty_world = (Ok a, ms) \<and> any_inv ref_ext (storage (app_vault a))"
proof -
  obtain a ms where st: "main_start ref_ext calm_env first_config empty_world = (Ok a, ms)"
    using first_start by blast
  have "world_ok ref_ext first_config empty_world"
    by (simp add: world_ok_def first_config_def empty_world_def ref_laws)
  from startup_establishes_service [OF this _ st] st show ?thesis
    by (simp add: calm_env_def rfc3339_range_def)
qed

end
