(* ===== verification/Vault_Service.thy ===== *)
theory Vault_Service
  imports Rpc_Server
begin

text \<open>
  The whole path of a request: the authentication layer of \<^verbatim>\<open>src/auth.rs\<close>
  around the handlers of \<^verbatim>\<open>src/rpc/server.rs\<close> around the shared vault, and
  sequences of requests to one server.
\<close>

section \<open>A request from the wire to the vault\<close>

text \<open>
  What a decoded JSON-RPC request asks for and what is answered; \<open>CallRefused\<close>
  is the library's own answer to a call it cannot dispatch. Framing, routing, the body
  limit and parameter decoding come between the authentication layer and the handlers
  (\<open>Rpc_Wire\<close>); here every decoded request reaches its handler.
\<close>

datatype rpc_call = CallStore store_proof_params | CallRetrieve string | CallDelete string | CallDiscover

datatype rpc_reply =
    NoReply
  | StoreReply "(string, error_object) result"
  | RetrieveReply "(proof_object, error_object) result"
  | DeleteReply "(unit, error_object) result"
  | DiscoverReply "(json, error_object) result"
  | CallRefused error_object

text \<open>
  The service behind the layer: the handler of the method over the shared vault; the
  library answers over HTTP with status 200. \<open>env\<close> is the environment in
  which the call runs, \<open>openrpc_spec\<close> the embedded document.
\<close>

definition vault_service ::
  "ext \<Rightarrow> string \<Rightarrow> ('v, 'env) proof_vault \<Rightarrow> u64 \<Rightarrow> 'env \<Rightarrow> (rpc_call, rpc_reply, unit, 'v rpc_state logged) service" where
  "vault_service E openrpc_spec PV limit env =
     \<lparr>svc_poll_ready = (\<lambda>s. (Ready (Ok ()), s)),
      svc_call = (\<lambda>req (st, log).
        let (reply, st') =
          (case req_body req of
             CallStore params \<Rightarrow> map_prod StoreReply id (rpc_store_proof E PV limit env params st)
           | CallRetrieve tok \<Rightarrow> map_prod RetrieveReply id (rpc_retrieve_proof E PV env tok st)
           | CallDelete tok \<Rightarrow> map_prod DeleteReply id (rpc_delete_proof PV env tok st)
           | CallDiscover \<Rightarrow> (DiscoverReply (discover E openrpc_spec), st))
        in (Ok \<lparr>status = 200, resp_headers = [], resp_body = reply\<rparr>, (st', log)))\<rparr>"

section \<open>Sequences of requests\<close>

text \<open>
  A server answers its requests through the layer it was started with; each request
  comes with the environment its handler runs in.
\<close>

type_synonym timed_request = "any_io call_env \<times> rpc_call http_request"

type_synonym service_state = "any_backend vault rpc_state logged"

definition serve_one ::
  "ext \<Rightarrow> string \<Rightarrow> u64 \<Rightarrow> server \<Rightarrow> timed_request \<Rightarrow> service_state \<Rightarrow>
     (rpc_reply http_response, unit) result \<times> service_state" where
  "serve_one E openrpc_spec limit srv r s =
     svc_call (bearer_layer E NoReply (auth_layer srv) (vault_service E openrpc_spec (deployed E) limit (fst r))) (snd r) s"

fun serve ::
  "ext \<Rightarrow> string \<Rightarrow> u64 \<Rightarrow> server \<Rightarrow> timed_request list \<Rightarrow> service_state \<Rightarrow>
     (rpc_reply http_response, unit) result list \<times> service_state" where
  "serve E openrpc_spec limit srv [] s = ([], s)"
| "serve E openrpc_spec limit srv (r # rs) s =
     (case serve_one E openrpc_spec limit srv r s of (a, s1) \<Rightarrow>
      (case serve E openrpc_spec limit srv rs s1 of (as, s2) \<Rightarrow> (a # as, s2)))"

definition authorized :: "string \<Rightarrow> 'b http_request \<Rightarrow> bool" where
  "authorized t req \<longleftrightarrow> map_of (req_headers req) ''authorization'' = Some (as_bytes (''Bearer '' @ t))"

text \<open>The vault operation a request leads to, if it leads to one.\<close>

definition request_op :: "ext \<Rightarrow> u64 \<Rightarrow> any_io call_env \<Rightarrow> rpc_call \<Rightarrow> any_io vault_op option" where
  "request_op E limit env call =
     (case call of
        CallStore params \<Rightarrow>
          if length (serde_to_string E (proof_json params)) > unat limit then None
          else Some (OpStore env (proof_from_bytes (as_bytes (serde_to_string E (proof_json params)))) (expires_in_secs params))
      | CallRetrieve tok \<Rightarrow> Some (OpRetrieve env tok)
      | CallDelete tok \<Rightarrow> Some (OpDelete env tok)
      | CallDiscover \<Rightarrow> None)"

definition op_effect :: "ext \<Rightarrow> any_io vault_op option \<Rightarrow> any_backend vault \<Rightarrow> any_backend vault" where
  "op_effect E x v = (case x of None \<Rightarrow> v | Some op \<Rightarrow> snd (run_op E (any_backend_ops E) op v))"

lemma rpc_retrieve_vault_eq:
  "rpc_vault (snd (rpc_retrieve_proof E PV env tok st)) = snd (pv_retrieve_proof PV env tok (rpc_vault st))"
proof -
  obtain r v where r: "pv_retrieve_proof PV env tok (rpc_vault st) = (r, v)" by fastforce
  show ?thesis
  proof (cases r)
    case (Ok p)
    then show ?thesis
      using r by (cases "proof_into_json E p") (simp_all add: rpc_retrieve_proof_def vault_to_rpc_err_def Let_def)
  qed (use r in \<open>simp_all add: rpc_retrieve_proof_def vault_to_rpc_err_def Let_def\<close>)
qed

lemma rpc_delete_vault_eq:
  "rpc_vault (snd (rpc_delete_proof PV env tok st)) = snd (pv_delete_proof PV env tok (rpc_vault st))"
  by (simp add: rpc_delete_proof_def on_vault_def split_beta)

lemma rpc_store_vault_eq:
  assumes "serde_json_laws E"
  shows "rpc_vault (snd (rpc_store_proof E PV limit env params st)) =
    (if length (serde_to_string E (proof_json params)) > unat limit then rpc_vault st
     else snd (pv_store_proof PV env (proof_from_bytes (as_bytes (serde_to_string E (proof_json params))))
       (expires_in_secs params) (rpc_vault st)))"
  using proof_from_json_Ok [OF assms, of "proof_json params"]
  by (simp add: rpc_store_proof_def vault_to_rpc_err_def Let_def on_vault_def split_beta)

lemma service_vault:
  assumes "serde_json_laws E"
  shows "rpc_vault (fst (snd (svc_call (vault_service E spec (deployed E) limit env) req s))) =
    op_effect E (request_op E limit env (req_body req)) (rpc_vault (fst s))"
  using assms
  by (cases "req_body req"; cases s)
    (simp_all add: vault_service_def request_op_def op_effect_def rpc_retrieve_vault_eq rpc_delete_vault_eq
      rpc_store_vault_eq split_beta)

text \<open>
  On a server with a usable token, a request does to the vault what its operation does
  if it presents the token, and nothing otherwise.
\<close>

definition token_server :: "ext \<Rightarrow> string \<Rightarrow> server \<Rightarrow> bool" where
  "token_server E t srv \<longleftrightarrow> header_laws E \<and> ct_eq_laws E \<and> serde_json_laws E \<and> t \<noteq> [] \<and>
     list_all visible_ascii (as_bytes (''Bearer '' @ t)) \<and> auth_layer srv = bearer_from_config (Some t)"

lemma serve_one_eq:
  assumes "token_server E t srv"
  shows "serve_one E spec limit srv (env, req) s =
    (if authorized t req then svc_call (vault_service E spec (deployed E) limit env) req s
     else (Ok (unauthorized_response NoReply),
           (fst s, snd s @ [(''tari_vault::auth'', ''Rejected request: missing or invalid Bearer token'')])))"
proof -
  have a: "header_laws E" "ct_eq_laws E" "t \<noteq> []" "list_all visible_ascii (as_bytes (''Bearer '' @ t))"
    "auth_layer srv = bearer_from_config (Some t)"
    using assms by (simp_all add: token_server_def)
  show ?thesis
    using bearer_gate [OF a(1-3), of NoReply "vault_service E spec (deployed E) limit env" req s] a(4)
    by (simp only: serve_one_def a(5) authorized_def fst_conv snd_conv simp_thms)
qed

lemma serve_one_vault:
  assumes "token_server E t srv"
  shows "rpc_vault (fst (snd (serve_one E spec limit srv (env, req) s))) =
    op_effect E (if authorized t req then request_op E limit env (req_body req) else None) (rpc_vault (fst s))"
proof -
  have "serde_json_laws E" using assms by (simp add: token_server_def)
  note effect = service_vault [OF this, of spec limit env req s]
  show ?thesis
    unfolding serve_one_eq [OF assms] by (simp add: effect [unfolded op_effect_def] op_effect_def del: arc_vault_id)
qed

text \<open>The operations that the authorized requests of a sequence lead to.\<close>

definition request_ops :: "ext \<Rightarrow> u64 \<Rightarrow> string \<Rightarrow> timed_request list \<Rightarrow> any_io vault_op list" where
  "request_ops E limit t rs =
     List.map_filter (\<lambda>(env, req). if authorized t req then request_op E limit env (req_body req) else None) rs"

lemma serve_vault:
  assumes "token_server E t srv"
  shows "rpc_vault (fst (snd (serve E spec limit srv rs s))) =
    snd (run_ops E (any_backend_ops E) (request_ops E limit t rs) (rpc_vault (fst s)))"
proof (induction rs arbitrary: s)
  case (Cons r rs)
  obtain env req where r: "r = (env, req)" by (cases r)
  show ?case
    using Cons.IH [of "snd (serve_one E spec limit srv r s)"] serve_one_vault [OF assms, of spec limit env req s]
    by (cases "if authorized t req then request_op E limit env (req_body req) else None")
      (auto simp: r request_ops_def map_filter_simps op_effect_def split_beta)
qed (simp add: request_ops_def map_filter_simps)

end
