(* ===== verification/Tls_Proxy.thy ===== *)
theory Tls_Proxy
  imports Rpc_Server
begin

text \<open>
  The accept loop of \<open>start_tls\<close> (\<^verbatim>\<open>src/rpc/server.rs\<close>). The
  public listener accepts connections; every connection has a task of its own that
  performs the TLS handshake, connects to the plain server on the loopback address
  and then hands both streams to \<open>copy_bidirectional\<close> until that returns. The
  network, \<open>rustls\<close> and \<open>copy_bidirectional\<close> act from outside: an
  event says what they did next, and the program reacts to it. Which bytes a copy writes
  to the plain server or to the client is part of the event; what the program decides
  is whether a connection gets as far as copying.
\<close>

section \<open>Connections\<close>

datatype conn_phase = Handshaking | Connecting | Copying | Finished

record conn =
  peer :: string
  phase :: conn_phase
  to_plain :: bytes
  to_client :: bytes

record proxy =
  conns :: "conn list"
  plain_conns :: nat
  proxy_log :: "log_line list"

datatype proxy_event =
    Accept "(string, string) result"
  | Handshake nat "(unit, string) result"
  | ConnectPlain nat "(unit, string) result"
  | CopyUp nat bytes
  | CopyDown nat bytes
  | CopyEnd nat "(unit, string) result"

definition note_proxy :: "log_level \<Rightarrow> string \<Rightarrow> proxy \<Rightarrow> proxy" where
  "note_proxy lv msg s = s\<lparr>proxy_log := proxy_log s @ [(lv, ''tari_vault::rpc'', msg)]\<rparr>"

definition put_conn :: "nat \<Rightarrow> conn \<Rightarrow> proxy \<Rightarrow> proxy" where
  "put_conn i c s = s\<lparr>conns := (conns s)[i := c]\<rparr>"

definition conn_is :: "proxy \<Rightarrow> nat \<Rightarrow> conn_phase \<Rightarrow> bool" where
  "conn_is s i ph \<longleftrightarrow> i < length (conns s) \<and> phase (conns s ! i) = ph"

section \<open>The loop and the tasks\<close>

text \<open>One turn of the accept loop: an error is logged and the loop continues.\<close>

definition on_accept :: "(string, string) result \<Rightarrow> proxy \<Rightarrow> proxy" where
  "on_accept r s =
     (case r of
        Ok p \<Rightarrow> s\<lparr>conns := conns s @ [\<lparr>peer = p, phase = Handshaking, to_plain = [], to_client = []\<rparr>]\<rparr>
      | Err e \<Rightarrow> note_proxy WARN (''TLS accept error: '' @ e) s
      | Panic m \<Rightarrow> s)"

definition on_handshake :: "nat \<Rightarrow> (unit, string) result \<Rightarrow> proxy \<Rightarrow> proxy" where
  "on_handshake i r s =
     (let c = conns s ! i in
      case r of
        Ok _ \<Rightarrow> put_conn i (c\<lparr>phase := Connecting\<rparr>) s
      | Err e \<Rightarrow> put_conn i (c\<lparr>phase := Finished\<rparr>) (note_proxy WARN (''TLS handshake failed from '' @ peer c @ '': '' @ e) s)
      | Panic m \<Rightarrow> put_conn i (c\<lparr>phase := Finished\<rparr>) s)"

definition on_connect :: "nat \<Rightarrow> (unit, string) result \<Rightarrow> proxy \<Rightarrow> proxy" where
  "on_connect i r s =
     (let c = conns s ! i in
      case r of
        Ok _ \<Rightarrow> put_conn i (c\<lparr>phase := Copying\<rparr>) (s\<lparr>plain_conns := Suc (plain_conns s)\<rparr>)
      | Err e \<Rightarrow> put_conn i (c\<lparr>phase := Finished\<rparr>) (note_proxy WARN (''Failed to connect to plain server: '' @ e) s)
      | Panic m \<Rightarrow> put_conn i (c\<lparr>phase := Finished\<rparr>) s)"

definition on_copy_end :: "nat \<Rightarrow> (unit, string) result \<Rightarrow> proxy \<Rightarrow> proxy" where
  "on_copy_end i r s =
     (let c = conns s ! i in
      put_conn i (c\<lparr>phase := Finished\<rparr>)
        (case r of Err e \<Rightarrow> note_proxy DEBUG (''TLS proxy connection closed: '' @ e) s | _ \<Rightarrow> s))"

fun proxy_react :: "proxy_event \<Rightarrow> proxy \<Rightarrow> proxy" where
  "proxy_react (Accept r) s = on_accept r s"
| "proxy_react (Handshake i r) s = (if conn_is s i Handshaking then on_handshake i r s else s)"
| "proxy_react (ConnectPlain i r) s = (if conn_is s i Connecting then on_connect i r s else s)"
| "proxy_react (CopyUp i bs) s =
     (if conn_is s i Copying then put_conn i ((conns s ! i)\<lparr>to_plain := to_plain (conns s ! i) @ bs\<rparr>) s else s)"
| "proxy_react (CopyDown i bs) s =
     (if conn_is s i Copying then put_conn i ((conns s ! i)\<lparr>to_client := to_client (conns s ! i) @ bs\<rparr>) s else s)"
| "proxy_react (CopyEnd i r) s = (if conn_is s i Copying then on_copy_end i r s else s)"

definition proxy_run :: "proxy_event list \<Rightarrow> proxy \<Rightarrow> proxy" where
  "proxy_run es s = fold proxy_react es s"

definition proxy_init :: proxy where
  "proxy_init = \<lparr>conns = [], plain_conns = 0, proxy_log = []\<rparr>"

section \<open>How a connection came to be where it is\<close>

fun accepted :: "proxy_event \<Rightarrow> bool" where
  "accepted (Accept (Ok p)) = True"
| "accepted _ = False"

definition accepts :: "proxy_event list \<Rightarrow> nat" where
  "accepts es = length (filter accepted es)"

text \<open>
  A connection past the handshake was accepted and then saw its handshake succeed; one
  that copies or has copied saw the connection to the plain server succeed after that.
\<close>

definition shaken :: "nat \<Rightarrow> proxy_event list \<Rightarrow> bool" where
  "shaken i es \<longleftrightarrow> (\<exists>a b. es = a @ Handshake i (Ok ()) # b \<and> i < accepts a)"

definition opened :: "nat \<Rightarrow> proxy_event list \<Rightarrow> bool" where
  "opened i es \<longleftrightarrow> (\<exists>a b. es = a @ ConnectPlain i (Ok ()) # b \<and> shaken i a)"

definition passing :: "conn \<Rightarrow> bool" where
  "passing c \<longleftrightarrow> phase c = Copying \<or> to_plain c \<noteq> [] \<or> to_client c \<noteq> []"

definition conn_history :: "proxy_event list \<Rightarrow> nat \<Rightarrow> conn \<Rightarrow> bool" where
  "conn_history es i c \<longleftrightarrow> (phase c = Connecting \<longrightarrow> shaken i es) \<and> (passing c \<longrightarrow> opened i es)"

definition proxy_history :: "proxy_event list \<Rightarrow> proxy \<Rightarrow> bool" where
  "proxy_history es s \<longleftrightarrow> length (conns s) = accepts es \<and> (\<forall>i < length (conns s). conn_history es i (conns s ! i))"

lemma conns_note [simp]: "conns (note_proxy lv msg s) = conns s" "plain_conns (note_proxy lv msg s) = plain_conns s"
  by (simp_all add: note_proxy_def)

lemmas reactions = on_accept_def on_handshake_def on_connect_def on_copy_end_def Let_def conn_is_def

lemma proxy_run_snoc: "proxy_run (es @ [e]) s = proxy_react e (proxy_run es s)"
  by (simp add: proxy_run_def)

lemma accepts_snoc [simp]: "accepts [] = 0" "accepts (es @ [e]) = accepts es + (if accepted e then 1 else 0)"
  by (simp_all add: accepts_def)

lemma shaken_snoc: "shaken i es \<Longrightarrow> shaken i (es @ [e])" "i < accepts es \<Longrightarrow> shaken i (es @ [Handshake i (Ok ())])"
  by (fastforce simp: shaken_def)+

lemma opened_snoc: "opened i es \<Longrightarrow> opened i (es @ [e])" "shaken i es \<Longrightarrow> opened i (es @ [ConnectPlain i (Ok ())])"
  by (fastforce simp: opened_def)+

lemma opened_order:
  assumes "opened i es"
  shows "\<exists>a b c. es = a @ Handshake i (Ok ()) # b @ ConnectPlain i (Ok ()) # c \<and> i < accepts a"
  using assms by (fastforce simp: opened_def shaken_def)

lemma conn_history_snoc: "conn_history es i c \<Longrightarrow> conn_history (es @ [e]) i c"
  by (auto simp: conn_history_def intro: shaken_snoc opened_snoc)

lemma proxy_history_put:
  assumes "proxy_history es s" "\<not> accepted e" "conns t = conns s" "i < length (conns s) \<Longrightarrow> conn_history (es @ [e]) i c"
  shows "proxy_history (es @ [e]) (put_conn i c t)"
proof -
  have "conn_history (es @ [e]) k ((conns s)[i := c] ! k)" if "k < length (conns s)" for k
    using that assms(1,4) by (cases "k = i") (simp_all add: proxy_history_def conn_history_snoc)
  then show ?thesis
    using assms(1-3) by (simp add: proxy_history_def put_conn_def)
qed

lemma proxy_history_keep: "\<lbrakk>proxy_history es s; \<not> accepted e; conns t = conns s\<rbrakk> \<Longrightarrow> proxy_history (es @ [e]) t"
  by (auto simp: proxy_history_def conn_history_snoc)

lemma proxy_react_history:
  assumes h: "proxy_history es s"
  shows "proxy_history (es @ [e]) (proxy_react e s)"
proof -
  have old: "i < accepts es" "conn_history es i (conns s ! i)" if "conn_is s i ph" for i ph
    using h that by (auto simp: proxy_history_def conn_is_def)
  note keep = proxy_history_keep [OF h] and put = proxy_history_put [OF h]
  note facts = conn_is_def conn_history_def passing_def
  show ?thesis
  proof (cases e)
    case (Accept r)
    then show ?thesis
    proof (cases r)
      case (Ok p)
      with Accept h show ?thesis
        by (auto simp: reactions proxy_history_def nth_append conn_history_snoc) (simp add: conn_history_def passing_def)
    qed (auto simp: on_accept_def Accept intro!: keep)
  next
    case (Handshake i r)
    show ?thesis
    proof (cases "conn_is s i Handshaking")
      case True
      with old [OF True] show ?thesis
        unfolding Handshake by (cases r) (auto simp: on_handshake_def Let_def facts intro!: put intro: shaken_snoc opened_snoc)
    qed (simp add: Handshake keep)
  next
    case (ConnectPlain i r)
    show ?thesis
    proof (cases "conn_is s i Connecting")
      case True
      with old [OF True] show ?thesis
        unfolding ConnectPlain by (cases r) (auto simp: on_connect_def Let_def facts intro!: put intro: shaken_snoc opened_snoc)
    qed (simp add: ConnectPlain keep)
  next
    case (CopyUp i bs)
    show ?thesis
    proof (cases "conn_is s i Copying")
      case True
      with old [OF True] show ?thesis
        unfolding CopyUp by (auto simp: facts intro!: put intro: opened_snoc)
    qed (simp add: CopyUp keep)
  next
    case (CopyDown i bs)
    show ?thesis
    proof (cases "conn_is s i Copying")
      case True
      with old [OF True] show ?thesis
        unfolding CopyDown by (auto simp: facts intro!: put intro: opened_snoc)
    qed (simp add: CopyDown keep)
  next
    case (CopyEnd i r)
    show ?thesis
    proof (cases "conn_is s i Copying")
      case True
      with old [OF True] show ?thesis
        unfolding CopyEnd by (cases r) (auto simp: on_copy_end_def Let_def facts intro!: put intro: opened_snoc)
    qed (simp add: CopyEnd keep)
  qed
qed

lemma proxy_run_history: "proxy_history es (proxy_run es proxy_init)"
proof (induction es rule: rev_induct)
  case (snoc e es)
  then show ?case unfolding proxy_run_snoc by (rule proxy_react_history)
qed (simp add: proxy_history_def proxy_run_def proxy_init_def)

section \<open>At most one plain connection per client\<close>

fun pending :: "conn_phase \<Rightarrow> nat" where
  "pending Handshaking = 1"
| "pending Connecting = 1"
| "pending _ = 0"

definition plain_budget :: "proxy \<Rightarrow> bool" where
  "plain_budget s \<longleftrightarrow> plain_conns s + sum_list (map (pending \<circ> phase) (conns s)) \<le> length (conns s)"

lemma plain_budget_put:
  assumes "plain_budget s" "i < length (conns s)" "conns t = conns s"
    and "plain_conns t + pending (phase c) \<le> plain_conns s + pending (phase (conns s ! i))"
  shows "plain_budget (put_conn i c t)"
  using assms sum_list_update_nat [OF assms(2), of "pending \<circ> phase" c]
  by (simp add: plain_budget_def put_conn_def)

lemma proxy_react_budget:
  assumes "plain_budget s"
  shows "plain_budget (proxy_react e s)"
proof (cases e)
  case (Accept r)
  then show ?thesis
    using assms by (cases r) (auto simp: reactions plain_budget_def)
next
  case (Handshake i r)
  then show ?thesis
    using assms by (cases r) (auto simp: reactions intro!: plain_budget_put [OF assms])
next
  case (ConnectPlain i r)
  then show ?thesis
    using assms by (cases r) (auto simp: reactions intro!: plain_budget_put [OF assms])
next
  case (CopyEnd i r)
  then show ?thesis
    using assms by (cases r) (auto simp: reactions intro!: plain_budget_put [OF assms])
qed (use assms in \<open>auto simp: reactions intro!: plain_budget_put [OF assms]\<close>)

lemma proxy_run_budget: "plain_budget s \<Longrightarrow> plain_budget (proxy_run es s)"
  by (induction es arbitrary: s) (auto simp: proxy_run_def proxy_react_budget)

section \<open>Connections do not disturb each other\<close>

text \<open>The events that can matter to a connection: its own, and the accepts that number the connections.\<close>

fun concerns :: "nat \<Rightarrow> proxy_event \<Rightarrow> bool" where
  "concerns i (Accept r) = accepted (Accept r)"
| "concerns i (Handshake j r) = (i = j)"
| "concerns i (ConnectPlain j r) = (i = j)"
| "concerns i (CopyUp j bs) = (i = j)"
| "concerns i (CopyDown j bs) = (i = j)"
| "concerns i (CopyEnd j r) = (i = j)"

definition agree_on :: "nat \<Rightarrow> proxy \<Rightarrow> proxy \<Rightarrow> bool" where
  "agree_on i s t \<longleftrightarrow> length (conns s) = length (conns t) \<and> (i < length (conns s) \<longrightarrow> conns s ! i = conns t ! i)"

lemma agree_other:
  assumes "agree_on i s t" "\<not> concerns i e"
  shows "agree_on i (proxy_react e s) t"
  using assms
  by (cases e) (auto simp: agree_on_def reactions put_conn_def nth_append split: result.splits)

lemma agree_own:
  assumes "agree_on i s t" "concerns i e"
  shows "agree_on i (proxy_react e s) (proxy_react e t)"
  using assms
  by (cases e) (auto simp: agree_on_def reactions put_conn_def nth_append less_Suc_eq split: result.splits)

lemma agree_run: "agree_on i s t \<Longrightarrow> agree_on i (proxy_run es s) (proxy_run (filter (concerns i) es) t)"
proof (induction es arbitrary: s t)
  case (Cons e es)
  then show ?case
    using agree_own [of i s t e] agree_other [of i s t e] by (auto simp: proxy_run_def)
qed (simp add: proxy_run_def)

text \<open>
  C30: the TLS front as a gate. After any events, every accepted connection has a task
  of its own, whatever failed before; at most one connection to the plain server is
  opened for each of them; nothing is passed on between a client and the plain server
  before the connection was accepted, then finished its TLS handshake and then got its
  connection to the plain server, in this order; and the state of a connection is what
  its own events alone make of it, however the handshakes and the traffic of the others
  go.
\<close>

theorem tls_front_gate:
  assumes "s = proxy_run es proxy_init"
  shows "length (conns s) = accepts es \<and> plain_conns s \<le> accepts es \<and>
    (\<forall>i < length (conns s).
      (phase (conns s ! i) = Copying \<or> to_plain (conns s ! i) \<noteq> [] \<or> to_client (conns s ! i) \<noteq> [] \<longrightarrow>
        (\<exists>a b c. es = a @ Handshake i (Ok ()) # b @ ConnectPlain i (Ok ()) # c \<and> i < accepts a)) \<and>
      conns s ! i = conns (proxy_run (filter (concerns i) es) proxy_init) ! i)"
proof -
  have h: "proxy_history es s" unfolding assms by (rule proxy_run_history)
  have "plain_budget proxy_init" by (simp add: plain_budget_def proxy_init_def)
  then have b: "plain_budget s" unfolding assms by (rule proxy_run_budget)
  have gate: "\<exists>a b c. es = a @ Handshake i (Ok ()) # b @ ConnectPlain i (Ok ()) # c \<and> i < accepts a"
    if "i < length (conns s)" "passing (conns s ! i)" for i
    using h that by (intro opened_order) (simp add: proxy_history_def conn_history_def)
  have own: "conns s ! i = conns (proxy_run (filter (concerns i) es) proxy_init) ! i" if "i < length (conns s)" for i
    using agree_run [of i proxy_init proxy_init es] that by (simp add: agree_on_def assms)
  show ?thesis
    using h b gate own by (auto simp: proxy_history_def plain_budget_def passing_def)
qed

theorem tls_front_gate_witness:
  "\<exists>a b c. [Accept (Err ''busy''), Accept (Ok ''10.0.0.7:5000''), CopyUp 0 [9], Handshake 0 (Ok ()), ConnectPlain 0 (Ok ()),
      CopyUp 0 [1, 2]] = a @ Handshake 0 (Ok ()) # b @ ConnectPlain 0 (Ok ()) # c \<and> 0 < accepts a"
  using tls_front_gate [OF refl, of "[Accept (Err ''busy''), Accept (Ok ''10.0.0.7:5000''), CopyUp 0 [9], Handshake 0 (Ok ()),
      ConnectPlain 0 (Ok ()), CopyUp 0 [1, 2]]"]
  by (simp add: proxy_run_def proxy_init_def reactions put_conn_def accepts_def)

end
