(* ===== verification/Rpc_Wire.thy ===== *)
theory Rpc_Wire
  imports Vault_Service Tls_Proxy
begin

text \<open>
  The way of a call from a client to the handlers: the parameters as
  \<^verbatim>\<open>src/rpc/api.rs\<close> prints and reads them, the frame the client library
  puts around them, the TLS proxy, the authentication layer, the body limit and the
  method table of the started server. What \<open>jsonrpsee\<close>, \<open>rustls\<close> and
  \<open>copy_bidirectional\<close> do on this way is a parameter, \<open>rpc_lib\<close>, with its
  documented behaviour as named laws.
\<close>

section \<open>Parameters on the wire\<close>

text \<open>
  The derived forms of \<open>StoreProofParams\<close>. A derived \<open>Deserialize\<close> reads a
  struct from an object or from an array of its fields.
\<close>

definition store_params_serialize :: "store_proof_params \<Rightarrow> json" where
  "store_params_serialize p =
     JObject [(''proof_json'', proof_json p),
              (''expires_in_secs'', case expires_in_secs p of None \<Rightarrow> JNull | Some n \<Rightarrow> JNumber (PosInt n))]"

fun option_u64_deserialize :: "json \<Rightarrow> (u64 option, string) result" where
  "option_u64_deserialize JNull = Ok None"
| "option_u64_deserialize (JNumber (PosInt n)) = Ok (Some n)"
| "option_u64_deserialize _ = Err ''invalid type: expected u64''"

definition store_params_deserialize :: "json \<Rightarrow> (store_proof_params, string) result" where
  "store_params_deserialize v =
     (case v of
        JObject kvs \<Rightarrow>
          bind_res (json_required ''proof_json'' kvs) (\<lambda>j.
          bind_res (json_field ''expires_in_secs'' kvs) (\<lambda>je.
          bind_res (option_u64_deserialize (case je of None \<Rightarrow> JNull | Some j \<Rightarrow> j)) (\<lambda>ex.
          Ok \<lparr>proof_json = json_value j, expires_in_secs = ex\<rparr>)))
      | JArray [j, je] \<Rightarrow>
          bind_res (option_u64_deserialize je) (\<lambda>ex. Ok \<lparr>proof_json = json_value j, expires_in_secs = ex\<rparr>)
      | _ \<Rightarrow> Err ''invalid type: expected struct StoreProofParams'')"

text \<open>The method name and the positional parameters of a call, and the call they are read as.\<close>

fun client_call :: "rpc_call \<Rightarrow> string \<times> json list" where
  "client_call (CallStore params) = (''vault_storeProof'', [store_params_serialize params])"
| "client_call (CallRetrieve claim_id) = (''vault_retrieveProof'', [JString claim_id])"
| "client_call (CallDelete claim_id) = (''vault_deleteProof'', [JString claim_id])"
| "client_call CallDiscover = (''rpc.discover'', [])"

fun string_param :: "json list \<Rightarrow> string option" where
  "string_param (JString t # _) = Some t"
| "string_param _ = None"

fun server_call :: "rpc_method \<Rightarrow> json list \<Rightarrow> rpc_call option" where
  "server_call StoreProof (v # _) = (case store_params_deserialize v of Ok p \<Rightarrow> Some (CallStore p) | _ \<Rightarrow> None)"
| "server_call StoreProof [] = None"
| "server_call RetrieveProof ps = map_option CallRetrieve (string_param ps)"
| "server_call DeleteProof ps = map_option CallDelete (string_param ps)"
| "server_call Discover ps = Some CallDiscover"

section \<open>What the libraries do\<close>

text \<open>
  \<open>frame\<close> is the HTTP body a client sends for a method and its parameters.
  \<open>deliver\<close> is what the server library does with a body under its limit: it hands
  method and parameters on, or refuses the request with an HTTP status. \<open>refusal\<close> is
  the error object with which it answers a call of an unknown method or with parameters
  the method cannot read. \<open>copied\<close> is what arrives behind TLS and
  \<open>copy_bidirectional\<close> of the bytes a client wrote.
\<close>

datatype delivery = Dispatch string "json list" | Refuse nat

record rpc_lib =
  frame :: "string \<Rightarrow> json list \<Rightarrow> bytes"
  deliver :: "u32 \<Rightarrow> bytes \<Rightarrow> delivery"
  refusal :: "string \<Rightarrow> json list \<Rightarrow> error_object"
  copied :: "bytes \<Rightarrow> bytes"

text \<open>
  Laws: a framed call within the limit is handed on as it was made, a longer body is
  refused, and a relay neither loses nor changes bytes. A frame adds to the text of its
  parameters the version, the method, a 64-bit id and the punctuation. The method names
  of the program need no escapes.
\<close>

definition plain_text :: "string \<Rightarrow> bool" where
  "plain_text t \<longleftrightarrow> list_all (\<lambda>c. of_char c \<in> {32..126 :: nat} - {34, 92}) t"

definition rpc_lib_laws :: "ext \<Rightarrow> rpc_lib \<Rightarrow> bool" where
  "rpc_lib_laws E L \<longleftrightarrow>
     (\<forall>limit m ps. length (frame L m ps) \<le> unat limit \<longrightarrow> deliver L limit (frame L m ps) = Dispatch m ps) \<and>
     (\<forall>limit bs. unat limit < length bs \<longrightarrow> (\<exists>c. deliver L limit bs = Refuse c \<and> c \<noteq> 200)) \<and>
     (\<forall>bs. copied L bs = bs) \<and>
     (\<forall>m ps. plain_text m \<longrightarrow> length (frame L m ps) \<le> length (serde_to_string E (JArray ps)) + 2 * length m + 128)"

text \<open>
  Bounds on the compact text of a value: a string is quoted, each of its characters taking
  at most six, and at most two if it needs no escape; a 64-bit number takes at most 128;
  arrays and objects add brackets, commas and colons.
\<close>

definition json_size_laws :: "ext \<Rightarrow> bool" where
  "json_size_laws E \<longleftrightarrow>
     length (serde_to_string E JNull) \<le> 4 \<and>
     (\<forall>n. length (serde_to_string E (JNumber (PosInt n))) \<le> 128) \<and>
     (\<forall>t. length t \<le> length (serde_to_string E (JString t)) \<and> length (serde_to_string E (JString t)) \<le> 6 * length t + 2) \<and>
     (\<forall>t. plain_text t \<longrightarrow> length (serde_to_string E (JString t)) \<le> 2 * length t + 2) \<and>
     (\<forall>vs. length (serde_to_string E (JArray vs)) \<le> 2 + (\<Sum>v \<leftarrow> vs. length (serde_to_string E v) + 1)) \<and>
     (\<forall>kvs. list_all (plain_text \<circ> fst) kvs \<longrightarrow>
        (\<forall>kv \<in> set kvs. length (serde_to_string E (snd kv)) \<le> length (serde_to_string E (JObject kvs))) \<and>
        length (serde_to_string E (JObject kvs)) \<le>
          2 + (\<Sum>kv \<leftarrow> kvs. 2 * length (fst kv) + 4 + length (serde_to_string E (snd kv))))"

section \<open>The server behind the wire\<close>

text \<open>
  The service behind the authentication layer: the body limit, the method table and the
  parameters of the method, and then the handler. \<open>methods srv\<close> and
  \<open>body_limit srv\<close> are those \<open>start_server\<close> installed.
\<close>

definition wire_service ::
  "ext \<Rightarrow> string \<Rightarrow> rpc_lib \<Rightarrow> server \<Rightarrow> ('v, 'env) proof_vault \<Rightarrow> u64 \<Rightarrow> 'env \<Rightarrow>
     (bytes, rpc_reply, unit, 'v rpc_state logged) service" where
  "wire_service E openrpc_spec L srv PV limit env =
     \<lparr>svc_poll_ready = (\<lambda>s. (Ready (Ok ()), s)),
      svc_call = (\<lambda>req s.
        case deliver L (body_limit srv) (req_body req) of
          Refuse c \<Rightarrow> (Ok \<lparr>status = c, resp_headers = [], resp_body = NoReply\<rparr>, s)
        | Dispatch m ps \<Rightarrow>
            (case Option.bind (map_of (methods srv) m) (\<lambda>meth. server_call meth ps) of
               None \<Rightarrow> (Ok \<lparr>status = 200, resp_headers = [], resp_body = CallRefused (refusal L m ps)\<rparr>, s)
             | Some call \<Rightarrow>
                 svc_call (vault_service E openrpc_spec PV limit env) \<lparr>req_headers = req_headers req, req_body = call\<rparr> s))\<rparr>"

text \<open>
  How a client connects: over plain HTTP, or over TLS with the outcomes of the handshake
  and of the proxy's connection to the plain server. A plain client does not get past the
  handshake of a TLS server, nor a TLS client that of a plain one. Behind TLS the plain
  server sees what the proxy has passed on.
\<close>

datatype link = Http | Https "(unit, string) result" "(unit, string) result"

definition through_proxy :: "rpc_lib \<Rightarrow> (unit, string) result \<Rightarrow> (unit, string) result \<Rightarrow> bytes \<Rightarrow> bytes option" where
  "through_proxy L handshake connected bs =
     (let s = proxy_run [Accept (Ok ''client''), Handshake 0 handshake, ConnectPlain 0 connected, CopyUp 0 (copied L bs)] proxy_init in
      if conn_is s 0 Copying then Some (to_plain (conns s ! 0)) else None)"

fun reach :: "rpc_lib \<Rightarrow> link \<Rightarrow> server \<Rightarrow> bytes \<Rightarrow> bytes option" where
  "reach L Http srv bs = (if public_tls srv then None else Some bs)"
| "reach L (Https handshake connected) srv bs = (if public_tls srv then through_proxy L handshake connected bs else None)"

text \<open>A link that fits the server and meets no failure.\<close>

definition link_ok :: "link \<Rightarrow> server \<Rightarrow> bool" where
  "link_ok lk srv \<longleftrightarrow> lk = (if public_tls srv then Https (Ok ()) (Ok ()) else Http)"

section \<open>Calls arrive as they were made\<close>

lemma link_ok_reaches:
  assumes "rpc_lib_laws E L" "link_ok lk srv"
  shows "reach L lk srv bs = Some bs"
proof -
  have "copied L bs = bs" using assms(1) by (simp add: rpc_lib_laws_def)
  then show ?thesis
    using assms(2)
    by (simp add: link_ok_def through_proxy_def proxy_run_def proxy_init_def reactions put_conn_def Let_def)
qed

lemma store_params_roundtrip:
  "is_value (proof_json p) \<Longrightarrow> store_params_deserialize (store_params_serialize p) = Ok p"
  by (cases p; cases "expires_in_secs p")
    (auto simp: store_params_deserialize_def store_params_serialize_def json_required_def json_field_def is_value_def)

definition call_value :: "rpc_call \<Rightarrow> bool" where
  "call_value call \<longleftrightarrow> (\<forall>p. call = CallStore p \<longrightarrow> is_value (proof_json p))"

lemma registered_methods [simp]:
  "map_of (vault_methods @ discovery_module) ''vault_storeProof'' = Some StoreProof"
  "map_of (vault_methods @ discovery_module) ''vault_retrieveProof'' = Some RetrieveProof"
  "map_of (vault_methods @ discovery_module) ''vault_deleteProof'' = Some DeleteProof"
  "map_of (vault_methods @ discovery_module) ''rpc.discover'' = Some Discover"
  by (simp_all add: vault_methods_def discovery_module_def)

lemma call_roundtrip:
  assumes "call_value call"
  shows "Option.bind (map_of (vault_methods @ discovery_module) (fst (client_call call)))
    (\<lambda>meth. server_call meth (snd (client_call call))) = Some call"
  using assms by (cases call) (simp_all add: call_value_def store_params_roundtrip del: map_of_append)

text \<open>
  The frame of a store adds less than 512 bytes to the text of its document, and the frame
  of a token is short.
\<close>

definition call_fits :: "ext \<Rightarrow> nat \<Rightarrow> rpc_call \<Rightarrow> bool" where
  "call_fits E limit call \<longleftrightarrow>
     (case call of
        CallStore p \<Rightarrow> length (serde_to_string E (proof_json p)) + 512 \<le> limit + 4096
      | CallRetrieve tok \<Rightarrow> length tok \<le> 64
      | CallDelete tok \<Rightarrow> length tok \<le> 64
      | CallDiscover \<Rightarrow> True)"

lemma params_text_size:
  assumes "json_size_laws E"
  shows "length (serde_to_string E (store_params_serialize p)) \<le> length (serde_to_string E (proof_json p)) + 188"
proof -
  let ?x = "case expires_in_secs p of None \<Rightarrow> JNull | Some n \<Rightarrow> JNumber (PosInt n)"
  have x: "length (serde_to_string E ?x) \<le> 128"
    using assms by (cases "expires_in_secs p") (auto simp: json_size_laws_def)
  have "list_all (plain_text \<circ> fst) [(''proof_json'', proof_json p), (''expires_in_secs'', ?x)]"
    by (simp add: plain_text_def)
  then have "length (serde_to_string E (store_params_serialize p)) \<le>
      2 + (\<Sum>kv \<leftarrow> [(''proof_json'', proof_json p), (''expires_in_secs'', ?x)].
        2 * length (fst kv) + 4 + length (serde_to_string E (snd kv)))"
    using assms unfolding json_size_laws_def store_params_serialize_def by blast
  with x show ?thesis by simp
qed

lemma frame_size:
  assumes "rpc_lib_laws E L" "json_size_laws E" "call_fits E limit call"
  shows "length (frame L (fst (client_call call)) (snd (client_call call))) \<le> limit + 4096"
proof -
  have plain: "plain_text (fst (client_call call))"
    by (cases call) (simp_all add: plain_text_def)
  then have f: "length (frame L (fst (client_call call)) (snd (client_call call))) \<le>
      length (serde_to_string E (JArray (snd (client_call call)))) + 2 * length (fst (client_call call)) + 128"
    using assms(1) unfolding rpc_lib_laws_def by blast
  have arr: "length (serde_to_string E (JArray vs)) \<le> 2 + (\<Sum>v \<leftarrow> vs. length (serde_to_string E v) + 1)" for vs
    using assms(2) by (simp add: json_size_laws_def)
  have str: "length (serde_to_string E (JString t)) \<le> 6 * length t + 2" for t
    using assms(2) by (simp add: json_size_laws_def)
  show ?thesis
  proof (cases call)
    case (CallStore p)
    then show ?thesis
      using f arr [of "[store_params_serialize p]"] params_text_size [OF assms(2), of p] assms(3)
      by (simp add: call_fits_def)
  next
    case (CallRetrieve tok)
    then show ?thesis
      using f arr [of "[JString tok]"] str [of tok] assms(3) by (simp add: call_fits_def)
  next
    case (CallDelete tok)
    then show ?thesis
      using f arr [of "[JString tok]"] str [of tok] assms(3) by (simp add: call_fits_def)
  next
    case CallDiscover
    then show ?thesis
      using f arr [of "[]"] by simp
  qed
qed

text \<open>A call that fits the limit reaches its handler.\<close>

lemma wire_dispatches:
  assumes "rpc_lib_laws E L" "json_size_laws E" "methods srv = vault_methods @ discovery_module"
    and "unat (body_limit srv) = limit + 4096" "call_value call" "call_fits E limit call"
  shows "svc_call (wire_service E spec L srv PV lim env)
      \<lparr>req_headers = headers, req_body = frame L (fst (client_call call)) (snd (client_call call))\<rparr> s =
    svc_call (vault_service E spec PV lim env) \<lparr>req_headers = headers, req_body = call\<rparr> s"
proof -
  have "deliver L (body_limit srv) (frame L (fst (client_call call)) (snd (client_call call))) =
      Dispatch (fst (client_call call)) (snd (client_call call))"
    using assms(1) frame_size [OF assms(1,2,6)] assms(4) by (simp add: rpc_lib_laws_def)
  then show ?thesis
    using call_roundtrip [OF assms(5)] by (simp add: wire_service_def assms(3) del: map_of_append)
qed

end
