(* ===== verification/Vault_Concurrency.thy ===== *)
theory Vault_Concurrency
  imports Vault_Guarantees
begin

text \<open>
  Concurrent calls of one vault. The backend's locks make every storage call
  atomic (for the file backend this is proved in \<open>File_Locking\<close>), but a retrieval and a deletion make two of them (a fetch, then a delete)
  and suspend in between. A call is therefore a small state machine, a
  configuration is a list of calls over one vault, and a step lets one call make
  its next storage call. A store and a sweep make a single storage call.
\<close>

section \<open>The two halves of a call\<close>

definition fetch_for ::
  "ext \<Rightarrow> ('s, 'io) storage_backend \<Rightarrow> 'io call_env \<Rightarrow> string \<Rightarrow>
     's vault \<Rightarrow> (claim_id \<times> stored_record, vault_error) result \<times> 's vault" where
  "fetch_for E B env tok v =
     try_op (claim_id_decode E tok, v) (\<lambda>c v.
     try_op (map_err_op fetch_error (on_storage (be_fetch B (io_first env) (record_id c)) v)) (\<lambda>r v.
     (Ok (c, r), v)))"

definition retrieve_rest ::
  "ext \<Rightarrow> ('s, 'io) storage_backend \<Rightarrow> 'io call_env \<Rightarrow> claim_id \<Rightarrow> stored_record \<Rightarrow>
     's vault \<Rightarrow> (plaintext_proof, vault_error) result \<times> 's vault" where
  "retrieve_rest E B env c stored v =
     (if is_expired (now_check env) stored
      then drop_expired E B (io_second env) (record_id c) ''Expired proof access attempt; record_id='' v
      else if length (nonce (encrypted stored)) \<noteq> 12 then (Err DecryptionFailed, v)
      else
        try_op (from_slice 32 (encryption_key c), v) (\<lambda>key v.
        try_op (from_slice 12 (nonce (encrypted stored)), v) (\<lambda>n v.
        case aes_gcm_decrypt E key n (ciphertext (encrypted stored)) of
          None \<Rightarrow> (Err DecryptionFailed, v)
        | Some plaintext \<Rightarrow>
            try_op (map_err_op Storage (on_storage (be_delete B (io_second env) (record_id c)) v)) (\<lambda>_ v.
            (Ok (proof_from_bytes plaintext),
             emit INFO (''Proof retrieved and consumed; record_id='' @ uuid_simple E (record_id c)) v)))))"

definition delete_rest ::
  "ext \<Rightarrow> ('s, 'io) storage_backend \<Rightarrow> 'io call_env \<Rightarrow> claim_id \<Rightarrow> stored_record \<Rightarrow>
     's vault \<Rightarrow> (unit, vault_error) result \<times> 's vault" where
  "delete_rest E B env c stored v =
     (if is_expired (now_check env) stored
      then drop_expired E B (io_second env) (record_id c) ''Delete attempt on expired proof; record_id='' v
      else
        try_op (map_err_op Storage (on_storage (be_delete B (io_second env) (record_id c)) v)) (\<lambda>deleted v.
        if \<not> deleted then (Err ProofNotFound, v)
        else (Ok (), emit INFO (''Proof explicitly deleted by holder; record_id='' @ uuid_simple E (record_id c)) v)))"

text \<open>A call that is never interrupted is the function.\<close>

lemma try_op_assoc: "try_op (try_op m f) g = try_op m (\<lambda>a s. try_op (f a s) g)"
  by (cases m; cases "fst m") auto

lemma retrieve_proof_split:
  "retrieve_proof E B env tok v = try_op (fetch_for E B env tok v) (\<lambda>(c, r). retrieve_rest E B env c r)"
  by (simp add: retrieve_proof_def fetch_for_def retrieve_rest_def try_op_assoc Let_def)

lemma delete_proof_split:
  "delete_proof E B env tok v = try_op (fetch_for E B env tok v) (\<lambda>(c, r). delete_rest E B env c r)"
  by (simp add: delete_proof_def fetch_for_def delete_rest_def try_op_assoc Let_def)

section \<open>Calls in flight\<close>

datatype 'io task =
    Call "'io vault_op"
  | RetrieveFetched "'io call_env" claim_id stored_record
  | DeleteFetched "'io call_env" claim_id stored_record
  | Answered answer

fun answered :: "'io task \<Rightarrow> bool" where
  "answered (Answered a) = True"
| "answered _ = False"

fun task_step ::
  "ext \<Rightarrow> ('s, 'io) storage_backend \<Rightarrow> 'io task \<Rightarrow> 's vault \<Rightarrow> 'io task \<times> 's vault" where
  "task_step E B (Call (OpRetrieve env tok)) v =
     (case fetch_for E B env tok v of
        (Ok (c, r), v) \<Rightarrow> (RetrieveFetched env c r, v)
      | (Err e, v) \<Rightarrow> (Answered (Retrieved (Err e)), v)
      | (Panic m, v) \<Rightarrow> (Answered (Retrieved (Panic m)), v))"
| "task_step E B (Call (OpDelete env tok)) v =
     (case fetch_for E B env tok v of
        (Ok (c, r), v) \<Rightarrow> (DeleteFetched env c r, v)
      | (Err e, v) \<Rightarrow> (Answered (Deleted (Err e)), v)
      | (Panic m, v) \<Rightarrow> (Answered (Deleted (Panic m)), v))"
| "task_step E B (Call op) v = map_prod Answered id (run_op E B op v)"
| "task_step E B (RetrieveFetched env c r) v = map_prod (Answered \<circ> Retrieved) id (retrieve_rest E B env c r v)"
| "task_step E B (DeleteFetched env c r) v = map_prod (Answered \<circ> Deleted) id (delete_rest E B env c r v)"
| "task_step E B (Answered a) v = (Answered a, v)"

inductive interleave ::
  "ext \<Rightarrow> ('s, 'io) storage_backend \<Rightarrow> 'io task list \<times> 's vault \<Rightarrow> 'io task list \<times> 's vault \<Rightarrow> bool"
  for E :: ext and B :: "('s, 'io) storage_backend" where
  "\<lbrakk>i < length ts; \<not> answered (ts ! i); task_step E B (ts ! i) v = (t', v')\<rbrakk> \<Longrightarrow>
     interleave E B (ts, v) (ts[i := t'], v')"

inductive_cases interleaveE: "interleave E B (ts, v) c"

text \<open>A schedule names the call that moves next.\<close>

fun run_schedule ::
  "ext \<Rightarrow> ('s, 'io) storage_backend \<Rightarrow> nat list \<Rightarrow> 'io task list \<times> 's vault \<Rightarrow> 'io task list \<times> 's vault" where
  "run_schedule E B [] c = c"
| "run_schedule E B (i # is) (ts, v) =
     (if i < length ts
      then (case task_step E B (ts ! i) v of (t', v') \<Rightarrow> run_schedule E B is (ts[i := t'], v'))
      else run_schedule E B is (ts, v))"

section \<open>Every schedule ends\<close>

fun steps_left :: "'io task \<Rightarrow> nat" where
  "steps_left (Call op) = 2"
| "steps_left (RetrieveFetched env c r) = 1"
| "steps_left (DeleteFetched env c r) = 1"
| "steps_left (Answered a) = 0"

lemma task_step_decreases: "\<not> answered t \<Longrightarrow> steps_left (fst (task_step E B t v)) < steps_left t"
  by (cases "(E, B, t, v)" rule: task_step.cases)
    (auto split: prod.splits result.splits)

lemma interleave_decreases:
  "interleave E B c c' \<Longrightarrow> sum_list (map steps_left (fst c')) < sum_list (map steps_left (fst c))"
proof (induction rule: interleave.induct)
  case (1 i ts v t' v')
  then show ?case
    using task_step_decreases [of "ts ! i" E B v] by (auto intro: sum_list_update_less)
qed

lemma interleave_bound:
  "(interleave E B ^^ n) c c' \<Longrightarrow> n + sum_list (map steps_left (fst c')) \<le> sum_list (map steps_left (fst c))"
proof (induction n arbitrary: c')
  case (Suc n)
  then obtain c1 where "(interleave E B ^^ n) c c1" "interleave E B c1 c'" by auto
  with Suc.IH interleave_decreases show ?case by fastforce
qed simp

lemma fresh_calls: "sum_list (map steps_left (map Call ops)) = 2 * length ops"
  by (induction ops) auto

lemma stuck_answered:
  assumes "\<nexists>c'. interleave E B (ts, v) c'"
  shows "\<forall>t \<in> set ts. answered t"
proof (rule ccontr)
  assume "\<not> (\<forall>t \<in> set ts. answered t)"
  then obtain i where i: "i < length ts" "\<not> answered (ts ! i)"
    by (auto simp: in_set_conv_nth)
  obtain t' v' where "task_step E B (ts ! i) v = (t', v')" by fastforce
  with i assms show False using interleave.intros by blast
qed

text \<open>
  No call is ever stuck and none runs forever. From any number of concurrent
  calls, every interleaving has at most two steps per call, and where no step is
  possible every call has its answer.
\<close>

lemma concurrent_calls_terminate:
  assumes "(interleave E B ^^ n) (map Call ops, v) (ts, v')"
  shows "n \<le> 2 * length ops \<and> ((\<nexists>c'. interleave E B (ts, v') c') \<longrightarrow> (\<forall>t \<in> set ts. answered t))"
  using interleave_bound [OF assms] stuck_answered [of E B ts v'] fresh_calls [of ops] by auto

section \<open>A record is deleted at most once\<close>

text \<open>
  The calls in flight are arbitrary. A deletion concerns the record id that its
  token decodes to, and the list of calls keeps its order: the task at an index is
  the call made at that index, part way.
\<close>

fun deletes_id :: "ext \<Rightarrow> bytes \<Rightarrow> 'io vault_op \<Rightarrow> bool" where
  "deletes_id E rid (OpDelete env tok) =
     (case claim_id_decode E tok of Ok c \<Rightarrow> record_id c = rid | _ \<Rightarrow> False)"
| "deletes_id E rid _ = False"

fun follows :: "ext \<Rightarrow> 'io vault_op \<Rightarrow> 'io task \<Rightarrow> bool" where
  "follows E op (Call op') = (op' = op)"
| "follows E op (DeleteFetched env c r) = (\<exists>tok. op = OpDelete env tok \<and> claim_id_decode E tok = Ok c)"
| "follows E op _ = True"

fun task_ok :: "(stored_record \<Rightarrow> bool) \<Rightarrow> (datetime \<Rightarrow> bool) \<Rightarrow> ext \<Rightarrow> 'io task \<Rightarrow> bool" where
  "task_ok storable clock_ok E (Call op) = op_ok storable clock_ok E op"
| "task_ok storable clock_ok E (RetrieveFetched env c r) = claim_id_ok c"
| "task_ok storable clock_ok E (DeleteFetched env c r) = claim_id_ok c"
| "task_ok storable clock_ok E (Answered a) = True"

fun deletion_won :: "'io task \<Rightarrow> nat" where
  "deletion_won (Answered (Deleted (Ok _))) = 1"
| "deletion_won _ = 0"

text \<open>The deletions of one record id that reported success: a call and its task.\<close>

fun won :: "ext \<Rightarrow> bytes \<Rightarrow> 'io vault_op \<times> 'io task \<Rightarrow> nat" where
  "won E rid (op, t) = (if deletes_id E rid op then deletion_won t else 0)"

fun store_pending :: "bytes \<Rightarrow> 'io task \<Rightarrow> nat" where
  "store_pending rid (Call op) = (if stores_id rid op then 1 else 0)"
| "store_pending rid _ = 0"

context backend_contract
begin

lemma fetch_for_spec:
  assumes "inv (storage v)" "fetch_for E B env tok v = (res, v')"
  shows "inv (storage v') \<and> abs (storage v') = abs (storage v) \<and>
    (\<forall>c r. res = Ok (c, r) \<longrightarrow> claim_id_decode E tok = Ok c \<and> claim_id_ok c \<and> abs (storage v) (record_id c) = Some r)"
proof (cases "claim_id_decode E tok")
  case (Ok c)
  then have c: "claim_id_ok c" by (rule decode_ok_wf)
  obtain rf s1 where f: "be_fetch B (io_first env) (record_id c) (storage v) = (rf, s1)" by fastforce
  have "inv s1 \<and> abs s1 = abs (storage v) \<and> (\<forall>r. rf = Ok r \<longrightarrow> abs (storage v) (record_id c) = Some r)"
    using fetch_spec [OF assms(1) _ f] c by (cases rf) (auto simp: claim_id_ok_def)
  then show ?thesis
    using assms(2) Ok c f by (cases rf) (auto simp: fetch_for_def on_storage_def)
qed (use assms in \<open>auto simp: fetch_for_def\<close>)

lemma delete_call_spec:
  assumes "inv (storage v)" "claim_id_ok c" "on_storage (be_delete B io (record_id c)) v = (rd, v')"
  shows "inv (storage v') \<and> (abs (storage v') = abs (storage v) \<or> abs (storage v') = (abs (storage v))(record_id c := None)) \<and>
    (\<forall>b. rd = Ok b \<longrightarrow> abs (storage v') = (abs (storage v))(record_id c := None) \<and> (b \<longleftrightarrow> abs (storage v) (record_id c) \<noteq> None))"
proof -
  obtain s1 where d: "be_delete B io (record_id c) (storage v) = (rd, s1)" "v' = v\<lparr>storage := s1\<rparr>"
    using assms(3) by (auto simp: on_storage_def split: prod.splits)
  show ?thesis
    using delete_spec [OF assms(1) _ d(1)] assms(2) d(2) by (cases rd) (auto simp: claim_id_ok_def)
qed

lemma drop_expired_spec:
  assumes "inv (storage v)" "claim_id_ok c" "drop_expired E B io (record_id c) msg v = (res, v')"
  shows "inv (storage v') \<and> (abs (storage v') = abs (storage v) \<or> abs (storage v') = (abs (storage v))(record_id c := None)) \<and>
    \<not> is_ok res"
proof -
  obtain rd v1 where d: "on_storage (be_delete B io (record_id c)) v = (rd, v1)" by fastforce
  with delete_call_spec [OF assms(1,2) d] assms(3) show ?thesis
    by (cases rd) (auto simp: drop_expired_def)
qed

lemma retrieve_rest_spec:
  assumes "inv (storage v)" "claim_id_ok c" "retrieve_rest E B env c r v = (res, v')"
  shows "inv (storage v') \<and> (abs (storage v') = abs (storage v) \<or> abs (storage v') = (abs (storage v))(record_id c := None))"
proof (cases "is_expired (now_check env) r")
  case True
  with assms drop_expired_spec [OF assms(1,2)] show ?thesis by (fastforce simp: retrieve_rest_def)
next
  case False
  obtain rd v1 where d: "on_storage (be_delete B (io_second env) (record_id c)) v = (rd, v1)" by fastforce
  have "length (encryption_key c) = 32" using assms(2) by (simp add: claim_id_ok_def)
  with delete_call_spec [OF assms(1,2) d] assms(1,3) False d show ?thesis
    by (cases rd) (auto simp: retrieve_rest_def from_slice_def split: if_splits option.splits)
qed

lemma delete_rest_spec:
  assumes "inv (storage v)" "claim_id_ok c" "delete_rest E B env c r v = (res, v')"
  shows "inv (storage v') \<and> (abs (storage v') = abs (storage v) \<or> abs (storage v') = (abs (storage v))(record_id c := None)) \<and>
    (is_ok res \<longrightarrow> abs (storage v) (record_id c) \<noteq> None \<and> abs (storage v') (record_id c) = None)"
proof (cases "is_expired (now_check env) r")
  case True
  with assms drop_expired_spec [OF assms(1,2)] show ?thesis by (fastforce simp: delete_rest_def)
next
  case False
  obtain rd v1 where d: "on_storage (be_delete B (io_second env) (record_id c)) v = (rd, v1)" by fastforce
  with delete_call_spec [OF assms(1,2) d] assms(3) False show ?thesis
    by (cases rd) (auto simp: delete_rest_def split: if_splits)
qed

text \<open>One step keeps the invariant and never creates a won deletion without a record to pay for it.\<close>

lemma call_begins_spec:
  assumes inv: "inv (storage v)" and ok: "task_ok storable clock_ok E (Call op)"
    and step: "task_step E B (Call op) v = (t', v')"
  shows "inv (storage v') \<and> task_ok storable clock_ok E t' \<and> follows E op t' \<and>
    won E rid (op, t') + store_pending rid t' + held rid (abs (storage v')) \<le>
      store_pending rid (Call op) + held rid (abs (storage v))"
proof -
  have atomic: ?thesis if "run_op E B op v = (a, v')" "t' = Answered a" "\<forall>env tok. op \<noteq> OpDelete env tok" for a
  proof -
    have c: "inv (storage v')" "op_conforms E op (abs (storage v)) a (abs (storage v'))"
      using run_op_conforms [OF inv _ that(1)] ok by auto
    have "won E rid (op, Answered a) = 0"
      using that(3) by (cases op) auto
    with c op_conforms_balance [OF c(2), of rid] that(2) show ?thesis
      by (auto split: if_splits)
  qed
  obtain fr v1 where f: "fetch_for E B (op_env op) (case op of OpRetrieve env tok \<Rightarrow> tok | OpDelete env tok \<Rightarrow> tok | _ \<Rightarrow> []) v = (fr, v1)"
    by fastforce
  note fs = fetch_for_spec [OF inv f]
  show ?thesis
  proof (cases op)
    case (OpRetrieve env tok)
    then show ?thesis
      using step f fs by (cases fr) auto
  next
    case (OpDelete env tok)
    then show ?thesis
      using step f fs by (cases fr) auto
  qed (use step atomic [of "fst (run_op E B op v)"] in \<open>auto simp: map_prod_obtain prod_eq_iff\<close>)
qed

lemma task_step_spec:
  assumes inv: "inv (storage v)" and ok: "task_ok storable clock_ok E t" and fol: "follows E op t"
    and run: "\<not> answered t" and step: "task_step E B t v = (t', v')"
  shows "inv (storage v') \<and> task_ok storable clock_ok E t' \<and> follows E op t' \<and>
    won E rid (op, t') + store_pending rid t' + held rid (abs (storage v')) \<le>
      won E rid (op, t) + store_pending rid t + held rid (abs (storage v))"
proof (cases t)
  case (Call op')
  then have t: "t = Call op" using fol by simp
  have "won E rid (op, t) = 0" by (simp add: t)
  with call_begins_spec [OF inv ok [unfolded t] step [unfolded t], of rid] show ?thesis
    unfolding t by linarith
next
  case (RetrieveFetched env c r)
  obtain res where res: "retrieve_rest E B env c r v = (res, v')" "t' = Answered (Retrieved res)"
    using step RetrieveFetched by (auto simp: map_prod_def split: prod.splits)
  have "claim_id_ok c" using ok RetrieveFetched by simp
  from retrieve_rest_spec [OF inv this res(1)] res(2) RetrieveFetched show ?thesis
    by (auto simp: held_def split: if_splits)
next
  case (DeleteFetched env c r)
  obtain res where res: "delete_rest E B env c r v = (res, v')" "t' = Answered (Deleted res)"
    using step DeleteFetched by (auto simp: map_prod_def split: prod.splits)
  have "claim_id_ok c" "deletes_id E rid op \<longleftrightarrow> record_id c = rid"
    using ok fol DeleteFetched by auto
  with delete_rest_spec [OF inv _ res(1)] res(2) DeleteFetched show ?thesis
    by (cases res) (auto simp: held_def)
next
  case (Answered a)
  with run show ?thesis by simp
qed

end

text \<open>Won deletions, pending stores and the record itself, added up.\<close>

definition account :: "ext \<Rightarrow> ('s \<Rightarrow> store) \<Rightarrow> bytes \<Rightarrow> 'io vault_op list \<Rightarrow> 'io task list \<times> 's vault \<Rightarrow> nat" where
  "account E view rid ops c = sum_list (map (won E rid) (zip ops (fst c))) + sum_list (map (store_pending rid) (fst c)) +
     held rid (view (storage (snd c)))"

lemma zip_update_right: "i < length xs \<Longrightarrow> zip xs (ys[i := y]) = (zip xs ys)[i := (xs ! i, y)]"
  using update_zip [of xs ys i "(xs ! i, y)"] by simp

context backend_contract
begin

lemma interleave_account:
  assumes "interleave E B (ts, v) (ts', v')" "inv (storage v)"
    and "\<forall>t \<in> set ts. task_ok storable clock_ok E t" "list_all2 (follows E) ops ts"
  shows "inv (storage v') \<and> (\<forall>t \<in> set ts'. task_ok storable clock_ok E t) \<and> list_all2 (follows E) ops ts' \<and>
    account E abs rid ops (ts', v') \<le> account E abs rid ops (ts, v)"
proof -
  obtain i t' where 1: "ts' = ts[i := t']" "i < length ts" "\<not> answered (ts ! i)" "task_step E B (ts ! i) v = (t', v')"
    using assms(1) by (auto elim: interleaveE)
  have i: "ts ! i \<in> set ts" "i < length ops" "follows E (ops ! i) (ts ! i)" "length ops = length ts"
    using 1(2) assms(4) by (auto simp: list_all2_conv_all_nth)
  then have s: "inv (storage v')" "task_ok storable clock_ok E t'" "follows E (ops ! i) t'"
    "won E rid (ops ! i, t') + store_pending rid t' + held rid (abs (storage v')) \<le>
      won E rid (ops ! i, ts ! i) + store_pending rid (ts ! i) + held rid (abs (storage v))"
    using task_step_spec [OF assms(2) _ i(3) 1(3,4)] assms(3) by blast+
  have "\<forall>t \<in> set ts'. task_ok storable clock_ok E t"
    using 1(1) s(2) assms(3) by (auto dest!: set_update_subset_insert [THEN subsetD])
  moreover have "list_all2 (follows E) ops ts'"
    using assms(4) s(3) 1(1,2) by (auto simp: list_all2_conv_all_nth nth_list_update)
  moreover have "account E abs rid ops (ts', v') \<le> account E abs rid ops (ts, v)"
    using s(4) i 1(2) sum_list_update_nat [of i "zip ops ts" "won E rid" "(ops ! i, t')"]
      sum_list_update_nat [OF 1(2), of "store_pending rid" t']
    by (simp add: account_def 1(1) zip_update_right)
  ultimately show ?thesis using s(1) by simp
qed

lemma interleavings_account:
  assumes "(interleave E B)\<^sup>*\<^sup>* (ts, v) (ts', v')" "inv (storage v)"
    and "\<forall>t \<in> set ts. task_ok storable clock_ok E t" "list_all2 (follows E) ops ts"
  shows "inv (storage v') \<and> (\<forall>t \<in> set ts'. task_ok storable clock_ok E t) \<and> list_all2 (follows E) ops ts' \<and>
    account E abs rid ops (ts', v') \<le> account E abs rid ops (ts, v)"
  using assms(1)
proof (induction "(ts', v')" arbitrary: ts' v' rule: rtranclp_induct)
  case base
  then show ?case using assms(2-) by simp
next
  case (step c)
  obtain ts1 v1 where c: "c = (ts1, v1)" by fastforce
  have s: "interleave E B (ts1, v1) (ts', v')" using step.hyps(2) c by simp
  have ih: "inv (storage v1)" "\<forall>t \<in> set ts1. task_ok storable clock_ok E t" "list_all2 (follows E) ops ts1"
    "account E abs rid ops (ts1, v1) \<le> account E abs rid ops (ts, v)"
    using step.hyps(3) [OF c] by auto
  from interleave_account [OF s ih(1-3), of rid] ih(4) show ?case by simp
qed

end

lemma fresh_calls_follow: "list_all2 (follows E) ops (map Call ops)"
  by (simp add: list_all2_conv_all_nth)

lemma fresh_calls_won: "sum_list (map (won E rid) (zip ops (map Call ops))) = 0"
  by (induction ops) auto

lemma fresh_calls_pending: "sum_list (map (store_pending rid) (map Call ops)) = storings rid ops"
  by (induction ops) auto

text \<open>
  C12: concurrent deletions. In every interleaving of any calls, whatever records
  they concern and whatever storage calls fail, and for every record id: the
  deletions of that id that have reported success, together with the record if it
  is still held, are at most the record held at the start plus the stores made under
  that id.
\<close>

theorem concurrent_deletes_win_once:
  assumes "(interleave E (any_backend_ops E))\<^sup>*\<^sup>* (map Call ops, v) (ts', v')" "any_inv E (storage v)"
    and "\<forall>op \<in> set ops. any_op_ok E op"
  shows "sum_list (map (won E rid) (zip ops ts')) + held rid (any_abs E (storage v')) \<le>
    held rid (any_abs E (storage v)) + storings rid ops"
proof -
  have "\<forall>t \<in> set (map Call ops). task_ok rfc3339_record rfc3339_range E t"
    using assms(3) by auto
  from any_store.interleavings_account [OF assms(1,2) this fresh_calls_follow, of rid] show ?thesis
    unfolding account_def fst_conv snd_conv fresh_calls_won fresh_calls_pending by simp
qed

text \<open>Some interleaving runs every call to its answer.\<close>

lemma interleave_completes:
  "\<exists>ts' v'. (interleave E B)\<^sup>*\<^sup>* (ts, v) (ts', v') \<and> (\<forall>t \<in> set ts'. answered t)"
proof (induction "sum_list (map steps_left ts)" arbitrary: ts v rule: less_induct)
  case less
  show ?case
  proof (cases "\<exists>c'. interleave E B (ts, v) c'")
    case True
    then obtain ts1 v1 where s: "interleave E B (ts, v) (ts1, v1)" by auto
    with less interleave_decreases [OF s] obtain ts' v' where
      "(interleave E B)\<^sup>*\<^sup>* (ts1, v1) (ts', v')" "\<forall>t \<in> set ts'. answered t" by fastforce
    with s show ?thesis by (meson converse_rtranclp_into_rtranclp)
  next
    case False
    with stuck_answered show ?thesis by blast
  qed
qed

theorem concurrent_deletes_win_once_witness:
  "\<exists>ts' v'. (interleave ref_ext (any_backend_ops ref_ext))\<^sup>*\<^sup>*
      (map Call [OpDelete (at_instant 4) sample_token, OpDelete (at_instant 5) sample_token,
         OpDelete (at_instant 6) (claim_id_encode ref_ext (claim_id_new (replicate 16 2) (replicate 32 7)))], sample_db) (ts', v') \<and>
     (\<forall>t \<in> set ts'. answered t) \<and>
     sum_list (map (won ref_ext (replicate 16 1)) (zip [OpDelete (at_instant 4) sample_token,
       OpDelete (at_instant 5) sample_token, OpDelete (at_instant 6) (claim_id_encode ref_ext (claim_id_new (replicate 16 2) (replicate 32 7)))] ts')) \<le> 1"
proof -
  let ?ops = "[OpDelete (at_instant 4) sample_token, OpDelete (at_instant 5) sample_token, OpDelete (at_instant 6) (claim_id_encode ref_ext (claim_id_new (replicate 16 2) (replicate 32 7)))]"
  obtain ts' v' where r: "(interleave ref_ext (any_backend_ops ref_ext))\<^sup>*\<^sup>* (map Call ?ops, sample_db) (ts', v')"
    and a: "\<forall>t \<in> set ts'. answered t"
    using interleave_completes by blast
  have "\<forall>op \<in> set ?ops. any_op_ok ref_ext op" by simp
  from concurrent_deletes_win_once [OF r sample_db_facts(1) this, of "replicate 16 1"]
  have "sum_list (map (won ref_ext (replicate 16 1)) (zip ?ops ts')) \<le> 1"
    by (simp add: held_def)
  with r a show ?thesis by blast
qed

section \<open>Concurrent retrievals\<close>

definition calm_call :: "any_io call_env \<Rightarrow> bool" where
  "calm_call env \<longleftrightarrow> (\<forall>c. db_fault (sqlite_part (io_first env)) c = None) \<and> (\<forall>c. db_fault (sqlite_part (io_second env)) c = None)"

lemma sqlite_fetch_for:
  assumes "sqlite_inv E db" "storage v = Sqlite db" "calm_call env"
    and "claim_id_decode E tok = Ok c" "sqlite_abs E db (record_id c) = Some r"
  shows "fetch_for E (any_backend_ops E) env tok v = (Ok (c, r), v)"
proof -
  have "length (record_id c) = 16"
    using decode_ok_wf [OF assms(4)] by (simp add: claim_id_ok_def)
  moreover have "any_quiet (io_first env) (Sqlite db)"
    using assms(3) by (simp add: calm_call_def sqlite_quiet_def)
  ultimately have "fst (sqlite_fetch E (sqlite_part (io_first env)) (record_id c) db) = Ok r"
    using any_quiet_ops(2) [of E "Sqlite db" "io_first env" "record_id c"] assms(1,5) by simp
  moreover have "snd (sqlite_fetch E (sqlite_part (io_first env)) (record_id c) db) = db"
    by (auto simp: sqlite_fetch_def with_connection_def db_sys_def split: option.splits)
  ultimately have "sqlite_fetch E (sqlite_part (io_first env)) (record_id c) db = (Ok r, db)"
    by (simp add: prod_eq_iff)
  then have "on_storage (any_fetch E (io_first env) (record_id c)) v = (Ok r, v)"
    using assms(2) by (cases v) (simp add: on_storage_def)
  then show ?thesis
    using assms(4) by (simp add: fetch_for_def)
qed

lemma sqlite_retrieve_rest:
  assumes "storage v = Sqlite db" "proofs db = Some t" "calm_call env" "claim_id_ok c"
    and "\<not> is_expired (now_check env) r" "open_record E c r = Some pt"
  shows "\<exists>v' db' t'. retrieve_rest E (any_backend_ops E) env c r v = (Ok (proof_from_bytes pt), v') \<and>
    storage v' = Sqlite db' \<and> proofs db' = Some t'"
proof -
  have key: "length (encryption_key c) = 32" "length (nonce (encrypted r)) = 12"
    "aes_gcm_decrypt E (encryption_key c) (nonce (encrypted r)) (ciphertext (encrypted r)) = Some pt"
    using assms(4,6) by (auto simp: claim_id_ok_def open_record_def split: if_splits)
  have "sqlite_delete (sqlite_part (io_second env)) (record_id c) db =
      (Ok (fst (sql_delete (record_id c) t) > 0), db\<lparr>proofs := Some (snd (sql_delete (record_id c) t))\<rparr>)"
    using assms(2,3) by (simp add: sqlite_delete_def with_connection_def db_sys_def calm_call_def split_beta)
  then show ?thesis
    using assms(1,5) key by (simp add: retrieve_rest_def from_slice_def on_storage_def)
qed

text \<open>
  C15: two retrievals can both succeed. With the SQLite backend and no storage
  failure, when two retrievals with the same valid token of a live record interleave
  so that both fetch before either deletes, both return the plaintext. The result
  of the delete, which tells them apart, is not looked at.
\<close>

theorem concurrent_retrievals_both_succeed:
  assumes "sqlite_inv E db" "storage v = Sqlite db" "calm_call env1" "calm_call env2"
    and "claim_id_decode E tok = Ok c" "sqlite_abs E db (record_id c) = Some r"
    and "\<not> is_expired (now_check env1) r" "\<not> is_expired (now_check env2) r" "open_record E c r = Some pt"
  shows "fst (run_schedule E (any_backend_ops E) [0, 1, 0, 1] ([Call (OpRetrieve env1 tok), Call (OpRetrieve env2 tok)], v)) =
    [Answered (Retrieved (Ok (proof_from_bytes pt))), Answered (Retrieved (Ok (proof_from_bytes pt)))]"
proof -
  have f: "fetch_for E (any_backend_ops E) env1 tok v = (Ok (c, r), v)" "fetch_for E (any_backend_ops E) env2 tok v = (Ok (c, r), v)"
    using sqlite_fetch_for assms by blast+
  have c: "claim_id_ok c" using assms(5) by (rule decode_ok_wf)
  obtain t where t: "proofs db = Some t" using assms(1) by (auto simp: sqlite_inv_def)
  obtain v1 db1 t1 where r1: "retrieve_rest E (any_backend_ops E) env1 c r v = (Ok (proof_from_bytes pt), v1)"
    "storage v1 = Sqlite db1" "proofs db1 = Some t1"
    using sqlite_retrieve_rest [OF assms(2) t assms(3) c assms(7,9)] by blast
  obtain v2 where r2: "retrieve_rest E (any_backend_ops E) env2 c r v1 = (Ok (proof_from_bytes pt), v2)"
    using sqlite_retrieve_rest [OF r1(2,3) assms(4) c assms(8,9)] by blast
  show ?thesis
    by (simp add: f r1(1) r2)
qed

theorem concurrent_retrievals_both_succeed_witness:
  "fst (run_schedule ref_ext (any_backend_ops ref_ext) [0, 1, 0, 1]
      ([Call (OpRetrieve (at_instant 4) sample_token), Call (OpRetrieve (at_instant 5) sample_token)], timed_db 100)) =
    [Answered (Retrieved (Ok (proof_from_bytes (as_bytes ''{}'')))), Answered (Retrieved (Ok (proof_from_bytes (as_bytes ''{}''))))]"
proof -
  have t: "rfc3339_range 100" by (simp add: rfc3339_range_def)
  let ?db = "\<lparr>proofs = Some [(replicate 16 1, row_of ref_ext (timed_record 100))], db_mode = 0x180\<rparr>"
  have db: "storage (timed_db 100) = Sqlite ?db" by (simp add: timed_db_def vault_new_def)
  have inv: "sqlite_inv ref_ext ?db" using timed_db_facts(1) [OF t] by (simp add: db)
  have calm: "calm_call (at_instant x)" for x by (simp add: calm_call_def calm_io_def)
  have r: "sqlite_abs ref_ext ?db (record_id (claim_id_new (replicate 16 1) (replicate 32 7))) = Some (timed_record 100)"
    using timed_db_facts(3) [OF t] by (simp add: db claim_id_new_def)
  show ?thesis
    by (rule concurrent_retrievals_both_succeed [OF inv db calm calm sample_token_decodes r _ _ sample_opens])
      (simp_all add: is_expired_def timed_record_def)
qed

end
