(* ===== verification/Concurrent_Handoff.thy ===== *)
theory Concurrent_Handoff
  imports Vault_Concurrency
begin

text \<open>
  The handoff under concurrency: one retrieval of a live record, interleaved in any
  way with any calls that do not concern the record. An invariant of the
  configurations of \<open>Vault_Concurrency\<close> says where the retrieval stands and
  that its record is still there while it is needed.
\<close>

text \<open>A call in flight that leaves the record alone, and one that is about to deliver it.\<close>

fun leaves_alone :: "ext \<Rightarrow> bytes \<Rightarrow> datetime option \<Rightarrow> 'io task \<Rightarrow> bool" where
  "leaves_alone E rid ex (Call op) = avoids E rid ex op"
| "leaves_alone E rid ex (RetrieveFetched env c r) = (record_id c \<noteq> rid)"
| "leaves_alone E rid ex (DeleteFetched env c r) = (record_id c \<noteq> rid)"
| "leaves_alone E rid ex (Answered a) = True"

fun delivering ::
  "'io call_env \<Rightarrow> string \<Rightarrow> claim_id \<Rightarrow> stored_record \<Rightarrow> bytes \<Rightarrow> store \<Rightarrow> 'io task \<Rightarrow> bool" where
  "delivering env tok c r pt m (Call op) = (op = OpRetrieve env tok \<and> m (record_id c) = Some r)"
| "delivering env tok c r pt m (RetrieveFetched env' c' r') = (env' = env \<and> c' = c \<and> r' = r \<and> m (record_id c) = Some r)"
| "delivering env tok c r pt m (DeleteFetched env' c' r') = False"
| "delivering env tok c r pt m (Answered a) =
     (a = Retrieved (Ok (proof_from_bytes pt)) \<or> (\<exists>se. a = Retrieved (Err (Storage se))))"

lemma delivering_frame:
  assumes "delivering env tok c r pt m t" "m (record_id c) = Some r \<longrightarrow> m' (record_id c) = Some r"
  shows "delivering env tok c r pt m' t"
  using assms by (cases t) auto

context backend_contract
begin

lemma op_frame:
  assumes "inv (storage v)" "op_ok storable clock_ok E op" "avoids E rid (expires_at r) op"
    and "run_op E B op v = (a, v')"
  shows "inv (storage v') \<and> (abs (storage v) rid = Some r \<longrightarrow> abs (storage v') rid = Some r)"
proof -
  have c: "inv (storage v')" "op_conforms E op (abs (storage v)) a (abs (storage v'))"
    using run_op_conforms [OF assms(1,2,4)] by auto
  then show ?thesis
    using spec_op_frame [OF assms(3)] by (metis op_conforms_def snd_conv)
qed

lemma fetch_step_frame:
  assumes "inv (storage v)" "\<not> token_for E rid tok" "fetch_for E B env tok v = (res, v')"
  shows "inv (storage v') \<and> abs (storage v') = abs (storage v) \<and>
    (\<forall>c r. res = Ok (c, r) \<longrightarrow> claim_id_ok c \<and> record_id c \<noteq> rid)"
  using fetch_for_spec [OF assms(1,3)] assms(2) by (auto simp: token_for_def)

lemma other_step:
  assumes "inv (storage v)" "task_ok storable clock_ok E t" "leaves_alone E rid (expires_at r) t"
    and "task_step E B t v = (t', v')"
  shows "inv (storage v') \<and> task_ok storable clock_ok E t' \<and> leaves_alone E rid (expires_at r) t' \<and>
    (abs (storage v) rid = Some r \<longrightarrow> abs (storage v') rid = Some r)"
proof (cases t)
  case (Call op)
  show ?thesis
  proof (cases op)
    case (OpRetrieve env tok)
    obtain fr v1 where f: "fetch_for E B env tok v = (fr, v1)" by fastforce
    from fetch_step_frame [OF assms(1) _ f, of rid] show ?thesis
      using assms(3,4) Call OpRetrieve f by (cases fr) auto
  next
    case (OpDelete env tok)
    obtain fr v1 where f: "fetch_for E B env tok v = (fr, v1)" by fastforce
    from fetch_step_frame [OF assms(1) _ f, of rid] show ?thesis
      using assms(3,4) Call OpDelete f by (cases fr) auto
  next
    case (OpStore env p ttl)
    then show ?thesis
      using op_frame [OF assms(1), of E op rid r "fst (run_op E B op v)" v'] assms(2-4) Call
      by (auto simp: map_prod_obtain prod_eq_iff)
  next
    case (OpCleanup env)
    then show ?thesis
      using op_frame [OF assms(1), of E op rid r "fst (run_op E B op v)" v'] assms(2-4) Call
      by (auto simp: map_prod_obtain prod_eq_iff)
  qed
next
  case (RetrieveFetched env c r')
  obtain res where "retrieve_rest E B env c r' v = (res, v')" "t' = Answered (Retrieved res)"
    using assms(4) RetrieveFetched by (auto simp: map_prod_def split: prod.splits)
  with retrieve_rest_spec [OF assms(1)] assms(2,3) RetrieveFetched show ?thesis by fastforce
next
  case (DeleteFetched env c r')
  obtain res where "delete_rest E B env c r' v = (res, v')" "t' = Answered (Deleted res)"
    using assms(4) DeleteFetched by (auto simp: map_prod_def split: prod.splits)
  with delete_rest_spec [OF assms(1)] assms(2,3) DeleteFetched show ?thesis by fastforce
next
  case (Answered a)
  with assms show ?thesis by auto
qed

lemma own_step:
  assumes "inv (storage v)" "claim_id_decode E tok = Ok c" "\<not> is_expired (now_check env) r" "open_record E c r = Some pt"
    and "delivering env tok c r pt (abs (storage v)) t" "task_step E B t v = (t', v')"
  shows "inv (storage v') \<and> task_ok storable clock_ok E t' \<and> delivering env tok c r pt (abs (storage v')) t'"
proof (cases t)
  case (Call op)
  then have op: "op = OpRetrieve env tok" and held: "abs (storage v) (record_id c) = Some r"
    using assms(5) by simp_all
  obtain fr v1 where f: "fetch_for E B env tok v = (fr, v1)" by fastforce
  note fs = fetch_for_spec [OF assms(1) f]
  have "fr = Ok (c, r) \<or> (\<exists>se. fr = Err (Storage se))"
    using assms(1,2)
  proof (cases rule: fetch_step [where io = "io_first env"])
    case (fetched r0 s1)
    then show ?thesis using f assms(2) held by (simp add: fetch_for_def)
  next
    case (missing s1)
    then show ?thesis using held by simp
  next
    case (failed e s1)
    then show ?thesis using f assms(2) by (auto simp: fetch_for_def)
  qed
  then show ?thesis
    using assms(2,6) Call op f fs held by auto
next
  case (RetrieveFetched env' c' r')
  then have same: "env' = env" "c' = c" "r' = r" using assms(5) by simp_all
  have c: "claim_id_ok c" using assms(2) by (rule decode_ok_wf)
  obtain rd v1 where d: "on_storage (be_delete B (io_second env) (record_id c)) v = (rd, v1)" by fastforce
  have key: "length (encryption_key c) = 32" "length (nonce (encrypted r)) = 12"
    "aes_gcm_decrypt E (encryption_key c) (nonce (encrypted r)) (ciphertext (encrypted r)) = Some pt"
    using c assms(4) by (auto simp: claim_id_ok_def open_record_def split: if_splits)
  have "\<not> is_panic rd"
    using assms(1,2) by (cases rule: delete_step [where io = "io_second env"]) (use d in auto)
  then show ?thesis
    using assms(3,6) RetrieveFetched same key d delete_call_spec [OF assms(1) c d]
    by (cases rd) (auto simp: retrieve_rest_def from_slice_def)
qed (use assms in auto)

lemma interleave_delivering:
  assumes "interleave E B (ts, v) (ts', v')" "inv (storage v)" "k < length ts"
    and "\<forall>t \<in> set ts. task_ok storable clock_ok E t"
    and "\<forall>i < length ts. i \<noteq> k \<longrightarrow> leaves_alone E (record_id c) (expires_at r) (ts ! i)"
    and "delivering env tok c r pt (abs (storage v)) (ts ! k)"
    and claim: "claim_id_decode E tok = Ok c" "\<not> is_expired (now_check env) r" "open_record E c r = Some pt"
  shows "inv (storage v') \<and> k < length ts' \<and> (\<forall>t \<in> set ts'. task_ok storable clock_ok E t) \<and>
    (\<forall>i < length ts'. i \<noteq> k \<longrightarrow> leaves_alone E (record_id c) (expires_at r) (ts' ! i)) \<and>
    delivering env tok c r pt (abs (storage v')) (ts' ! k)"
proof -
  obtain i t' where 1: "ts' = ts[i := t']" "i < length ts" "task_step E B (ts ! i) v = (t', v')"
    using assms(1) by (auto elim: interleaveE)
  have ok: "task_ok storable clock_ok E (ts ! i)" using assms(4) 1(2) by simp
  have new: "\<forall>t \<in> set ts'. task_ok storable clock_ok E t" if "task_ok storable clock_ok E t'"
    using 1(1) that assms(4) by (auto dest!: set_update_subset_insert [THEN subsetD])
  show ?thesis
  proof (cases "i = k")
    case True
    then show ?thesis
      using own_step [OF assms(2) claim _ 1(3)] new assms(3,5,6) 1(1) by simp
  next
    case False
    then show ?thesis
      using other_step [OF assms(2) ok _ 1(3), of "record_id c" r] new assms(3,5,6) 1(1,2) delivering_frame
      by (simp add: nth_list_update) blast
  qed
qed

lemma interleavings_delivering:
  assumes "(interleave E B)\<^sup>*\<^sup>* (ts, v) (ts', v')" "inv (storage v)" "k < length ts"
    and "\<forall>t \<in> set ts. task_ok storable clock_ok E t"
    and "\<forall>i < length ts. i \<noteq> k \<longrightarrow> leaves_alone E (record_id c) (expires_at r) (ts ! i)"
    and "delivering env tok c r pt (abs (storage v)) (ts ! k)"
    and claim: "claim_id_decode E tok = Ok c" "\<not> is_expired (now_check env) r" "open_record E c r = Some pt"
  shows "inv (storage v') \<and> k < length ts' \<and> (\<forall>t \<in> set ts'. task_ok storable clock_ok E t) \<and>
    (\<forall>i < length ts'. i \<noteq> k \<longrightarrow> leaves_alone E (record_id c) (expires_at r) (ts' ! i)) \<and>
    delivering env tok c r pt (abs (storage v')) (ts' ! k)"
  using assms(1)
proof (induction "(ts', v')" arbitrary: ts' v' rule: rtranclp_induct)
  case base
  then show ?case using assms(2-6) by simp
next
  case (step c')
  obtain ts1 v1 where c': "c' = (ts1, v1)" by fastforce
  have s: "interleave E B (ts1, v1) (ts', v')" using step.hyps(2) c' by simp
  note ih = step.hyps(3) [OF c']
  show ?case
    using interleave_delivering [OF s _ _ _ _ _ claim] ih by blast
qed

end

text \<open>
  C13: the handoff among concurrent calls. A retrieval with a valid token of a live
  record is interleaved in any way with any other calls that do not concern the
  record, under any storage failures. As long as the retrieval has no answer, the
  record is there and some call can move; and when it has one, it is the plaintext
  or a storage error.
\<close>

theorem concurrent_handoff:
  assumes "(interleave E (any_backend_ops E))\<^sup>*\<^sup>* (map Call ops, v) (ts', v')" "any_inv E (storage v)"
    and "k < length ops" "ops ! k = OpRetrieve env tok" "\<forall>op \<in> set ops. any_op_ok E op"
    and "claim_id_decode E tok = Ok c" "any_abs E (storage v) (record_id c) = Some r"
    and "\<not> is_expired (now_check env) r" "open_record E c r = Some pt"
    and "\<forall>i < length ops. i \<noteq> k \<longrightarrow> avoids E (record_id c) (expires_at r) (ops ! i)"
  shows "(\<not> answered (ts' ! k) \<longrightarrow>
      any_abs E (storage v') (record_id c) = Some r \<and> (\<exists>c'. interleave E (any_backend_ops E) (ts', v') c')) \<and>
    (answered (ts' ! k) \<longrightarrow> ts' ! k = Answered (Retrieved (Ok (proof_from_bytes pt))) \<or>
      (\<exists>se. ts' ! k = Answered (Retrieved (Err (Storage se)))))"
proof -
  have "k < length ts' \<and> delivering env tok c r pt (any_abs E (storage v')) (ts' ! k)"
    using any_store.interleavings_delivering [OF assms(1,2) _ _ _ _ assms(6,8,9), of k] assms(3-5,7,10) by simp
  then have "k < length ts'" "delivering env tok c r pt (any_abs E (storage v')) (ts' ! k)" by simp_all
  moreover have "\<exists>c'. interleave E (any_backend_ops E) (ts', v') c'" if "\<not> answered (ts' ! k)"
    using stuck_answered [of E "any_backend_ops E" ts' v'] that \<open>k < length ts'\<close> nth_mem by blast
  ultimately show ?thesis
    by (cases "ts' ! k") auto
qed

theorem concurrent_handoff_witness:
  "\<exists>ts' v'. (interleave ref_ext (any_backend_ops ref_ext))\<^sup>*\<^sup>*
      (map Call [OpCleanup (at_instant 4), OpRetrieve (at_instant 5) sample_token], timed_db 100) (ts', v') \<and>
     (ts' ! 1 = Answered (Retrieved (Ok (proof_from_bytes (as_bytes ''{}'')))) \<or>
      (\<exists>se. ts' ! 1 = Answered (Retrieved (Err (Storage se)))))"
proof -
  let ?ops = "[OpCleanup (at_instant 4), OpRetrieve (at_instant 5) sample_token]"
  let ?c = "claim_id_new (replicate 16 1) (replicate 32 7)"
  have t: "rfc3339_range 100" by (simp add: rfc3339_range_def)
  obtain ts' v' where run: "(interleave ref_ext (any_backend_ops ref_ext))\<^sup>*\<^sup>* (map Call ?ops, timed_db 100) (ts', v')"
    and a: "\<forall>t \<in> set ts'. answered t"
    using interleave_completes by blast
  have k: "1 < length ?ops" "?ops ! 1 = OpRetrieve (at_instant 5) sample_token"
    and ok: "\<forall>op \<in> set ?ops. any_op_ok ref_ext op"
    by (simp_all add: rfc3339_range_def)
  have r: "any_abs ref_ext (storage (timed_db 100)) (record_id ?c) = Some (timed_record 100)"
    by (simp add: timed_db_facts(3) [OF t] claim_id_new_def)
  have live: "\<not> is_expired (now_check (at_instant 5)) (timed_record 100)"
    by (simp add: is_expired_def timed_record_def)
  have others: "\<forall>i < length ?ops. i \<noteq> 1 \<longrightarrow> avoids ref_ext (record_id ?c) (expires_at (timed_record 100)) (?ops ! i)"
    by (auto simp: less_Suc_eq timed_record_def)
  note c = concurrent_handoff [OF run timed_db_facts(1) [OF t] k ok sample_token_decodes r live sample_opens others]
  have "length ts' = 2"
    using run by (induction "(ts', v')" arbitrary: ts' v' rule: rtranclp_induct) (auto elim: interleave.cases)
  with a have "answered (ts' ! 1)" by simp
  with c run show ?thesis by blast
qed

end
