(* ===== verification/File_Locking.thy ===== *)
theory File_Locking
  imports Crash_Safety
begin

text \<open>
  The two locks of \<^verbatim>\<open>src/storage/local_file.rs\<close>. A call first takes the
  \<open>tokio\<close> mutex of its store (one per process), runs on the blocking pool, opens
  the lock file and takes the exclusive file lock; both guards are dropped when the call
  returns. Here the calls of any number of processes on one vault file are interleaved
  system call by system call, and every interleaving is shown to have the answers and
  the effect of running the operations of \<open>Local_File\<close> one after the other.
  This is what lets \<open>Vault_Concurrency\<close> treat a storage call as one step.
\<close>

section \<open>One call, system call by system call\<close>

datatype file_op =
    FInsert bytes stored_record
  | FFetch bytes
  | FDelete bytes
  | FDeleteExpired datetime

datatype file_answer =
    Inserted "(unit, storage_error) result"
  | Fetched "(stored_record, storage_error) result"
  | Removed "(bool, storage_error) result"
  | Purged "(nat, storage_error) result"

fun file_call :: "ext \<Rightarrow> path \<Rightarrow> file_op \<times> file_io \<Rightarrow> fs \<Rightarrow> file_answer \<times> fs" where
  "file_call E vp (FInsert rid r, io) d = map_prod Inserted id (local_file_insert E vp io rid r d)"
| "file_call E vp (FFetch rid, io) d = map_prod Fetched id (local_file_fetch E vp io rid d)"
| "file_call E vp (FDelete rid, io) d = map_prod Removed id (local_file_delete E vp io rid d)"
| "file_call E vp (FDeleteExpired now, io) d = map_prod Purged id (local_file_delete_expired E vp io now d)"

fun failed :: "file_op \<Rightarrow> storage_error \<Rightarrow> file_answer" where
  "failed (FInsert rid r) e = Inserted (Err e)"
| "failed (FFetch rid) e = Fetched (Err e)"
| "failed (FDelete rid) e = Removed (Err e)"
| "failed (FDeleteExpired now) e = Purged (Err e)"

fun panicked :: "file_op \<Rightarrow> string \<Rightarrow> file_answer" where
  "panicked (FInsert rid r) m = Inserted (Panic m)"
| "panicked (FFetch rid) m = Fetched (Panic m)"
| "panicked (FDelete rid) m = Removed (Panic m)"
| "panicked (FDeleteExpired now) m = Purged (Panic m)"

text \<open>
  The next system call of a call: the mutex, the blocking pool, the lock file, the file
  lock, the read, and the five calls of \<open>write_atomic\<close>. The state to be written
  and the answer after a successful write are fixed once the state has been read.
\<close>

datatype call_pc =
    AtMutex | AtSpawn | AtOpen | AtLock | AtRead
  | AtCreate disk_state file_answer
  | AtWrite disk_state file_answer
  | AtFlush file_answer
  | AtPersist file_answer
  | AtChmod file_answer
  | Returned file_answer

fun after_read :: "ext \<Rightarrow> file_op \<Rightarrow> disk_state \<Rightarrow> call_pc" where
  "after_read E (FInsert rid r) st = AtCreate (btree_insert (uuid_hyphenated E rid) r st) (Inserted (Ok ()))"
| "after_read E (FFetch rid) st =
     Returned (Fetched (case map_of st (uuid_hyphenated E rid) of None \<Rightarrow> Err NotFound | Some r \<Rightarrow> Ok r))"
| "after_read E (FDelete rid) st =
     (let existed = map_of st (uuid_hyphenated E rid) \<noteq> None in
      if existed then AtCreate (entries_remove (uuid_hyphenated E rid) st) (Removed (Ok existed))
      else Returned (Removed (Ok existed)))"
| "after_read E (FDeleteExpired now) st =
     (let kept = entries_retain (\<lambda>_ r. case expires_at r of None \<Rightarrow> True | Some t \<Rightarrow> t > now) st;
          removed = length st - length kept in
      if removed > 0 then AtCreate kept (Purged (Ok removed)) else Returned (Purged (Ok removed)))"

text \<open>A failing system call ends the call; before the rename the temporary file goes with it.\<close>

definition or_return :: "file_op \<Rightarrow> ('a, storage_error) result \<times> fs \<Rightarrow> ('a \<Rightarrow> fs \<Rightarrow> call_pc \<times> fs) \<Rightarrow> call_pc \<times> fs" where
  "or_return op rd k =
     (case rd of
        (Ok a, d) \<Rightarrow> k a d
      | (Err e, d) \<Rightarrow> (Returned (failed op e), d)
      | (Panic m, d) \<Rightarrow> (Returned (panicked op m), d))"

definition temp_of :: "path \<Rightarrow> file_io \<Rightarrow> path" where
  "temp_of vp io = temp_path io (the (path_parent vp))"

fun call_step :: "ext \<Rightarrow> path \<Rightarrow> file_op \<times> file_io \<Rightarrow> call_pc \<times> fs \<Rightarrow> call_pc \<times> fs" where
  "call_step E vp (op, io) (AtMutex, d) = (AtSpawn, d)"
| "call_step E vp (op, io) (AtSpawn, d) = or_return op (sys io Spawn d) (\<lambda>_ d. (AtOpen, d))"
| "call_step E vp (op, io) (AtOpen, d) = or_return op (open_lock_file io vp d) (\<lambda>_ d. (AtLock, d))"
| "call_step E vp (op, io) (AtLock, d) = or_return op (sys io LockWrite d) (\<lambda>_ d. (AtRead, d))"
| "call_step E vp (op, io) (AtRead, d) = or_return op (read_state E io vp d) (\<lambda>st d. (after_read E op st, d))"
| "call_step E vp (op, io) (AtCreate st a, d) =
     (if path_parent vp = None then (Returned (failed op (Io ''vault path has no parent'')), d)
      else or_return op (sys io CreateTemp d) (\<lambda>_ d.
        if d (temp_of vp io) \<noteq> None then (Returned (failed op (Io ''too many temporary files exist'')), d)
        else (AtWrite st a, d(temp_of vp io \<mapsto> \<lparr>content = [], mode = temp_mode io\<rparr>))))"
| "call_step E vp (op, io) (AtWrite st a, d) =
     or_return op (drop_temp (temp_of vp io)
         (try_op (map_err Json (serde_to_vec_pretty E (disk_state_serialize E st)), d) (\<lambda>bs d.
          try_op (sys io WriteTemp d) (\<lambda>_ d. (Ok bs, d))))) (\<lambda>bs d.
       (AtFlush a, d(temp_of vp io \<mapsto> \<lparr>content = bs, mode = temp_mode io\<rparr>)))"
| "call_step E vp (op, io) (AtFlush a, d) =
     or_return op (drop_temp (temp_of vp io) (sys io FlushTemp d)) (\<lambda>_ d. (AtPersist a, d))"
| "call_step E vp (op, io) (AtPersist a, d) =
     or_return op (drop_temp (temp_of vp io) (sys io PersistTemp d)) (\<lambda>_ d.
       (AtChmod a, (d(temp_of vp io := None))(vp := d (temp_of vp io))))"
| "call_step E vp (op, io) (AtChmod a, d) =
     or_return op (sys io SetPermissions d) (\<lambda>_ d.
       (Returned a, d(vp := map_option (mode_update (\<lambda>_. 0x180)) (d vp))))"
| "call_step E vp (op, io) (Returned a, d) = (Returned a, d)"

fun rank :: "call_pc \<Rightarrow> nat" where
  "rank AtMutex = 10"
| "rank AtSpawn = 9"
| "rank AtOpen = 8"
| "rank AtLock = 7"
| "rank AtRead = 6"
| "rank (AtCreate st a) = 5"
| "rank (AtWrite st a) = 4"
| "rank (AtFlush a) = 3"
| "rank (AtPersist a) = 2"
| "rank (AtChmod a) = 1"
| "rank (Returned a) = 0"

lemma rank_zero: "rank pc = 0 \<longleftrightarrow> (\<exists>a. pc = Returned a)"
  by (cases pc) auto

lemma after_read_rank: "rank (after_read E op st) < 6"
  by (cases op) (auto simp: Let_def)

lemma call_step_rank: "rank pc \<noteq> 0 \<Longrightarrow> rank (fst (call_step E vp c (pc, d))) < rank pc"
  by (cases c; cases pc) (auto simp: or_return_def after_read_rank split: prod.splits result.splits)

section \<open>The rest of a call, run alone\<close>

definition finish :: "ext \<Rightarrow> path \<Rightarrow> file_op \<times> file_io \<Rightarrow> call_pc \<times> fs \<Rightarrow> call_pc \<times> fs" where
  "finish E vp c = (call_step E vp c ^^ 10)"

lemma call_steps_returned: "(call_step E vp c ^^ n) (Returned a, d) = (Returned a, d)"
  by (induction n; cases c) auto

lemma call_steps_rank: "rank pc \<le> n \<Longrightarrow> \<exists>a d'. (call_step E vp c ^^ n) (pc, d) = (Returned a, d')"
proof (induction n arbitrary: pc d)
  case 0
  then show ?case by (auto simp: rank_zero)
next
  case (Suc n)
  obtain pc' d' where s: "call_step E vp c (pc, d) = (pc', d')" by fastforce
  have "rank pc' \<le> n"
  proof (cases "rank pc = 0")
    case True
    then show ?thesis using s by (cases c) (auto simp: rank_zero)
  next
    case False
    then show ?thesis using call_step_rank [OF False, of E vp c d] s Suc.prems by simp
  qed
  from Suc.IH [OF this, of d'] s show ?case
    by (simp add: funpow_swap1)
qed

lemma rank_le: "rank pc \<le> 10"
  by (cases pc) auto

lemma finish_returns: "\<exists>a d'. finish E vp c (pc, d) = (Returned a, d')"
  unfolding finish_def by (rule call_steps_rank [OF rank_le])

lemma finish_step [simp]: "finish E vp c (call_step E vp c s) = finish E vp c s"
proof -
  obtain a d where f: "finish E vp c s = (Returned a, d)"
    using finish_returns [of E vp c "fst s" "snd s"] by auto
  have "finish E vp c (call_step E vp c s) = call_step E vp c (finish E vp c s)"
    unfolding finish_def by (rule funpow_swap1 [symmetric])
  with f show ?thesis by (cases c) simp
qed

lemma finish_Returned [simp]: "finish E vp c (Returned a, d) = (Returned a, d)"
  by (simp add: finish_def call_steps_returned)

lemma or_return_bind:
  "finish E vp c (or_return op rd k) =
     (case rd of (Ok a, d) \<Rightarrow> finish E vp c (k a d)
      | (Err e, d) \<Rightarrow> (Returned (failed op e), d) | (Panic m, d) \<Rightarrow> (Returned (panicked op m), d))"
  by (auto simp: or_return_def split: prod.splits result.splits)

text \<open>Unfolding the first step of the rest of a call, for every program counter.\<close>

lemma finish_unfold:
  "finish E vp c (AtMutex, d) = finish E vp c (call_step E vp c (AtMutex, d))"
  "finish E vp c (AtSpawn, d) = finish E vp c (call_step E vp c (AtSpawn, d))"
  "finish E vp c (AtOpen, d) = finish E vp c (call_step E vp c (AtOpen, d))"
  "finish E vp c (AtLock, d) = finish E vp c (call_step E vp c (AtLock, d))"
  "finish E vp c (AtRead, d) = finish E vp c (call_step E vp c (AtRead, d))"
  "finish E vp c (AtCreate st a, d) = finish E vp c (call_step E vp c (AtCreate st a, d))"
  "finish E vp c (AtWrite st a, d) = finish E vp c (call_step E vp c (AtWrite st a, d))"
  "finish E vp c (AtFlush a, d) = finish E vp c (call_step E vp c (AtFlush a, d))"
  "finish E vp c (AtPersist a, d) = finish E vp c (call_step E vp c (AtPersist a, d))"
  "finish E vp c (AtChmod a, d) = finish E vp c (call_step E vp c (AtChmod a, d))"
  by (simp_all only: finish_step)

text \<open>The five system calls of the write are \<open>write_atomic\<close>, and the whole call is the operation.\<close>

lemma finish_write:
  "finish E vp (op, io) (AtCreate st a, d) =
     (case write_atomic E io vp st d of
        (Ok _, d') \<Rightarrow> (Returned a, d')
      | (Err e, d') \<Rightarrow> (Returned (failed op e), d')
      | (Panic m, d') \<Rightarrow> (Returned (panicked op m), d'))"
proof (cases "path_parent vp")
  case None
  then show ?thesis
    by (simp add: finish_unfold write_atomic_def del: finish_step)
next
  case (Some dir)
  show ?thesis
    by (cases "serde_to_vec_pretty E (disk_state_serialize E st)")
      (simp_all add: finish_unfold or_return_bind write_atomic_def Some temp_of_def sys_def drop_temp_def Let_def
        del: finish_step split: option.splits)
qed

lemma finish_call:
  "finish E vp (op, io) (AtMutex, d) = map_prod Returned id (file_call E vp (op, io) d)"
proof (cases "read_state E io vp (snd (open_lock_file io vp d))")
  case (Pair r d1)
  then show ?thesis
    by (cases op; cases r)
      (auto simp: finish_unfold(1-5) finish_write or_return_bind with_locked_state_def open_lock_file_def sys_def Let_def
        local_file_insert_def local_file_fetch_def local_file_delete_def local_file_delete_expired_def
        split: option.splits prod.splits result.splits)
qed

section \<open>The lock file does not matter to the others\<close>

text \<open>
  Two disks that differ at most in the lock file, and two outcomes with the same
  program counter on such disks.
\<close>

definition same_vault :: "path \<Rightarrow> fs \<Rightarrow> fs \<Rightarrow> bool" where
  "same_vault vp d d' \<longleftrightarrow> (\<forall>p. p \<noteq> lock_path vp \<longrightarrow> d p = d' p)"

definition alike :: "path \<Rightarrow> call_pc \<times> fs \<Rightarrow> call_pc \<times> fs \<Rightarrow> bool" where
  "alike vp x y \<longleftrightarrow> fst x = fst y \<and> same_vault vp (snd x) (snd y)"

lemma same_vault_refl [simp]: "same_vault vp d d"
  by (simp add: same_vault_def)

lemma same_vault_sym: "same_vault vp d d' \<Longrightarrow> same_vault vp d' d"
  by (simp add: same_vault_def)

lemma same_vault_trans: "\<lbrakk>same_vault vp d d'; same_vault vp d' d''\<rbrakk> \<Longrightarrow> same_vault vp d d''"
  by (simp add: same_vault_def)

lemma same_vault_upd: "same_vault vp d d' \<Longrightarrow> same_vault vp (d(p := x)) (d'(p := x))"
  by (simp add: same_vault_def)

lemma same_vault_at: "\<lbrakk>same_vault vp d d'; p \<noteq> lock_path vp\<rbrakk> \<Longrightarrow> d p = d' p"
  by (simp add: same_vault_def)

lemma alike_refl [simp]: "alike vp x x"
  by (simp add: alike_def)

lemma alike_sym: "alike vp x y \<Longrightarrow> alike vp y x"
  by (simp add: alike_def same_vault_sym)

lemma alike_trans: "\<lbrakk>alike vp x y; alike vp y z\<rbrakk> \<Longrightarrow> alike vp x z"
  by (auto simp: alike_def intro: same_vault_trans)

definition call_paths_ok :: "path \<Rightarrow> file_op \<times> file_io \<Rightarrow> bool" where
  "call_paths_ok vp c \<longleftrightarrow> lock_path vp \<noteq> vp \<and> temp_of vp (snd c) \<noteq> lock_path vp"

lemma open_lock_alike:
  assumes "same_vault vp d d'"
  shows "alike vp (or_return op (open_lock_file io vp d) (\<lambda>_ d. (AtLock, d)))
    (or_return op (open_lock_file io vp d') (\<lambda>_ d. (AtLock, d)))"
  using assms by (auto simp: open_lock_file_def sys_def or_return_def alike_def same_vault_def split: option.splits)

lemma call_step_alike:
  assumes "call_paths_ok vp c" "same_vault vp d d'"
  shows "alike vp (call_step E vp c (pc, d)) (call_step E vp c (pc, d'))"
proof -
  obtain op io where c: "c = (op, io)" by (cases c)
  have at: "d vp = d' vp" "d (temp_of vp io) = d' (temp_of vp io)"
    using assms by (auto simp: call_paths_ok_def same_vault_def c)
  note defs = c sys_def drop_temp_def or_return_def alike_def
  show ?thesis
  proof (cases pc)
    case (AtWrite st a)
    then show ?thesis
      using assms(2) by (cases "serde_to_vec_pretty E (disk_state_serialize E st)")
        (auto simp: defs intro!: same_vault_upd split: option.splits)
  next
    case AtOpen
    then show ?thesis
      using open_lock_alike [OF assms(2), of op io] by (simp add: c)
  next
    case AtRead
    then show ?thesis
      using assms(2) at by (auto simp: defs read_state_def split: option.splits result.splits)
  qed (use assms(2) at in \<open>auto simp: defs intro!: same_vault_upd split: option.splits\<close>)
qed

lemma finish_alike:
  assumes "call_paths_ok vp c" "same_vault vp d d'"
  shows "alike vp (finish E vp c (pc, d)) (finish E vp c (pc, d'))"
proof -
  have "alike vp ((call_step E vp c ^^ n) (pc, d)) ((call_step E vp c ^^ n) (pc, d'))" for n
  proof (induction n)
    case (Suc n)
    then show ?case
      using call_step_alike [OF assms(1)] by (simp add: alike_def) (metis prod.collapse)
  qed (use assms(2) in \<open>simp add: alike_def\<close>)
  then show ?thesis by (simp add: finish_def)
qed

section \<open>Many calls and two kinds of lock\<close>

text \<open>
  A call belongs to a process. The configuration holds the program counters, the disk,
  the mutex of every process, the owner of the file lock, and, as auxiliary state, the
  order in which calls have returned.
\<close>

type_synonym file_calls = "(nat \<times> file_op \<times> file_io) list"

record lock_config =
  pcs :: "call_pc list"
  disk :: fs
  mutex :: "nat \<rightharpoonup> nat"
  file_lock :: "nat option"
  served :: "nat list"

definition lock_start :: "file_calls \<Rightarrow> fs \<Rightarrow> lock_config" where
  "lock_start cs d = \<lparr>pcs = map (\<lambda>_. AtMutex) cs, disk = d, mutex = Map.empty, file_lock = None, served = []\<rparr>"

definition may_move :: "file_calls \<Rightarrow> lock_config \<Rightarrow> nat \<Rightarrow> bool" where
  "may_move cs s i \<longleftrightarrow> i < length cs \<and> rank (pcs s ! i) \<noteq> 0 \<and>
     (pcs s ! i = AtMutex \<longrightarrow> mutex s (fst (cs ! i)) = None) \<and>
     (pcs s ! i = AtLock \<and> fault (snd (snd (cs ! i))) LockWrite = None \<longrightarrow> file_lock s = None)"

definition move :: "ext \<Rightarrow> path \<Rightarrow> file_calls \<Rightarrow> nat \<Rightarrow> lock_config \<Rightarrow> lock_config" where
  "move E vp cs i s =
     (case call_step E vp (snd (cs ! i)) (pcs s ! i, disk s) of (pc', d') \<Rightarrow>
      \<lparr>pcs = (pcs s)[i := pc'],
       disk = d',
       mutex = (if pcs s ! i = AtMutex then (mutex s)(fst (cs ! i) \<mapsto> i)
                else if rank pc' = 0 \<and> mutex s (fst (cs ! i)) = Some i then (mutex s)(fst (cs ! i) := None) else mutex s),
       file_lock = (if pc' = AtRead then Some i
                    else if rank pc' = 0 \<and> file_lock s = Some i then None else file_lock s),
       served = (if rank pc' = 0 then served s @ [i] else served s)\<rparr>)"

text \<open>
  The caller may go away while its call runs on the blocking pool (its future is
  dropped). That drops the mutex guard at once; the closure on the pool goes on and holds
  the file lock. A caller that goes away while it still waits for the mutex simply makes no
  further step.
\<close>

definition abandon :: "file_calls \<Rightarrow> nat \<Rightarrow> lock_config \<Rightarrow> lock_config" where
  "abandon cs i s = s\<lparr>mutex := (mutex s)(fst (cs ! i) := None)\<rparr>"

inductive lock_step :: "ext \<Rightarrow> path \<Rightarrow> file_calls \<Rightarrow> lock_config \<Rightarrow> lock_config \<Rightarrow> bool"
  for E :: ext and vp :: path and cs :: file_calls where
  moves: "may_move cs s i \<Longrightarrow> lock_step E vp cs s (move E vp cs i s)"
| abandoned: "\<lbrakk>i < length cs; mutex s (fst (cs ! i)) = Some i\<rbrakk> \<Longrightarrow> lock_step E vp cs s (abandon cs i s)"

inductive_cases lock_stepE: "lock_step E vp cs s s'"

text \<open>The operations of \<open>Local_File\<close>, one after the other.\<close>

fun serial :: "ext \<Rightarrow> path \<Rightarrow> file_calls \<Rightarrow> nat list \<Rightarrow> fs \<Rightarrow> (nat \<times> file_answer) list \<times> fs" where
  "serial E vp cs [] d = ([], d)"
| "serial E vp cs (i # is) d =
     (case file_call E vp (snd (cs ! i)) d of (a, d1) \<Rightarrow>
      (case serial E vp cs is d1 of (as, d2) \<Rightarrow> ((i, a) # as, d2)))"

lemma serial_snoc:
  "serial E vp cs (is @ [i]) d =
     (case serial E vp cs is d of (as, d1) \<Rightarrow> (case file_call E vp (snd (cs ! i)) d1 of (a, d2) \<Rightarrow> (as @ [(i, a)], d2)))"
  by (induction "is" arbitrary: d) (auto split: prod.splits)

section \<open>The invariant\<close>

definition waiting :: "call_pc \<Rightarrow> bool" where
  "waiting pc \<longleftrightarrow> 7 \<le> rank pc"

definition in_section :: "call_pc \<Rightarrow> bool" where
  "in_section pc \<longleftrightarrow> 0 < rank pc \<and> rank pc < 7"

lemma pc_kinds: "(\<exists>a. pc = Returned a) \<or> waiting pc \<or> in_section pc"
  by (cases pc) (auto simp: waiting_def in_section_def)

lemma kinds_simps [simp]:
  "\<not> waiting (Returned a)" "\<not> in_section (Returned a)" "in_section AtRead" "waiting AtMutex" "waiting AtLock"
  "waiting pc \<Longrightarrow> \<not> in_section pc" "waiting pc \<Longrightarrow> rank pc \<noteq> 0" "in_section pc \<Longrightarrow> rank pc \<noteq> 0"
  by (auto simp: waiting_def in_section_def)

text \<open>
  Before the section a call touches only the lock file, and whether it goes on does not
  depend on the disk; in the section it goes on to its answer.
\<close>

lemma waiting_step:
  assumes "waiting pc" "call_step E vp c (pc, d) = (pc', d')"
  shows "same_vault vp d' d" and "pc' \<noteq> AtMutex" and "pc' = AtRead \<longleftrightarrow> in_section pc'" and "pc' = AtRead \<Longrightarrow> pc = AtLock"
    and "\<exists>x'. call_step E vp c (pc, x) = (pc', x') \<and> same_vault vp x' x"
    and "pc = AtLock \<Longrightarrow> fault (snd c) LockWrite = None \<longleftrightarrow> pc' = AtRead"
  using assms
  by (cases c; cases pc; force simp: waiting_def in_section_def or_return_def sys_def open_lock_file_def same_vault_def
      split: option.splits if_splits)+

lemma section_step:
  assumes "in_section pc" "call_step E vp c (pc, d) = (pc', d')"
  shows "in_section pc' \<or> rank pc' = 0" "pc' \<noteq> AtRead" "pc' \<noteq> AtMutex" "pc \<noteq> AtMutex"
proof -
  have "rank pc' < rank pc"
    using call_step_rank [of pc E vp c d] assms by (simp add: in_section_def)
  then show "in_section pc' \<or> rank pc' = 0" "pc' \<noteq> AtRead" "pc' \<noteq> AtMutex" "pc \<noteq> AtMutex"
    using assms(1) by (auto simp: in_section_def)
qed

text \<open>The books: who has returned, who holds which lock.\<close>

definition lock_books :: "file_calls \<Rightarrow> lock_config \<Rightarrow> bool" where
  "lock_books cs s \<longleftrightarrow> length (pcs s) = length cs \<and> distinct (served s) \<and>
     set (served s) = {i. i < length cs \<and> rank (pcs s ! i) = 0} \<and>
     (\<forall>i. file_lock s = Some i \<longleftrightarrow> i < length cs \<and> in_section (pcs s ! i)) \<and>
     (\<forall>p i. mutex s p = Some i \<longrightarrow> i < length cs \<and> fst (cs ! i) = p \<and> rank (pcs s ! i) \<noteq> 0 \<and> pcs s ! i \<noteq> AtMutex)"

lemma lock_books_step:
  assumes "lock_books cs s" "may_move cs s i"
  shows "lock_books cs (move E vp cs i s)"
proof -
  obtain pc' d' where step: "call_step E vp (snd (cs ! i)) (pcs s ! i, disk s) = (pc', d')" by fastforce
  have i: "i < length cs" "rank (pcs s ! i) \<noteq> 0" using assms(2) by (auto simp: may_move_def)
  have len: "length (pcs s) = length cs" using assms(1) by (simp add: lock_books_def)
  have nth: "pcs (move E vp cs i s) ! k = (if k = i then pc' else pcs s ! k)" if "k < length cs" for k
    using step that len by (simp add: move_def nth_list_update)
  have fields: "length (pcs (move E vp cs i s)) = length cs"
    "served (move E vp cs i s) = (if rank pc' = 0 then served s @ [i] else served s)"
    "file_lock (move E vp cs i s) = (if pc' = AtRead then Some i else if rank pc' = 0 \<and> file_lock s = Some i then None else file_lock s)"
    "mutex (move E vp cs i s) = (if pcs s ! i = AtMutex then (mutex s)(fst (cs ! i) \<mapsto> i)
       else if rank pc' = 0 \<and> mutex s (fst (cs ! i)) = Some i then (mutex s)(fst (cs ! i) := None) else mutex s)"
    using step len by (simp_all add: move_def)
  have new: "i \<notin> set (served s)" using assms(1) i by (auto simp: lock_books_def)
  have books: "distinct (served s)" "set (served s) = {k. k < length cs \<and> rank (pcs s ! k) = 0}"
    "\<And>k. file_lock s = Some k \<longleftrightarrow> k < length cs \<and> in_section (pcs s ! k)"
    "\<And>p k. mutex s p = Some k \<Longrightarrow> k < length cs \<and> fst (cs ! k) = p \<and> rank (pcs s ! k) \<noteq> 0 \<and> pcs s ! k \<noteq> AtMutex"
    using assms(1) by (simp_all add: lock_books_def)
  have kind: "pc' \<noteq> AtMutex" "pc' = AtRead \<Longrightarrow> file_lock s = None"
    "in_section pc' \<longleftrightarrow> pc' = AtRead \<or> in_section (pcs s ! i) \<and> rank pc' \<noteq> 0"
    using waiting_step [OF _ step] section_step [OF _ step] pc_kinds [of "pcs s ! i"] i assms(2)
    by (auto simp: may_move_def rank_zero)
  have first: "rank pc' \<noteq> 0" if "pcs s ! i = AtMutex"
    using step that by (cases "snd (cs ! i)") auto
  have "file_lock (move E vp cs i s) = Some k \<longleftrightarrow> k < length cs \<and> in_section (pcs (move E vp cs i s) ! k)" for k
    using books(3) [of k] books(3) [of i] kind(2,3) i
    by (cases "k = i"; cases "pc' = AtRead"; cases "rank pc' = 0"; cases "file_lock s") (auto simp: fields nth)
  moreover have "k < length cs \<and> fst (cs ! k) = p \<and>
      rank (pcs (move E vp cs i s) ! k) \<noteq> 0 \<and> pcs (move E vp cs i s) ! k \<noteq> AtMutex"
    if "mutex (move E vp cs i s) p = Some k" for p k
    using that books(4) [of p k] kind(1) i first
    by (cases "k = i"; cases "p = fst (cs ! i)"; cases "pcs s ! i = AtMutex"; cases "rank pc' = 0")
      (auto simp: fields nth split: if_splits)
  moreover have "k \<in> set (served (move E vp cs i s)) \<longleftrightarrow> k < length cs \<and> rank (pcs (move E vp cs i s) ! k) = 0" for k
    using new i by (cases "k = i"; cases "rank pc' = 0") (auto simp: fields nth books(2))
  moreover have "distinct (served (move E vp cs i s))"
    using books(1) new by (simp add: fields(2))
  ultimately show ?thesis
    using fields(1) by (auto simp: lock_books_def)
qed

lemma lock_books_abandon: "lock_books cs s \<Longrightarrow> lock_books cs (abandon cs i s)"
  by (simp add: lock_books_def abandon_def)

text \<open>
  The data: a call outside the section would still run as from its beginning, on any
  disk; a call that has returned has the answer it has in the serial run; and the disk is
  that of the serial run, or will be once the call in the section is done.
\<close>

definition not_begun :: "ext \<Rightarrow> path \<Rightarrow> file_calls \<Rightarrow> call_pc list \<Rightarrow> bool" where
  "not_begun E vp cs ps \<longleftrightarrow> (\<forall>i < length cs. waiting (ps ! i) \<longrightarrow>
     (\<forall>x. alike vp (finish E vp (snd (cs ! i)) (ps ! i, x)) (finish E vp (snd (cs ! i)) (AtMutex, x))))"

definition answered :: "call_pc list \<Rightarrow> (nat \<times> file_answer) list \<Rightarrow> bool" where
  "answered ps res \<longleftrightarrow> (\<forall>(i, a) \<in> set res. ps ! i = Returned a)"

definition on_the_way :: "ext \<Rightarrow> path \<Rightarrow> file_calls \<Rightarrow> nat option \<Rightarrow> call_pc list \<Rightarrow> fs \<Rightarrow> fs \<Rightarrow> bool" where
  "on_the_way E vp cs holder ps d x \<longleftrightarrow>
     (case holder of
        None \<Rightarrow> same_vault vp d x
      | Some h \<Rightarrow> alike vp (finish E vp (snd (cs ! h)) (ps ! h, d)) (finish E vp (snd (cs ! h)) (AtMutex, x)))"

definition lock_data :: "ext \<Rightarrow> path \<Rightarrow> file_calls \<Rightarrow> fs \<Rightarrow> lock_config \<Rightarrow> bool" where
  "lock_data E vp cs d0 s \<longleftrightarrow> not_begun E vp cs (pcs s) \<and>
     answered (pcs s) (fst (serial E vp cs (served s) d0)) \<and>
     on_the_way E vp cs (file_lock s) (pcs s) (disk s) (snd (serial E vp cs (served s) d0))"

lemma finish_is_call:
  "finish E vp c (AtMutex, d) = map_prod Returned id (file_call E vp c d)"
  by (cases c) (simp add: finish_call)

lemma waiting_goes_on:
  assumes "call_paths_ok vp c" "waiting pc" "call_step E vp c (pc, d) = (pc', d')"
  shows "alike vp (finish E vp c (pc', x)) (finish E vp c (pc, x))"
proof -
  obtain x' where x': "call_step E vp c (pc, x) = (pc', x')" "same_vault vp x' x"
    using waiting_step(5) [OF assms(2,3)] by blast
  have "finish E vp c (pc, x) = finish E vp c (pc', x')"
    using finish_step [of E vp c "(pc, x)"] x'(1) by simp
  then show ?thesis
    using finish_alike [OF assms(1) same_vault_sym [OF x'(2)]] by simp
qed

lemma serial_fst: "map fst (fst (serial E vp cs is d)) = is"
  by (induction "is" arbitrary: d) (auto split: prod.splits, metis fst_conv)

lemma serial_indices: "(i, a) \<in> set (fst (serial E vp cs is d)) \<Longrightarrow> i \<in> set is"
  using serial_fst [of E vp cs "is" d] by (metis fst_conv image_eqI list.set_map)

text \<open>Another call's move outside the section changes nothing for the call in it.\<close>

lemma section_undisturbed:
  assumes "call_paths_ok vp c" "alike vp (finish E vp c (pc, d)) (finish E vp c (AtMutex, x))"
    and "same_vault vp d' d" "same_vault vp x' x"
  shows "alike vp (finish E vp c (pc, d')) (finish E vp c (AtMutex, x'))"
  using alike_trans [OF finish_alike [OF assms(1,3)] alike_trans [OF assms(2) finish_alike [OF assms(1) same_vault_sym [OF assms(4)]]]] .

text \<open>What a move leaves of the three parts.\<close>

lemma move_pcs:
  assumes "lock_books cs s" "call_step E vp (snd (cs ! i)) (pcs s ! i, disk s) = (pc', d')" "k < length cs"
  shows "pcs (move E vp cs i s) ! k = (if k = i then pc' else pcs s ! k)"
  using assms by (simp add: move_def lock_books_def nth_list_update)

lemma move_not_begun:
  assumes books: "lock_books cs s" and step: "call_step E vp (snd (cs ! i)) (pcs s ! i, disk s) = (pc', d')"
    and old: "not_begun E vp cs (pcs s)" and "\<not> waiting pc' \<or> waiting (pcs s ! i) \<and> call_paths_ok vp (snd (cs ! i))"
  shows "not_begun E vp cs (pcs (move E vp cs i s))"
  unfolding not_begun_def
proof (intro allI impI)
  fix k x
  assume k: "k < length cs" and w: "waiting (pcs (move E vp cs i s) ! k)"
  show "alike vp (finish E vp (snd (cs ! k)) (pcs (move E vp cs i s) ! k, x)) (finish E vp (snd (cs ! k)) (AtMutex, x))"
  proof (cases "k = i")
    case True
    then have "waiting pc'" "waiting (pcs s ! i)" "call_paths_ok vp (snd (cs ! i))"
      using assms(4) w move_pcs [OF books step k] by auto
    then show ?thesis
      using waiting_goes_on [OF _ _ step] old k True move_pcs [OF books step k] by (auto simp: not_begun_def intro: alike_trans)
  qed (use old k w move_pcs [OF books step k] in \<open>auto simp: not_begun_def\<close>)
qed

lemma move_answered:
  assumes books: "lock_books cs s" and step: "call_step E vp (snd (cs ! i)) (pcs s ! i, disk s) = (pc', d')"
    and mv: "may_move cs s i" and old: "answered (pcs s) (fst (serial E vp cs (served s) d0))"
  shows "answered (pcs (move E vp cs i s)) (fst (serial E vp cs (served s) d0))"
  unfolding answered_def
proof (clarify)
  fix k a
  assume ka: "(k, a) \<in> set (fst (serial E vp cs (served s) d0))"
  then have "k \<noteq> i" "k < length cs"
    using serial_indices [OF ka] books mv by (auto simp: lock_books_def may_move_def)
  then show "pcs (move E vp cs i s) ! k = Returned a"
    using old ka move_pcs [OF books step] by (auto simp: answered_def)
qed

lemma move_on_the_way:
  assumes books: "lock_books cs s" and step: "call_step E vp (snd (cs ! i)) (pcs s ! i, disk s) = (pc', d')"
    and w: "waiting (pcs s ! i)" and ok: "\<forall>c \<in> set cs. call_paths_ok vp (snd c)"
    and old: "on_the_way E vp cs (file_lock s) (pcs s) (disk s) x" and x': "same_vault vp x' x"
  shows "on_the_way E vp cs (file_lock s) (pcs (move E vp cs i s)) d' x'"
proof (cases "file_lock s")
  case None
  then show ?thesis
    using old waiting_step(1) [OF w step] x' by (auto simp: on_the_way_def intro: same_vault_trans same_vault_sym)
next
  case (Some h)
  then have h: "h < length cs" "h \<noteq> i" using books w by (auto simp: lock_books_def)
  moreover have "call_paths_ok vp (snd (cs ! h))" using ok h(1) by auto
  ultimately show ?thesis
    using section_undisturbed [OF _ _ waiting_step(1) [OF w step] x'] old Some move_pcs [OF books step h(1)]
    by (auto simp: on_the_way_def)
qed

text \<open>The call returns: what is left of its run was its serial run.\<close>

lemma call_returns:
  assumes "alike vp (finish E vp c (Returned a, d')) (finish E vp c (AtMutex, x))"
  obtains y where "file_call E vp c x = (a, y)" "same_vault vp d' y"
  using assms by (cases "file_call E vp c x") (auto simp: alike_def finish_is_call)

lemma answered_snoc:
  assumes "answered ps (fst (serial E vp cs is d))" "file_call E vp (snd (cs ! i)) (snd (serial E vp cs is d)) = (a, y)" "ps ! i = Returned a"
  shows "answered ps (fst (serial E vp cs (is @ [i]) d)) \<and> snd (serial E vp cs (is @ [i]) d) = y"
  using assms by (auto simp: serial_snoc split_beta answered_def)

text \<open>A waiting call moves: it goes on waiting, it enters the section, or it fails.\<close>

lemma lock_data_waiting:
  assumes books: "lock_books cs s" and data: "lock_data E vp cs d0 s" and ok: "\<forall>c \<in> set cs. call_paths_ok vp (snd c)"
    and mv: "may_move cs s i" and w: "waiting (pcs s ! i)"
  shows "lock_data E vp cs d0 (move E vp cs i s)"
proof -
  let ?c = "snd (cs ! i)" and ?d = "snd (serial E vp cs (served s) d0)" and ?s = "move E vp cs i s"
  obtain pc' d' where step: "call_step E vp ?c (pcs s ! i, disk s) = (pc', d')" by fastforce
  note ws = waiting_step [OF w step]
  have i: "i < length cs" using mv by (simp add: may_move_def)
  then have oki: "call_paths_ok vp ?c" using ok by auto
  have begin_i: "alike vp (finish E vp ?c (pcs s ! i, x)) (finish E vp ?c (AtMutex, x))" for x
    using data i w by (simp add: lock_data_def not_begun_def)
  have first: "not_begun E vp cs (pcs ?s)" and second: "answered (pcs ?s) (fst (serial E vp cs (served s) d0))"
    using move_not_begun [OF books step] move_answered [OF books step mv] data w oki by (auto simp: lock_data_def)
  have third: "on_the_way E vp cs (file_lock s) (pcs ?s) d' x" if "same_vault vp x ?d" for x
    using move_on_the_way [OF books step w ok _ that] data by (simp add: lock_data_def)
  have pci: "pcs ?s ! i = pc'" using move_pcs [OF books step i] by simp
  consider (wait) "rank pc' \<noteq> 0" "pc' \<noteq> AtRead" | (enter) "pc' = AtRead" | (fail) a where "pc' = Returned a"
    using rank_zero by blast
  then show ?thesis
  proof cases
    case wait
    then show ?thesis
      using step first second third [OF same_vault_refl] by (simp add: lock_data_def move_def)
  next
    case enter
    then have "file_lock s = None" using mv ws(4,6) by (simp add: may_move_def)
    then have same: "same_vault vp (disk s) ?d" using data by (simp add: lock_data_def on_the_way_def)
    have "finish E vp ?c (AtRead, d') = finish E vp ?c (pcs s ! i, disk s)"
      using finish_step [of E vp ?c "(pcs s ! i, disk s)"] step enter by simp
    then have "alike vp (finish E vp ?c (AtRead, d')) (finish E vp ?c (AtMutex, ?d))"
      using alike_trans [OF begin_i finish_alike [OF oki same]] by simp
    then show ?thesis
      using step first second pci enter by (simp add: lock_data_def on_the_way_def move_def)
  next
    case (fail a)
    obtain x' where x': "call_step E vp ?c (pcs s ! i, ?d) = (Returned a, x')" "same_vault vp x' ?d"
      using ws(5) fail by blast
    have "alike vp (finish E vp ?c (Returned a, x')) (finish E vp ?c (AtMutex, ?d))"
      using begin_i [of ?d] unfolding finish_step [of E vp ?c "(pcs s ! i, ?d)", symmetric] x'(1) .
    then obtain y where y: "file_call E vp ?c ?d = (a, y)" "same_vault vp x' y" by (rule call_returns)
    then have "same_vault vp y ?d" using x'(2) same_vault_sym same_vault_trans by blast
    moreover have "file_lock s \<noteq> Some i" using books w by (auto simp: lock_books_def)
    then have "served ?s = served s @ [i]" "file_lock ?s = file_lock s" "disk ?s = d'"
      using step fail by (simp_all add: move_def)
    ultimately show ?thesis
      using answered_snoc [OF second y(1)] third [of y] first pci fail by (simp add: lock_data_def)
  qed
qed

text \<open>The call in the section moves: it goes on, or it returns the answer of the serial run.\<close>

lemma lock_data_section:
  assumes books: "lock_books cs s" and data: "lock_data E vp cs d0 s"
    and mv: "may_move cs s i" and sec: "in_section (pcs s ! i)"
  shows "lock_data E vp cs d0 (move E vp cs i s)"
proof -
  let ?c = "snd (cs ! i)" and ?d = "snd (serial E vp cs (served s) d0)" and ?s = "move E vp cs i s"
  obtain pc' d' where step: "call_step E vp ?c (pcs s ! i, disk s) = (pc', d')" by fastforce
  note ss = section_step [OF sec step]
  have i: "i < length cs" using mv by (simp add: may_move_def)
  have holder: "file_lock s = Some i" using books sec i by (simp add: lock_books_def)
  have "\<not> waiting pc'" using ss(1) by auto
  then have first: "not_begun E vp cs (pcs ?s)" and second: "answered (pcs ?s) (fst (serial E vp cs (served s) d0))"
    using move_not_begun [OF books step] move_answered [OF books step mv] data by (auto simp: lock_data_def)
  have rest: "alike vp (finish E vp ?c (pc', d')) (finish E vp ?c (AtMutex, ?d))"
    using data holder finish_step [of E vp ?c "(pcs s ! i, disk s)"] step by (simp add: lock_data_def on_the_way_def)
  have pci: "pcs ?s ! i = pc'" using move_pcs [OF books step i] by simp
  show ?thesis
  proof (cases "rank pc' = 0")
    case False
    then show ?thesis
      using step ss(2) holder first second rest pci by (simp add: lock_data_def on_the_way_def move_def)
  next
    case True
    then obtain a where a: "pc' = Returned a" by (auto simp: rank_zero)
    obtain y where y: "file_call E vp ?c ?d = (a, y)" "same_vault vp d' y"
      using rest unfolding a by (rule call_returns)
    have "served ?s = served s @ [i]" "file_lock ?s = None" "disk ?s = d'"
      using step a holder by (simp_all add: move_def)
    then show ?thesis
      using answered_snoc [OF second y(1)] y(2) first pci a by (simp add: lock_data_def on_the_way_def)
  qed
qed

lemma lock_inv_start: "lock_books cs (lock_start cs d) \<and> lock_data E vp cs d (lock_start cs d)"
  by (auto simp: lock_books_def lock_data_def not_begun_def answered_def on_the_way_def lock_start_def)

lemma lock_inv_step:
  assumes "lock_step E vp cs s s'" "lock_books cs s" "lock_data E vp cs d0 s" "\<forall>c \<in> set cs. call_paths_ok vp (snd c)"
  shows "lock_books cs s' \<and> lock_data E vp cs d0 s'"
  using assms(1)
proof cases
  case (moves i)
  have "waiting (pcs s ! i) \<or> in_section (pcs s ! i)"
    using moves(2) pc_kinds [of "pcs s ! i"] by (auto simp: may_move_def)
  then show ?thesis
    using lock_books_step [OF assms(2) moves(2)] lock_data_waiting [OF assms(2-4) moves(2)]
      lock_data_section [OF assms(2,3) moves(2)] moves(1)
    by blast
next
  case (abandoned i)
  then show ?thesis
    using lock_books_abandon [OF assms(2)] assms(3) by (simp add: lock_data_def abandon_def)
qed

lemma lock_inv_reach:
  assumes "(lock_step E vp cs)\<^sup>*\<^sup>* (lock_start cs d0) s" "\<forall>c \<in> set cs. call_paths_ok vp (snd c)"
  shows "lock_books cs s \<and> lock_data E vp cs d0 s"
  using assms(1)
proof (induction rule: rtranclp_induct)
  case base
  show ?case by (rule lock_inv_start)
next
  case (step s s')
  then show ?case using lock_inv_step [OF step.hyps(2) _ _ assms(2)] by blast
qed

section \<open>Properties\<close>

text \<open>
  C4: storage calls are atomic. Let any number of processes make any calls on one
  vault file, interleaved system call by system call, under any failures, and with
  callers going away at any time. At every moment the calls that have returned have the
  answers of running these operations one after the other in the order of their return,
  and when no call is in its critical section the disk is the one that serial run
  leaves, up to the lock file. At most one call is in its section at any time.
\<close>

theorem file_calls_serializable:
  assumes "(lock_step E vp cs)\<^sup>*\<^sup>* (lock_start cs d0) s" "\<forall>c \<in> set cs. call_paths_ok vp (snd c)"
    and "serial E vp cs (served s) d0 = (answers, d1)"
  shows "distinct (served s) \<and> set (served s) = {i. i < length cs \<and> (\<exists>a. pcs s ! i = Returned a)} \<and>
    (\<forall>(i, a) \<in> set answers. pcs s ! i = Returned a) \<and> map fst answers = served s \<and>
    (file_lock s = None \<longrightarrow> (\<forall>p. p \<noteq> lock_path vp \<longrightarrow> disk s p = d1 p)) \<and>
    (\<forall>i j. i < length cs \<and> j < length cs \<and> in_section (pcs s ! i) \<and> in_section (pcs s ! j) \<longrightarrow> i = j)"
proof -
  have books: "lock_books cs s" and data: "lock_data E vp cs d0 s"
    using lock_inv_reach [OF assms(1,2)] by auto
  have "map fst answers = served s"
    using serial_fst [of E vp cs "served s" d0] assms(3) by simp
  moreover have "i = j" if "i < length cs" "j < length cs" "in_section (pcs s ! i)" "in_section (pcs s ! j)" for i j
    using books that unfolding lock_books_def by (metis option.inject)
  moreover have "\<forall>p. p \<noteq> lock_path vp \<longrightarrow> disk s p = d1 p" if "file_lock s = None"
    using data that assms(3) by (simp add: lock_data_def on_the_way_def same_vault_def)
  ultimately show ?thesis
    using books data assms(3) by (auto simp: lock_books_def lock_data_def answered_def rank_zero)
qed

text \<open>No deadlock: the call in its section can always move, and otherwise whoever is next in line.\<close>

lemma lock_progress:
  assumes "lock_books cs s" "i < length cs" "rank (pcs s ! i) \<noteq> 0"
  shows "\<exists>k. may_move cs s k"
proof (cases "file_lock s")
  case (Some h)
  then have "h < length cs" "in_section (pcs s ! h)" using assms(1) by (auto simp: lock_books_def)
  then have "may_move cs s h" by (auto simp: may_move_def in_section_def)
  then show ?thesis by blast
next
  case None
  show ?thesis
  proof (cases "pcs s ! i = AtMutex \<and> mutex s (fst (cs ! i)) \<noteq> None")
    case True
    then obtain k where "mutex s (fst (cs ! i)) = Some k" by blast
    then have "k < length cs" "rank (pcs s ! k) \<noteq> 0" "pcs s ! k \<noteq> AtMutex"
      using assms(1) by (auto simp: lock_books_def)
    then have "may_move cs s k" using None by (simp add: may_move_def)
    then show ?thesis by blast
  next
    case False
    then have "may_move cs s i" using None assms(2,3) by (auto simp: may_move_def)
    then show ?thesis by blast
  qed
qed

text \<open>
  What is left to do: two for every system call to come, and one for every mutex that is
  held and can be given up.
\<close>

definition holders :: "file_calls \<Rightarrow> lock_config \<Rightarrow> nat set" where
  "holders cs s = {i. i < length cs \<and> mutex s (fst (cs ! i)) = Some i}"

definition lock_left :: "file_calls \<Rightarrow> lock_config \<Rightarrow> nat" where
  "lock_left cs s = 2 * sum_list (map rank (pcs s)) + card (holders cs s)"

lemma finite_holders [simp]: "finite (holders cs s)"
  by (simp add: holders_def)

lemma lock_step_left:
  assumes "lock_step E vp cs s s'" "length (pcs s) = length cs"
  shows "lock_left cs s' < lock_left cs s \<and> length (pcs s') = length cs"
  using assms(1)
proof cases
  case (moves i)
  then have i: "i < length cs" "rank (pcs s ! i) \<noteq> 0" by (simp_all add: may_move_def)
  obtain pc' d' where step: "call_step E vp (snd (cs ! i)) (pcs s ! i, disk s) = (pc', d')" by fastforce
  then have pcs: "pcs s' = (pcs s)[i := pc']" by (simp add: moves(1) move_def)
  then have "sum_list (map rank (pcs s')) < sum_list (map rank (pcs s))"
    using call_step_rank [OF i(2), of E vp "snd (cs ! i)" "disk s"] step i(1) assms(2)
    by (auto intro: sum_list_update_less)
  moreover have "holders cs s' \<subseteq> insert i (holders cs s)"
    using step by (auto simp: holders_def moves(1) move_def split: if_splits)
  then have "card (holders cs s') \<le> Suc (card (holders cs s))"
    using card_mono [of "insert i (holders cs s)" "holders cs s'"] card_insert_if [of "holders cs s" i]
    by (simp split: if_splits)
  ultimately show ?thesis using pcs assms(2) by (simp add: lock_left_def)
next
  case (abandoned i)
  then have "holders cs s' \<subset> holders cs s" by (auto simp: holders_def abandon_def)
  then have "card (holders cs s') < card (holders cs s)" by (simp add: psubset_card_mono)
  then show ?thesis using abandoned assms(2) by (simp add: lock_left_def abandon_def)
qed

lemma lock_steps_left:
  assumes "(lock_step E vp cs ^^ n) (lock_start cs d0) s"
  shows "n + lock_left cs s \<le> 20 * length cs \<and> length (pcs s) = length cs \<and> lock_books cs s"
  using assms
proof (induction n arbitrary: s)
  case 0
  have "lock_left cs (lock_start cs d0) = 20 * length cs" "length (pcs (lock_start cs d0)) = length cs"
    by (simp_all add: lock_left_def holders_def lock_start_def comp_def sum_list_triv)
  with 0 lock_inv_start [of cs d0] show ?case by auto
next
  case (Suc n)
  then obtain t where t: "(lock_step E vp cs ^^ n) (lock_start cs d0) t" "lock_step E vp cs t s" by auto
  then have "lock_books cs s"
    using Suc.IH [OF t(1)] lock_books_step lock_books_abandon by (auto elim: lock_stepE)
  then show ?case
    using Suc.IH [OF t(1)] lock_step_left [OF t(2)] by auto
qed

text \<open>
  C5: the locks never block for good. Every interleaving of calls, with callers going away
  at any time, ends after at most twenty steps per call (each system call and each mutex
  given up early counted), and a configuration in which nothing can move is one in which
  every call has returned: waiting for a mutex while holding none, and for the file lock
  while holding the mutex, cannot form a cycle.
\<close>

theorem file_calls_terminate:
  assumes "(lock_step E vp cs ^^ n) (lock_start cs d0) s"
  shows "n \<le> 20 * length cs \<and>
    ((\<nexists>s'. lock_step E vp cs s s') \<longrightarrow> (\<forall>i < length cs. \<exists>a. pcs s ! i = Returned a))"
proof -
  have n: "n \<le> 20 * length cs" and books: "lock_books cs s"
    using lock_steps_left [OF assms] by auto
  have "\<exists>a. pcs s ! i = Returned a" if "\<nexists>s'. lock_step E vp cs s s'" "i < length cs" for i
    using lock_progress [OF books that(2)] that(1) lock_step.moves rank_zero by blast
  with n show ?thesis by blast
qed

section \<open>Instances\<close>

text \<open>A fetch and a sweep from two processes, and a run of them to the end.\<close>

definition two_calls :: file_calls where
  "two_calls = [(0, FFetch (replicate 16 1), calm_file_io), (1, FDeleteExpired 5, calm_file_io)]"

lemma two_calls_ok: "\<forall>c \<in> set two_calls. call_paths_ok sample_path (snd c)"
  by (simp add: two_calls_def call_paths_ok_def temp_of_def) (simp add: sample_path_def)

lemma lock_completes:
  assumes "(lock_step E vp cs)\<^sup>*\<^sup>* (lock_start cs d0) s"
  shows "\<exists>s'. (lock_step E vp cs)\<^sup>*\<^sup>* (lock_start cs d0) s' \<and> (\<nexists>s''. lock_step E vp cs s' s'')"
  using assms
proof (induction "lock_left cs s" arbitrary: s rule: less_induct)
  case less
  obtain n where n: "(lock_step E vp cs ^^ n) (lock_start cs d0) s"
    using less.prems by (auto simp: rtranclp_power)
  show ?case
  proof (cases "\<exists>s'. lock_step E vp cs s s'")
    case True
    then obtain s' where s': "lock_step E vp cs s s'" by blast
    then show ?thesis
      using less.hyps [of s'] lock_step_left [OF s'] lock_steps_left [OF n] less.prems by (meson rtranclp.rtrancl_into_rtrancl)
  qed (use less.prems in blast)
qed

theorem file_calls_serializable_witness:
  "\<exists>s answers d1. (lock_step ref_ext sample_path two_calls)\<^sup>*\<^sup>* (lock_start two_calls created_fs) s \<and>
     serial ref_ext sample_path two_calls (served s) created_fs = (answers, d1) \<and> map fst answers = served s"
proof -
  obtain s where s: "(lock_step ref_ext sample_path two_calls)\<^sup>*\<^sup>* (lock_start two_calls created_fs) s"
    using lock_completes [OF rtranclp.rtrancl_refl] by blast
  obtain answers d1 where r: "serial ref_ext sample_path two_calls (served s) created_fs = (answers, d1)" by fastforce
  from file_calls_serializable [OF s two_calls_ok r] s r show ?thesis by blast
qed

theorem file_calls_terminate_witness:
  "\<exists>s. (lock_step ref_ext sample_path two_calls)\<^sup>*\<^sup>* (lock_start two_calls created_fs) s \<and>
     (\<forall>i < 2. \<exists>a. pcs s ! i = Returned a)"
proof -
  obtain s where s: "(lock_step ref_ext sample_path two_calls)\<^sup>*\<^sup>* (lock_start two_calls created_fs) s"
    and stuck: "\<nexists>s'. lock_step ref_ext sample_path two_calls s s'"
    using lock_completes [OF rtranclp.rtrancl_refl] by blast
  then obtain n where "(lock_step ref_ext sample_path two_calls ^^ n) (lock_start two_calls created_fs) s"
    by (auto simp: rtranclp_power)
  from file_calls_terminate [OF this] stuck s show ?thesis
    by (auto simp: two_calls_def)
qed

end
