(* ===== verification/Secret_Memory.thy ===== *)
theory Secret_Memory
  imports Vault_Guarantees
begin

text \<open>
  Where secrets lie in memory while \<^verbatim>\<open>src/vault/proof_vault.rs\<close> and
  \<^verbatim>\<open>src/domain/claim_id.rs\<close> run. Every variable that holds a key, a token
  or a plaintext has a place; an assignment of a \<open>Copy\<close> value copies it, a
  value of type \<open>Zeroizing\<close> or with \<open>ZeroizeOnDrop\<close> is overwritten
  with zeros when its scope ends (on every exit, a panic included), and any other
  value stays where it was. The operations are those of \<open>Proof_Vault\<close> with
  the memory threaded through; that they compute the same results is proved below.
  Registers, the cipher's own key schedule and the caller's copies are outside.
\<close>

datatype place =
    ProofData
  | GeneratedKey
  | KeyBytes
  | Gk
  | NewArgument
  | ClaimKey
  | EncodeBytes
  | ClaimIdStr
  | DecodeBytes
  | DecodeKey
  | PlaintextVec

type_synonym memory = "place \<Rightarrow> bytes"

definition zeroize_place :: "place \<Rightarrow> memory \<Rightarrow> memory" where
  "zeroize_place pl m = m(pl := map (\<lambda>_. 0) (m pl))"

text \<open>The end of the scope of a value that is wiped when dropped.\<close>

definition dropping :: "place \<Rightarrow> ('a, 'e) result \<times> 'v \<times> memory \<Rightarrow> ('a, 'e) result \<times> 'v \<times> memory" where
  "dropping pl out = (case out of (r, v, m) \<Rightarrow> (r, v, zeroize_place pl m))"

definition beside :: "('v \<Rightarrow> ('a, 'e) result \<times> 'v) \<Rightarrow> 'v \<times> memory \<Rightarrow> ('a, 'e) result \<times> 'v \<times> memory" where
  "beside f s = (case f (fst s) of (r, v) \<Rightarrow> (r, v, snd s))"

section \<open>Storing\<close>

definition store_proof_mem ::
  "ext \<Rightarrow> ('s, 'io) storage_backend \<Rightarrow> 'io call_env \<Rightarrow> plaintext_proof \<Rightarrow> u64 option \<Rightarrow>
     's vault \<times> memory \<Rightarrow> (string, vault_error) result \<times> 's vault \<times> memory" where
  "store_proof_mem E B env p expires_in_secs s =
     (let v = fst s; m = (snd s)(ProofData := proof_data p) in
      if expires_in_secs = Some 0
      then dropping ProofData (Err (InvalidParameter ''expires_in_secs must be greater than zero''), v, m)
      else
        let m = m(GeneratedKey := gen_key env) in
        case aes_gcm_encrypt E (m GeneratedKey) (gen_nonce env) (m ProofData) of
          None \<Rightarrow> dropping ProofData (Err DecryptionFailed, v, m)
        | Some ct \<Rightarrow>
            let m = zeroize_place ProofData m;
                m = m(KeyBytes := m GeneratedKey) in
            dropping KeyBytes (
            let m = m(Gk := m GeneratedKey);
                m = zeroize_place Gk m;
                m = m(NewArgument := m KeyBytes);
                m = m(ClaimKey := m NewArgument) in
            dropping ClaimKey (
            try_op (transpose_res (map_option (expiry_at E (now_expiry env)) expires_in_secs), v, m) (\<lambda>ex s.
            try_op (beside (\<lambda>v. map_err_op Storage
                (on_storage (be_insert B (io_first env) (new_uuid env) (issued_record env ct ex)) v)) s) (\<lambda>_ s.
            let m = (snd s)(EncodeBytes := new_uuid env @ snd s ClaimKey);
                encoded = claim_id_encode E (claim_id_new (new_uuid env) (m ClaimKey));
                m = zeroize_place EncodeBytes m
            in (Ok encoded, emit INFO (''Proof stored; record_id='' @ uuid_simple E (new_uuid env)) (fst s), m))))))"

section \<open>Decoding, retrieving and deleting\<close>

definition claim_id_decode_mem :: "ext \<Rightarrow> string \<Rightarrow> memory \<Rightarrow> (claim_id, vault_error) result \<times> memory" where
  "claim_id_decode_mem E s m =
     (case base64_url_decode E s of
        None \<Rightarrow> (Err InvalidClaimId, m)
      | Some bs \<Rightarrow>
          let m = m(DecodeBytes := bs) in
          if length (m DecodeBytes) \<noteq> CLAIM_ID_BYTES then (Err InvalidClaimId, zeroize_place DecodeBytes m)
          else
            let m = m(DecodeKey := drop RECORD_ID_LEN (m DecodeBytes));
                m = m(ClaimKey := m DecodeKey)
            in (Ok \<lparr>record_id = take RECORD_ID_LEN bs, encryption_key = m ClaimKey\<rparr>, zeroize_place DecodeBytes m))"

text \<open>
  The prologue of retrieval and deletion: the token is the caller's string, wiped
  after decoding, and the claim lives until the operation ends.
\<close>

definition with_claim ::
  "ext \<Rightarrow> string \<Rightarrow> 'v \<times> memory \<Rightarrow>
     (claim_id \<Rightarrow> 'v \<times> memory \<Rightarrow> ('a, vault_error) result \<times> 'v \<times> memory) \<Rightarrow> ('a, vault_error) result \<times> 'v \<times> memory" where
  "with_claim E claim_id_str s k =
     (case claim_id_decode_mem E claim_id_str ((snd s)(ClaimIdStr := as_bytes claim_id_str)) of
        (Ok claim, m) \<Rightarrow> dropping ClaimKey (k claim (fst s, zeroize_place ClaimIdStr m))
      | (Err e, m) \<Rightarrow> (Err e, fst s, zeroize_place ClaimIdStr m)
      | (Panic x, m) \<Rightarrow> (Panic x, fst s, zeroize_place ClaimIdStr m))"

definition retrieve_proof_mem ::
  "ext \<Rightarrow> ('s, 'io) storage_backend \<Rightarrow> 'io call_env \<Rightarrow> string \<Rightarrow>
     's vault \<times> memory \<Rightarrow> (plaintext_proof, vault_error) result \<times> 's vault \<times> memory" where
  "retrieve_proof_mem E B env claim_id_str s =
     with_claim E claim_id_str s (\<lambda>claim s.
     let rid = record_id claim in
     try_op (beside (\<lambda>v. map_err_op fetch_error (on_storage (be_fetch B (io_first env) rid) v)) s) (\<lambda>stored s.
     if is_expired (now_check env) stored
     then beside (drop_expired E B (io_second env) rid ''Expired proof access attempt; record_id='') s
     else if length (nonce (encrypted stored)) \<noteq> 12 then (Err DecryptionFailed, s)
     else
       try_op (from_slice 32 (snd s ClaimKey), s) (\<lambda>key s.
       try_op (from_slice 12 (nonce (encrypted stored)), s) (\<lambda>n s.
       case aes_gcm_decrypt E key n (ciphertext (encrypted stored)) of
         None \<Rightarrow> (Err DecryptionFailed, s)
       | Some plaintext \<Rightarrow>
           let s = (fst s, (snd s)(PlaintextVec := plaintext)) in
           try_op (beside (\<lambda>v. map_err_op Storage (on_storage (be_delete B (io_second env) rid) v)) s) (\<lambda>_ s.
           let m = (snd s)(ProofData := snd s PlaintextVec, PlaintextVec := []) in
           (Ok (proof_from_bytes (m ProofData)),
            emit INFO (''Proof retrieved and consumed; record_id='' @ uuid_simple E rid) (fst s), m))))))"

definition delete_proof_mem ::
  "ext \<Rightarrow> ('s, 'io) storage_backend \<Rightarrow> 'io call_env \<Rightarrow> string \<Rightarrow>
     's vault \<times> memory \<Rightarrow> (unit, vault_error) result \<times> 's vault \<times> memory" where
  "delete_proof_mem E B env claim_id_str s =
     with_claim E claim_id_str s (\<lambda>claim s.
     let rid = record_id claim in
     try_op (beside (\<lambda>v. map_err_op fetch_error (on_storage (be_fetch B (io_first env) rid) v)) s) (\<lambda>stored s.
     if is_expired (now_check env) stored
     then beside (drop_expired E B (io_second env) rid ''Delete attempt on expired proof; record_id='') s
     else
       try_op (beside (\<lambda>v. map_err_op Storage (on_storage (be_delete B (io_second env) rid) v)) s) (\<lambda>deleted s.
       if \<not> deleted then (Err ProofNotFound, s)
       else (Ok (), emit INFO (''Proof explicitly deleted by holder; record_id='' @ uuid_simple E rid) (fst s), snd s))))"

definition into_json_mem :: "ext \<Rightarrow> memory \<Rightarrow> (json, vault_error) result \<times> memory" where
  "into_json_mem E m =
     (map_err Serialization (value_from_slice E (m ProofData)), zeroize_place ProofData m)"

section \<open>What is wiped\<close>

definition wiped :: "memory \<Rightarrow> place \<Rightarrow> bool" where
  "wiped m pl \<longleftrightarrow> set (m pl) \<subseteq> {0}"

lemma wiped_upd [simp]: "wiped (m(a := x)) b \<longleftrightarrow> (if b = a then set x \<subseteq> {0} else wiped m b)"
  by (simp add: wiped_def)

lemma wiped_zeroize [simp]: "wiped (zeroize_place a m) b \<longleftrightarrow> b = a \<or> wiped m b"
  by (auto simp: wiped_def zeroize_place_def)

lemma zeroize_other [simp]: "a \<noteq> b \<Longrightarrow> zeroize_place a m b = m b"
  by (simp add: zeroize_place_def)

lemma dropping_eq [simp]: "dropping pl (r, v, m) = (r, v, zeroize_place pl m)"
  by (simp add: dropping_def)

lemma beside_eq [simp]: "f v = (r, v') \<Longrightarrow> beside f (v, m) = (r, v', m)"
  by (simp add: beside_def)

lemma store_mem_facts:
  assumes "\<forall>pl. wiped m0 pl" "store_proof_mem E B env p ttl (v, m0) = (res, v', m)"
  shows "store_proof E B env p ttl v = (res, v') \<and> (\<forall>pl. pl \<notin> {GeneratedKey, NewArgument} \<longrightarrow> wiped m pl) \<and>
    (\<forall>tok. res = Ok tok \<longrightarrow> m GeneratedKey = gen_key env)"
proof (cases "ttl = Some 0 \<or> aes_gcm_encrypt E (gen_key env) (gen_nonce env) (proof_data p) = None")
  case True
  then show ?thesis
    using assms by (auto simp: store_proof_mem_def store_proof_def proof_as_bytes_def Let_def)
next
  case False
  then obtain ct where ct: "aes_gcm_encrypt E (gen_key env) (gen_nonce env) (proof_data p) = Some ct" and ttl: "ttl \<noteq> Some 0"
    by auto
  show ?thesis
  proof (cases "transpose_res (map_option (expiry_at E (now_expiry env)) ttl)")
    case (Ok ex)
    obtain r s1 where ins: "be_insert B (io_first env) (new_uuid env) (issued_record env ct ex) (storage v) = (r, s1)"
      by fastforce
    then show ?thesis
      using assms ct ttl Ok
      by (cases r) (auto simp: store_proof_mem_def store_proof_def proof_as_bytes_def Let_def claim_id_new_def)
  qed (use assms ct ttl in \<open>auto simp: store_proof_mem_def store_proof_def proof_as_bytes_def Let_def\<close>)
qed


lemma with_claim_cases:
  assumes "\<forall>pl. wiped m0 pl" "with_claim E tok (v, m0) k = (res, v', m)"
  obtains (invalid) "claim_id_decode E tok = Err InvalidClaimId" "res = Err InvalidClaimId" "v' = v" "\<forall>pl. wiped m pl"
  | (claim) c m1 where "claim_id_decode E tok = Ok c" "m1 ClaimKey = encryption_key c" "m1 DecodeKey = encryption_key c"
      "\<forall>pl. pl \<notin> {ClaimKey, DecodeKey} \<longrightarrow> wiped m1 pl" "dropping ClaimKey (k c (v, m1)) = (res, v', m)"
proof (cases "base64_url_decode E tok")
  case None
  then show ?thesis
    using assms by (intro invalid) (auto simp: with_claim_def claim_id_decode_mem_def claim_id_decode_def)
next
  case (Some bs)
  show ?thesis
  proof (cases "length bs = 48")
    case False
    then show ?thesis
      using assms Some by (intro invalid) (auto simp: with_claim_def claim_id_decode_mem_def claim_id_decode_def Let_def)
  next
    case True
    let ?c = "\<lparr>record_id = take 16 bs, encryption_key = drop 16 bs\<rparr>"
    let ?m = "zeroize_place ClaimIdStr (zeroize_place DecodeBytes
      (m0(ClaimIdStr := as_bytes tok, DecodeBytes := bs, DecodeKey := drop 16 bs, ClaimKey := drop 16 bs)))"
    have "claim_id_decode E tok = Ok ?c"
      using Some True by (simp add: claim_id_decode_def)
    moreover have "dropping ClaimKey (k ?c (v, ?m)) = (res, v', m)"
      using assms(2) Some True by (simp add: with_claim_def claim_id_decode_mem_def Let_def)
    moreover have "?m ClaimKey = drop 16 bs" "?m DecodeKey = drop 16 bs" "\<forall>pl. pl \<notin> {ClaimKey, DecodeKey} \<longrightarrow> wiped ?m pl"
      using assms(1) by simp_all
    ultimately show ?thesis by (intro claim [of ?c ?m]) simp_all
  qed
qed

lemma dropping_iff: "dropping pl out = (r, v, m) \<longleftrightarrow> (\<exists>m'. out = (r, v, m') \<and> m = zeroize_place pl m')"
  by (cases out) (auto simp: dropping_def)

text \<open>
  What is left behind: the array in which the decoder assembles the key, and the buffer of
  a decryption whose following deletion did not answer.
\<close>

definition key_left :: "ext \<Rightarrow> string \<Rightarrow> memory \<Rightarrow> bool" where
  "key_left E tok m \<longleftrightarrow>
     (case claim_id_decode E tok of Ok c \<Rightarrow> m DecodeKey = encryption_key c | _ \<Rightarrow> wiped m DecodeKey)"

definition delete_failed :: "ext \<Rightarrow> ('s, 'io) storage_backend \<Rightarrow> 'io call_env \<Rightarrow> string \<Rightarrow> 's vault \<Rightarrow> bytes \<Rightarrow> bool" where
  "delete_failed E B env tok v pt \<longleftrightarrow>
     (\<exists>c r s1. claim_id_decode E tok = Ok c \<and> be_fetch B (io_first env) (record_id c) (storage v) = (Ok r, s1) \<and>
        open_record E c r = Some pt \<and> \<not> is_ok (fst (be_delete B (io_second env) (record_id c) s1)))"

lemma retrieve_mem_facts:
  assumes "\<forall>pl. wiped m0 pl" "retrieve_proof_mem E B env tok (v, m0) = (res, v', m)"
  shows "retrieve_proof E B env tok v = (res, v') \<and>
    (\<forall>pl. pl \<notin> {DecodeKey, PlaintextVec, ProofData} \<longrightarrow> wiped m pl) \<and>
    key_left E tok m \<and> (\<forall>p. res = Ok p \<longrightarrow> m ProofData = proof_data p) \<and> (\<not> is_ok res \<longrightarrow> wiped m ProofData) \<and>
    (\<not> wiped m PlaintextVec \<longrightarrow> delete_failed E B env tok v (m PlaintextVec) \<and> (\<forall>e. res = Err e \<longrightarrow> (\<exists>se. e = Storage se)))"
  using assms(1) assms(2) [unfolded retrieve_proof_mem_def]
proof (cases rule: with_claim_cases)
  case invalid
  then show ?thesis by (simp add: retrieve_proof_def key_left_def)
next
  case (claim c m1)
  obtain r s1 where f: "be_fetch B (io_first env) (record_id c) (storage v) = (r, s1)" by fastforce
  obtain d s2 where d: "be_delete B (io_second env) (record_id c) s1 = (d, s2)" by fastforce
  have key: "length (encryption_key c) = 32"
    using decode_ok_wf [OF claim(1)] by (simp add: claim_id_ok_def)
  show ?thesis
  proof (cases r)
    case (Ok stored)
    show ?thesis
    proof (cases "is_expired (now_check env) stored")
      case True
      then show ?thesis
        using claim f d Ok
        by (cases d) (auto simp: retrieve_proof_def dropping_iff drop_expired_def beside_def key_left_def Let_def split: prod.splits)
    next
      case live: False
      show ?thesis
      proof (cases "open_record E c stored")
        case None
        then show ?thesis
          using claim f live Ok key
          by (auto simp: retrieve_proof_def dropping_iff from_slice_def beside_def key_left_def open_record_def Let_def split: if_splits)
      next
        case (Some pt)
        then have "length (nonce (encrypted stored)) = 12"
          "aes_gcm_decrypt E (encryption_key c) (nonce (encrypted stored)) (ciphertext (encrypted stored)) = Some pt"
          by (auto simp: open_record_def split: if_splits)
        moreover have "\<not> is_ok d \<Longrightarrow> delete_failed E B env tok v pt"
          using claim(1) f d Ok Some by (auto simp: delete_failed_def)
        ultimately show ?thesis
          using claim f d live Ok key
          by (cases d) (auto simp: retrieve_proof_def dropping_iff from_slice_def beside_def proof_from_bytes_def key_left_def Let_def)
      qed
    qed
  qed (use claim f in \<open>auto simp: retrieve_proof_def dropping_iff beside_def key_left_def Let_def\<close>)
qed

lemma delete_mem_facts:
  assumes "\<forall>pl. wiped m0 pl" "delete_proof_mem E B env tok (v, m0) = (res, v', m)"
  shows "delete_proof E B env tok v = (res, v') \<and> (\<forall>pl. pl \<noteq> DecodeKey \<longrightarrow> wiped m pl) \<and> key_left E tok m"
  using assms(1) assms(2) [unfolded delete_proof_mem_def]
proof (cases rule: with_claim_cases)
  case invalid
  then show ?thesis by (simp add: delete_proof_def key_left_def)
next
  case (claim c m1)
  obtain r s1 where f: "be_fetch B (io_first env) (record_id c) (storage v) = (r, s1)" by fastforce
  obtain d s2 where d: "be_delete B (io_second env) (record_id c) s1 = (d, s2)" by fastforce
  show ?thesis
    using claim f d
    by (cases r; cases d) (auto simp: delete_proof_def dropping_iff drop_expired_def beside_def key_left_def Let_def
        split: if_splits prod.splits)
qed

section \<open>Properties\<close>

text \<open>
  C27: what a store leaves in memory. The instrumented store is the store, and on
  every exit the plaintext, the wiped copies of the key, the claim and the encoding
  buffer hold only zeros. The variable \<open>generated_key\<close> is not among them: when
  the store has succeeded it still holds the key, since the wiping that is meant for
  it acts on a copy.
\<close>

theorem secrets_after_store:
  assumes "\<forall>pl. wiped m0 pl" "store_proof_mem E B env p ttl (v, m0) = (res, v', m)"
  shows "store_proof E B env p ttl v = (res, v') \<and> (\<forall>pl. pl \<notin> {GeneratedKey, NewArgument} \<longrightarrow> wiped m pl) \<and>
    (\<forall>tok. res = Ok tok \<longrightarrow> m GeneratedKey = gen_key env)"
  using assms by (rule store_mem_facts)

theorem secrets_after_store_witness:
  "\<exists>v' m. store_proof_mem ref_ext (any_backend_ops ref_ext) (at_instant 0) sample_proof None (empty_db, \<lambda>_. []) =
      (Ok sample_token, v', m) \<and> wiped m ProofData \<and> wiped m Gk \<and> m GeneratedKey = replicate 32 7"
proof -
  obtain res v' m where op: "store_proof_mem ref_ext (any_backend_ops ref_ext) (at_instant 0) sample_proof None (empty_db, \<lambda>_. []) = (res, v', m)"
    by (metis prod.exhaust)
  have start: "\<forall>pl. wiped (\<lambda>_. []) pl" by (simp add: wiped_def)
  obtain v1 db where "store_proof ref_ext (any_backend_ops ref_ext) (at_instant 0) sample_proof None empty_db = (Ok sample_token, v1)"
    by (rule sample_store)
  with secrets_after_store [OF start op] op show ?thesis by auto
qed

text \<open>
  C28: what a retrieval or a deletion leaves in memory. Both are the operations of the
  vault. On every exit, a panic included, the token, the decoded bytes and the claim's key
  hold only zeros. One copy of the key is never wiped: the array in which the decoder
  assembles it still holds the key after every call with a token that decodes. A plaintext
  is left in the result of a success; the buffer of the decryption keeps it only when
  the record was opened and the deletion that follows did not answer, and then an error
  that is reported is that of the storage.
\<close>

theorem secrets_after_claim:
  assumes "\<forall>pl. wiped m0 pl"
  shows "(retrieve_proof_mem E B env tok (v, m0) = (res, v', m) \<longrightarrow>
      retrieve_proof E B env tok v = (res, v') \<and>
      (\<forall>pl. pl \<notin> {DecodeKey, PlaintextVec, ProofData} \<longrightarrow> wiped m pl) \<and>
      (case claim_id_decode E tok of Ok c \<Rightarrow> m DecodeKey = encryption_key c | _ \<Rightarrow> wiped m DecodeKey) \<and>
      (\<forall>p. res = Ok p \<longrightarrow> m ProofData = proof_data p) \<and> (\<not> is_ok res \<longrightarrow> wiped m ProofData) \<and>
      (\<not> wiped m PlaintextVec \<longrightarrow>
        (\<exists>c r s1. claim_id_decode E tok = Ok c \<and> be_fetch B (io_first env) (record_id c) (storage v) = (Ok r, s1) \<and>
          open_record E c r = Some (m PlaintextVec) \<and> \<not> is_ok (fst (be_delete B (io_second env) (record_id c) s1))) \<and>
        (\<forall>e. res = Err e \<longrightarrow> (\<exists>se. e = Storage se)))) \<and>
    (delete_proof_mem E B env tok (v, m0) = (resd, v'', m') \<longrightarrow>
      delete_proof E B env tok v = (resd, v'') \<and> (\<forall>pl. pl \<noteq> DecodeKey \<longrightarrow> wiped m' pl) \<and>
      (case claim_id_decode E tok of Ok c \<Rightarrow> m' DecodeKey = encryption_key c | _ \<Rightarrow> wiped m' DecodeKey))"
  unfolding key_left_def [symmetric] delete_failed_def [symmetric]
  by (intro conjI [OF impI impI] retrieve_mem_facts [OF assms] delete_mem_facts [OF assms])

theorem secrets_after_claim_witness:
  "\<exists>v' m. delete_proof_mem ref_ext (any_backend_ops ref_ext) (at_instant 9) sample_token (sample_db, \<lambda>_. []) =
      (Ok (), v', m) \<and> wiped m ClaimIdStr \<and> wiped m ClaimKey \<and> m DecodeKey = replicate 32 7"
proof -
  obtain res v' m where op: "delete_proof_mem ref_ext (any_backend_ops ref_ext) (at_instant 9) sample_token (sample_db, \<lambda>_. []) = (res, v', m)"
    by (metis prod.exhaust)
  have start: "\<forall>pl. wiped (\<lambda>_. []) pl" by (simp add: wiped_def)
  have d: "delete_proof ref_ext (any_backend_ops ref_ext) (at_instant 9) sample_token sample_db = (res, v')"
    and w: "\<forall>pl. pl \<noteq> DecodeKey \<longrightarrow> wiped m pl" and k: "m DecodeKey = replicate 32 7"
    using secrets_after_claim [OF start, THEN conjunct2, THEN mp, OF op]
    by (simp_all add: sample_token_decodes claim_id_new_def)
  have "spec_delete ref_ext 9 sample_token (any_abs ref_ext (storage sample_db)) = (Ok (), Map.empty)"
    by (simp add: spec_delete_def sample_token_decodes claim_id_new_def is_expired_def)
  with any_store.delete_proof_quiet [OF _ _ _ d] have "res = Ok ()" by simp
  with op w k show ?thesis by auto
qed

text \<open>
  C29: a plaintext left behind. When a record was decrypted and the deletion that
  follows fails, the retrieval reports the storage error and the decrypted plaintext
  stays in the buffer it was decrypted into, which no destructor wipes.
\<close>

theorem failed_delete_leaves_plaintext:
  assumes "claim_id_decode E tok = Ok c" "be_fetch B (io_first env) (record_id c) (storage v) = (Ok r, s1)"
    and "\<not> is_expired (now_check env) r" "open_record E c r = Some pt"
    and "be_delete B (io_second env) (record_id c) s1 = (Err se, s2)"
    and "retrieve_proof_mem E B env tok (v, m0) = (res, v', m)"
  shows "res = Err (Storage se) \<and> m PlaintextVec = pt"
proof -
  have "length (encryption_key c) = 32"
    using decode_ok_wf [OF assms(1)] by (simp add: claim_id_ok_def)
  moreover obtain bs where "base64_url_decode E tok = Some bs" "length bs = 48"
    "c = \<lparr>record_id = take 16 bs, encryption_key = drop 16 bs\<rparr>"
    using assms(1) by (auto simp: claim_id_decode_def split: option.splits if_splits)
  moreover have "length (nonce (encrypted r)) = 12"
    "aes_gcm_decrypt E (encryption_key c) (nonce (encrypted r)) (ciphertext (encrypted r)) = Some pt"
    using assms(4) by (auto simp: open_record_def split: if_splits)
  ultimately show ?thesis
    using assms(2,3,5,6)
    by (auto simp: retrieve_proof_mem_def with_claim_def claim_id_decode_mem_def Let_def from_slice_def)
qed

theorem failed_delete_leaves_plaintext_witness:
  "\<exists>e v' m. retrieve_proof_mem ref_ext (any_backend_ops ref_ext) ((at_instant 9)\<lparr>io_second := broken_io\<rparr>) sample_token
      (sample_db, \<lambda>_. []) = (Err (Storage e), v', m) \<and> m PlaintextVec = as_bytes ''{}''"
proof -
  let ?env = "(at_instant 9)\<lparr>io_second := broken_io\<rparr>"
  let ?c = "claim_id_new (replicate 16 1) (replicate 32 7)"
  obtain res v' m where op: "retrieve_proof_mem ref_ext (any_backend_ops ref_ext) ?env sample_token (sample_db, \<lambda>_. []) = (res, v', m)"
    by (metis prod.exhaust)
  obtain r s1 where f: "be_fetch (any_backend_ops ref_ext) (io_first ?env) (record_id ?c) (storage sample_db) = (r, s1)" by fastforce
  obtain d s2 where d: "be_delete (any_backend_ops ref_ext) (io_second ?env) (record_id ?c) s1 = (d, s2)" by fastforce
  have r: "r = Ok sample_record"
    using any_store.fetch_quiet [of ref_ext "storage sample_db" "record_id ?c" calm_io] f by (simp add: claim_id_new_def)
  have "\<exists>db. s1 = Sqlite db"
    using f by (cases "sqlite_fetch ref_ext (sqlite_part calm_io) (record_id ?c) \<lparr>proofs = Some [(replicate 16 1, row_of ref_ext sample_record)], db_mode = 384\<rparr>")
      (auto simp: sample_db_def vault_new_def)
  then obtain e where e: "d = Err e"
    using d by (auto simp: broken_io_def sqlite_delete_def with_connection_def db_sys_def split: option.splits)
  have opens: "open_record ref_ext ?c sample_record = Some (as_bytes ''{}'')"
    using sample_opens [of 0] by (auto simp: timed_record_def open_record_def split: if_splits)
  from failed_delete_leaves_plaintext [OF sample_token_decodes f [unfolded r] _ opens d [unfolded e] op] op
  show ?thesis by (auto simp: is_expired_def sample_record_def issued_record_def)
qed

end
