(* ===== verification/Openrpc.thy ===== *)
theory Openrpc
  imports Externals
begin

text \<open>
  \<^verbatim>\<open>openrpc.json\<close>, the interface document that
  \<^verbatim>\<open>src/rpc/discovery.rs\<close> embeds, as the document its text denotes: entries in
  the order of the file, characters outside ASCII as their UTF-8 bytes. Below it, the
  accessors of \<open>serde_json::Value\<close> and what the document says about errors.
\<close>

section \<open>The document\<close>

definition openrpc_info :: json where
  "openrpc_info = JObject [
      (''title'', JString ''Tari Vault''),
      (''version'', JString ''0.1.0''),
      (''description'', JString (''Encrypted intermediary for handing off L1 Merkle Proofs to L2 wallets without exposing plaintext '' @
          ''proof material to intermediaries.'' @ [CHR 0x0A, CHR 0x0A] @
          ''All vault methods are JSON-RPC 2.0 over HTTP POST. When bearer-token authentication is enabled on '' @
          ''the server, every request must carry an '' @ [CHR 0x60] @ ''Authorization: Bearer <token>'' @ [CHR 0x60] @
          '' header '' @ [CHR 0xE2, CHR 0x80, CHR 0x94] @ '' including '' @ [CHR 0x60] @ ''rpc.discover'' @ [CHR 0x60] @
          ''.'')),
      (''license'', JObject [(''name'', JString ''BSD-3-Clause'')])]"

definition openrpc_servers :: json where
  "openrpc_servers = JArray [JObject [(''name'', JString ''Local (default)''), (''url'', JString ''http://127.0.0.1:9000'')]]"

definition openrpc_store_proof :: json where
  "openrpc_store_proof = JObject [
      (''name'', JString ''vault_storeProof''),
      (''summary'', JString ''Encrypt and store a proof; return its Claim_ID token.''),
      (''description'', JString (''Encrypts the supplied proof with a freshly generated AES-256-GCM key, stores only the ciphertext, '' @
          ''and returns an opaque '' @ [CHR 0x60] @ ''Claim_ID'' @ [CHR 0x60] @
          '' token that encodes both the storage key and the decryption key (key-in-the-ID pattern). The '' @
          ''encryption key **never reaches disk**.'' @ [CHR 0x0A, CHR 0x0A] @ ''Pass the '' @ [CHR 0x60] @ ''Claim_ID'' @
          [CHR 0x60] @
          '' through untrusted channels (AI agents, orchestration pipelines, etc.). Only the holder of the '' @
          [CHR 0x60] @ ''Claim_ID'' @ [CHR 0x60] @ '' can decrypt the proof, and only once.'')),
      (''paramStructure'', JString ''by-position''),
      (''params'', JArray [
        JObject [
          (''name'', JString ''params''),
          (''description'', JString ''Store-proof request body.''),
          (''required'', JBool True),
          (''schema'', JObject [(''$ref'', JString ''#/components/schemas/StoreProofRequest'')])]]),
      (''result'', JObject [
        (''name'', JString ''claim_id''),
        (''description'', JString (''Opaque 64-character base64url token (no padding). Encodes a 16-byte storage key and a 32-byte '' @
          ''AES-256-GCM decryption key. Treat as a secret '' @ [CHR 0xE2, CHR 0x80, CHR 0x94] @
          '' anyone who holds it can retrieve the proof.'')),
        (''schema'', JObject [(''$ref'', JString ''#/components/schemas/ClaimId'')])]),
      (''errors'', JArray [
        JObject [(''$ref'', JString ''#/components/errors/InvalidParameter'')],
        JObject [(''$ref'', JString ''#/components/errors/InternalError'')]]),
      (''examples'', JArray [
        JObject [
          (''name'', JString ''Store a Merkle proof object''),
          (''params'', JArray [
            JObject [
              (''name'', JString ''params''),
              (''value'', JObject [
                (''proof_json'', JObject [
                  (''root'', JString ''a1b2c3d4e5f6''),
                  (''path'', JArray [
                    JObject [(''hash'', JString ''aabbcc''), (''direction'', JString ''left'')],
                    JObject [(''hash'', JString ''ddeeff''), (''direction'', JString ''right'')]]),
                  (''leaf'', JString ''deadbeef'')]),
                (''expires_in_secs'', JNumber (PosInt 3600))])]]),
          (''result'', JObject [
            (''name'', JString ''claim_id''),
            (''value'', JString ''AAAA_example_claim_id_that_is_exactly_64_base64url_chars_here____'')])],
        JObject [
          (''name'', JString ''Store a plain-string proof without TTL''),
          (''params'', JArray [
            JObject [
              (''name'', JString ''params''),
              (''value'', JObject [
                (''proof_json'', JString ''raw proof bytes encoded as a string''),
                (''expires_in_secs'', JNull)])]]),
          (''result'', JObject [
            (''name'', JString ''claim_id''),
            (''value'', JString ''BBBB_example_claim_id_that_is_exactly_64_base64url_chars_here____'')])]])]"

definition openrpc_retrieve_proof :: json where
  "openrpc_retrieve_proof = JObject [
      (''name'', JString ''vault_retrieveProof''),
      (''summary'', JString ''Decrypt and consume a stored proof (single-use).''),
      (''description'', JString (''Decodes the '' @ [CHR 0x60] @ ''Claim_ID'' @ [CHR 0x60] @
          '' to recover the storage key and decryption key, fetches and decrypts the ciphertext, **deletes '' @
          ''the record** (single-use semantics), and returns the original proof JSON.'' @ [CHR 0x0A, CHR 0x0A] @
          ''A second call with the same '' @ [CHR 0x60] @ ''Claim_ID'' @ [CHR 0x60] @ '' always returns '' @ [CHR 0x60] @
          ''ProofNotFound'' @ [CHR 0x60] @ '' '' @ [CHR 0xE2, CHR 0x80, CHR 0x94] @ '' the record no longer exists.'' @
          [CHR 0x0A, CHR 0x0A] @ ''If the proof has passed its TTL it is deleted on access and '' @ [CHR 0x60] @
          ''ProofExpired'' @ [CHR 0x60] @ '' is returned.'')),
      (''paramStructure'', JString ''by-position''),
      (''params'', JArray [
        JObject [
          (''name'', JString ''claim_id''),
          (''description'', JString (''The '' @ [CHR 0x60] @ ''Claim_ID'' @ [CHR 0x60] @ '' token returned by '' @ [CHR 0x60] @
          ''vault_storeProof'' @ [CHR 0x60] @ ''.'')),
          (''required'', JBool True),
          (''schema'', JObject [(''$ref'', JString ''#/components/schemas/ClaimId'')])]]),
      (''result'', JObject [
        (''name'', JString ''proof''),
        (''description'', JString ''The decrypted proof, wrapped in an object to allow future envelope fields without breaking callers.''),
        (''schema'', JObject [(''$ref'', JString ''#/components/schemas/ProofObject'')])]),
      (''errors'', JArray [
        JObject [(''$ref'', JString ''#/components/errors/ProofNotFound'')],
        JObject [(''$ref'', JString ''#/components/errors/ProofExpired'')],
        JObject [(''$ref'', JString ''#/components/errors/InvalidClaimId'')],
        JObject [(''$ref'', JString ''#/components/errors/DecryptionFailed'')],
        JObject [(''$ref'', JString ''#/components/errors/InternalError'')]]),
      (''examples'', JArray [
        JObject [
          (''name'', JString ''Retrieve an object proof''),
          (''params'', JArray [
            JObject [
              (''name'', JString ''claim_id''),
              (''value'', JString ''AAAA_example_claim_id_that_is_exactly_64_base64url_chars_here____'')]]),
          (''result'', JObject [
            (''name'', JString ''proof''),
            (''value'', JObject [
              (''proof_json'', JObject [
                (''root'', JString ''a1b2c3d4e5f6''),
                (''path'', JArray [
                  JObject [(''hash'', JString ''aabbcc''), (''direction'', JString ''left'')],
                  JObject [(''hash'', JString ''ddeeff''), (''direction'', JString ''right'')]]),
                (''leaf'', JString ''deadbeef'')])])])]])]"

definition openrpc_delete_proof :: json where
  "openrpc_delete_proof = JObject [
      (''name'', JString ''vault_deleteProof''),
      (''summary'', JString ''Abort: delete a stored proof without decrypting it.''),
      (''description'', JString (''Deletes the stored ciphertext without decrypting or returning it. Intended for the **abort / '' @
          ''cancel** flow: when a bridge operation is abandoned (L1 burn rolled back, AI agent error, user '' @
          ''cancels), the holder of the '' @ [CHR 0x60] @ ''Claim_ID'' @ [CHR 0x60] @
          '' can discard the proof to free storage and prevent stale retrieval attempts.'' @ [CHR 0x0A, CHR 0x0A] @
          ''Requires the full '' @ [CHR 0x60] @ ''Claim_ID'' @ [CHR 0x60] @ '' '' @ [CHR 0xE2, CHR 0x80, CHR 0x94] @
          '' the storage key alone (embedded in the first 22 base64url characters) is not sufficient, '' @
          ''preventing an adversary who only knows the storage key from deleting proofs they cannot read.'' @
          [CHR 0x0A, CHR 0x0A] @ ''Returns '' @ [CHR 0x60] @ ''ProofNotFound'' @ [CHR 0x60] @
          '' if the proof has already been retrieved, previously deleted, or never existed.'')),
      (''paramStructure'', JString ''by-position''),
      (''params'', JArray [
        JObject [
          (''name'', JString ''claim_id''),
          (''description'', JString (''The '' @ [CHR 0x60] @ ''Claim_ID'' @ [CHR 0x60] @ '' token returned by '' @ [CHR 0x60] @
          ''vault_storeProof'' @ [CHR 0x60] @ ''.'')),
          (''required'', JBool True),
          (''schema'', JObject [(''$ref'', JString ''#/components/schemas/ClaimId'')])]]),
      (''result'', JObject [
        (''name'', JString ''result''),
        (''description'', JString (''Always '' @ [CHR 0x60] @ ''null'' @ [CHR 0x60] @ '' on success.'')),
        (''schema'', JObject [(''type'', JString ''null'')])]),
      (''errors'', JArray [
        JObject [(''$ref'', JString ''#/components/errors/ProofNotFound'')],
        JObject [(''$ref'', JString ''#/components/errors/InvalidClaimId'')],
        JObject [(''$ref'', JString ''#/components/errors/InternalError'')]]),
      (''examples'', JArray [
        JObject [
          (''name'', JString ''Cancel a pending handoff''),
          (''params'', JArray [
            JObject [
              (''name'', JString ''claim_id''),
              (''value'', JString ''AAAA_example_claim_id_that_is_exactly_64_base64url_chars_here____'')]]),
          (''result'', JObject [(''name'', JString ''result''), (''value'', JNull)])]])]"

definition openrpc_discover :: json where
  "openrpc_discover = JObject [
      (''name'', JString ''rpc.discover''),
      (''summary'', JString ''Return this OpenRPC document.''),
      (''description'', JString (''Standard OpenRPC service-discovery method. Returns the full OpenRPC document describing all '' @
          ''methods, schemas, and errors for this API.'' @ [CHR 0x0A, CHR 0x0A] @
          ''**Note:** when bearer-token authentication is enabled, this method also requires the '' @ [CHR 0x60] @
          ''Authorization: Bearer <token>'' @ [CHR 0x60] @ '' header. The spec is additionally available as '' @
          [CHR 0x60] @ ''openrpc.json'' @ [CHR 0x60] @ '' in the source repository.'')),
      (''paramStructure'', JString ''by-position''),
      (''params'', JArray []),
      (''result'', JObject [
        (''name'', JString ''openrpc_document''),
        (''description'', JString ''The OpenRPC document for this service.''),
        (''schema'', JObject [
          (''type'', JString ''object''),
          (''description'', JString ''A valid OpenRPC 1.2.x document. See https://spec.open-rpc.org/ for the full meta-schema.'')])]),
      (''examples'', JArray [])]"

definition openrpc_schemas :: json where
  "openrpc_schemas = JObject [
      (''ClaimId'', JObject [
        (''title'', JString ''ClaimId''),
        (''type'', JString ''string''),
        (''description'', JString (''Opaque 64-character base64url (RFC 4648 '' @ [CHR 0xC2, CHR 0xA7] @
          ''5, no padding) token that encodes a 16-byte storage key concatenated with a 32-byte AES-256-GCM '' @
          ''encryption key (48 raw bytes total). The decryption key is **never stored server-side** '' @
          [CHR 0xE2, CHR 0x80, CHR 0x94] @ '' losing the token means the proof is permanently inaccessible.'')),
        (''pattern'', JString ''^[A-Za-z0-9_-]{64}$''),
        (''minLength'', JNumber (PosInt 64)),
        (''maxLength'', JNumber (PosInt 64)),
        (''examples'', JArray [JString ''AAAA_example_claim_id_that_is_exactly_64_base64url_chars_here____''])]),
      (''StoreProofRequest'', JObject [
        (''title'', JString ''StoreProofRequest''),
        (''type'', JString ''object''),
        (''description'', JString (''Request body for '' @ [CHR 0x60] @ ''vault_storeProof'' @ [CHR 0x60] @ ''.'')),
        (''required'', JArray [JString ''proof_json'']),
        (''properties'', JObject [
          (''proof_json'', JObject [
            (''description'', JString (''The proof material as any JSON value (object, string, number, array, or boolean). The vault '' @
          ''serialises whatever is supplied and encrypts it verbatim '' @ [CHR 0xE2, CHR 0x80, CHR 0x94] @
          '' structure is opaque to the vault. The serialised size must not exceed '' @ [CHR 0x60] @
          ''max_proof_size_bytes'' @ [CHR 0x60] @ '' (default 1 MiB); oversized payloads are rejected with '' @
          [CHR 0x60] @ ''InvalidParameter'' @ [CHR 0x60] @ '' (-32006) before any encryption occurs.''))]),
          (''expires_in_secs'', JObject [
            (''description'', JString (''Time-to-live in seconds from the moment of storage. After the TTL elapses the proof is '' @
          ''inaccessible and will be purged by the next cleanup sweep. Omit or set to '' @ [CHR 0x60] @ ''null'' @
          [CHR 0x60] @ '' for a proof that never expires. Must be a positive integer ('' @
          [CHR 0xE2, CHR 0x89, CHR 0xA5] @ '' 1) if provided; zero is rejected with '' @ [CHR 0x60] @
          ''InvalidParameter'' @ [CHR 0x60] @ ''.'')),
            (''type'', JArray [JString ''integer'', JString ''null'']),
            (''exclusiveMinimum'', JNumber (PosInt 0)),
            (''examples'', JArray [JNumber (PosInt 3600), JNumber (PosInt 86400), JNull])])]),
        (''examples'', JArray [
          JObject [
            (''proof_json'', JObject [(''root'', JString ''a1b2c3''), (''path'', JArray []), (''leaf'', JString ''deadbeef'')]),
            (''expires_in_secs'', JNumber (PosInt 3600))]])]),
      (''ProofObject'', JObject [
        (''title'', JString ''ProofObject''),
        (''type'', JString ''object''),
        (''description'', JString (''Response body for '' @ [CHR 0x60] @ ''vault_retrieveProof'' @ [CHR 0x60] @
          ''. Wraps the proof in an envelope object so future metadata fields can be added without breaking '' @
          ''existing callers.'')),
        (''required'', JArray [JString ''proof_json'']),
        (''properties'', JObject [
          (''proof_json'', JObject [
            (''description'', JString (''The original proof value exactly as it was passed to '' @ [CHR 0x60] @ ''vault_storeProof'' @ [CHR 0x60] @
          ''.''))])]),
        (''examples'', JArray [
          JObject [
            (''proof_json'', JObject [(''root'', JString ''a1b2c3''), (''path'', JArray []), (''leaf'', JString ''deadbeef'')])]])])]"

definition openrpc_errors :: json where
  "openrpc_errors = JObject [
      (''ProofNotFound'', JObject [
        (''code'', JNumber (NegInt (- 32001))),
        (''message'', JString ''Proof not found''),
        (''data'', JNull)]),
      (''ProofExpired'', JObject [
        (''code'', JNumber (NegInt (- 32002))),
        (''message'', JString ''Proof has expired''),
        (''data'', JNull)]),
      (''InvalidClaimId'', JObject [
        (''code'', JNumber (NegInt (- 32003))),
        (''message'', JString ''Invalid claim ID format''),
        (''data'', JNull)]),
      (''DecryptionFailed'', JObject [
        (''code'', JNumber (NegInt (- 32004))),
        (''message'', JString ''Decryption failed''),
        (''data'', JNull)]),
      (''InvalidParameter'', JObject [
        (''code'', JNumber (NegInt (- 32006))),
        (''message'', JString ''Invalid parameter''),
        (''data'', JNull)]),
      (''InternalError'', JObject [
        (''code'', JNumber (NegInt (- 32005))),
        (''message'', JString ''Internal error''),
        (''data'', JNull)])]"

definition openrpc_json :: json where
  "openrpc_json = JObject [
    (''openrpc'', JString ''1.2.6''),
    (''info'', openrpc_info),
    (''servers'', openrpc_servers),
    (''methods'', JArray [openrpc_store_proof, openrpc_retrieve_proof, openrpc_delete_proof, openrpc_discover]),
    (''components'', JObject [(''schemas'', openrpc_schemas), (''errors'', openrpc_errors)])]"

section \<open>Accessors of \<open>Value\<close>\<close>

text \<open>\<open>value[k]\<close> is \<open>Null\<close> when there is no such entry.\<close>

fun json_index :: "json \<Rightarrow> string \<Rightarrow> json" where
  "json_index (JObject kvs) k = (case map_of kvs k of None \<Rightarrow> JNull | Some v \<Rightarrow> v)"
| "json_index _ k = JNull"

fun json_is_object :: "json \<Rightarrow> bool" where
  "json_is_object (JObject _) = True"
| "json_is_object _ = False"

fun json_as_array :: "json \<Rightarrow> json list option" where
  "json_as_array (JArray vs) = Some vs"
| "json_as_array _ = None"

fun json_as_object :: "json \<Rightarrow> (string \<times> json) list option" where
  "json_as_object (JObject kvs) = Some kvs"
| "json_as_object _ = None"

fun json_as_str :: "json \<Rightarrow> string option" where
  "json_as_str (JString s) = Some s"
| "json_as_str _ = None"

fun json_as_i64 :: "json \<Rightarrow> int option" where
  "json_as_i64 (JNumber (PosInt n)) = (if unat n < 2 ^ 63 then Some (uint n) else None)"
| "json_as_i64 (JNumber (NegInt n)) = Some (sint n)"
| "json_as_i64 _ = None"

section \<open>The documented errors\<close>

text \<open>The codes under \<open>components.errors\<close> that the \<open>errors\<close> of a method refer to.\<close>

definition error_code :: "string \<Rightarrow> int option" where
  "error_code ref =
     Option.bind (strip_prefix ''#/components/errors/'' ref) (\<lambda>n.
     json_as_i64 (json_index (json_index (json_index (json_index openrpc_json ''components'') ''errors'') n) ''code''))"

definition documented_errors :: "string \<Rightarrow> int list" where
  "documented_errors method =
     concat (map (\<lambda>m.
       if json_index m ''name'' = JString method
       then List.map_filter (\<lambda>e. Option.bind (json_as_str (json_index e ''$ref'')) error_code)
              (case json_as_array (json_index m ''errors'') of None \<Rightarrow> [] | Some es \<Rightarrow> es)
       else []) (case json_as_array (json_index openrpc_json ''methods'') of None \<Rightarrow> [] | Some ms \<Rightarrow> ms))"

lemma documented_errors_eq:
  "documented_errors ''vault_storeProof'' = [- 32006, - 32005]"
  "documented_errors ''vault_retrieveProof'' = [- 32001, - 32002, - 32003, - 32004, - 32005]"
  "documented_errors ''vault_deleteProof'' = [- 32001, - 32003, - 32005]"
  by code_simp+

end
