(* ===== verification/Discovery.thy ===== *)
theory Discovery
  imports Rpc_Server Openrpc
begin

text \<open>
  The published interface, \<^verbatim>\<open>openrpc.json\<close>, beside the handlers: the
  errors the document lists for each method, read off the document itself, and the errors
  the methods give.
  \<open>rpc.discover\<close> itself is \<^const>\<open>discover\<close>.
\<close>

section \<open>The errors of the vault\<close>

lemma fetch_error_code: "rpc_code (fetch_error e) \<in> {- 32001, - 32005}"
  by (cases e) (simp_all add: fetch_error_def)

lemma claim_id_decode_Err: "claim_id_decode E tok = Err e \<Longrightarrow> e = InvalidClaimId"
  by (auto simp: claim_id_decode_def split: option.splits if_splits)

lemma drop_expired_Err:
  "drop_expired E B io rid msg v = (Err e, v') \<Longrightarrow> e = ProofExpired"
  by (auto simp: drop_expired_def split: prod.splits result.splits)

lemma expiry_at_Err: "expiry_at E now s = Err e \<Longrightarrow> rpc_code e = - 32006"
  by (auto simp: expiry_at_def split: if_splits option.splits)

lemma try_op_Err_cases:
  assumes "try_op m f = (Err e, s')"
  obtains "m = (Err e, s')" | a s where "m = (Ok a, s)" "f a s = (Err e, s')"
  using assms by (cases m rule: prod.exhaust; cases "fst m") auto

lemma map_err_op_Err: "map_err_op f m = (Err e, s) \<Longrightarrow> \<exists>e'. m = (Err e', s) \<and> e = f e'"
  by (cases m) (auto simp: map_err_Err_iff)

lemma map_err_op_Ok: "map_err_op f m = (Ok a, s) \<Longrightarrow> m = (Ok a, s)"
  by (cases m) auto

lemmas error_dests = map_err_op_Err map_err_op_Ok claim_id_decode_Err drop_expired_Err

lemma store_proof_codes:
  assumes "store_proof E B env p ttl v = (Err e, v')"
  shows "rpc_code e \<in> {- 32006, - 32005} \<or>
    e = DecryptionFailed \<and> aes_gcm_encrypt E (gen_key env) (gen_nonce env) (proof_data p) = None"
proof (cases "aes_gcm_encrypt E (gen_key env) (gen_nonce env) (proof_data p)")
  case None
  then show ?thesis
    using assms by (auto simp: store_proof_def proof_as_bytes_def split: if_splits)
next
  case (Some ct)
  have ex: "rpc_code x = - 32006" if "transpose_res (map_option (expiry_at E (now_expiry env)) ttl) = Err x" for x
    using that expiry_at_Err by (cases ttl; cases "expiry_at E (now_expiry env) (the ttl)") auto
  show ?thesis
    using assms Some
    by (auto simp: store_proof_def proof_as_bytes_def Let_def split: if_splits elim!: try_op_Err_cases
        dest!: ex error_dests)
qed

lemma retrieve_proof_codes:
  assumes "retrieve_proof E B env tok v = (Err e, v')"
  shows "rpc_code e \<in> {- 32001, - 32002, - 32003, - 32004, - 32005}"
  using assms fetch_error_code
  by (auto simp: retrieve_proof_def Let_def from_slice_def
      split: if_splits option.splits elim!: try_op_Err_cases dest!: error_dests)

lemma delete_proof_codes:
  assumes "delete_proof E B env tok v = (Err e, v')"
  shows "rpc_code e \<in> {- 32001, - 32003, - 32005} \<or>
    e = ProofExpired \<and> (\<exists>c r. claim_id_decode E tok = Ok c \<and>
      fst (be_fetch B (io_first env) (record_id c) (storage v)) = Ok r \<and> is_expired (now_check env) r)"
  using assms fetch_error_code
  by (auto simp: delete_proof_def Let_def on_storage_def map_err_Err_iff
      split: if_splits prod.splits elim!: try_op_Err_cases dest!: error_dests)

lemma map_rpc_err_Err:
  assumes "map_rpc_err m = (Err x, st')"
  obtains e st where "m = (Err e, st)" "err_code x = rpc_code e"
  using assms by (cases m rule: map_rpc_err.cases) (auto simp: vault_to_rpc_err_def Let_def)

lemma map_rpc_err_Ok: "map_rpc_err m = (Ok a, st) \<Longrightarrow> m = (Ok a, st)"
  by (cases m rule: map_rpc_err.cases) (auto simp: vault_to_rpc_err_def Let_def)

lemma proof_from_json_Err: "proof_from_json E j = Err e \<Longrightarrow> rpc_code e = - 32005"
  by (cases "serde_to_vec E j") (auto simp: proof_from_json_def)

lemma on_vault_Err: "on_vault f st = (r, st') \<Longrightarrow> f (rpc_vault st) = (r, rpc_vault st')"
  by (auto simp: on_vault_def split: prod.splits)

text \<open>
  C26: the published errors. Every error of \<open>vault_retrieveProof\<close> is one the
  document lists for it. So is every error of \<open>vault_storeProof\<close>, except -32004
  when the cipher refuses the plaintext, and every error of \<open>vault_deleteProof\<close>,
  except -32002 for a record that has expired.
\<close>

theorem rpc_errors_documented:
  "(\<forall>x st'. rpc_store_proof E (standard_vault E B) limit env params st = (Err x, st') \<longrightarrow>
      err_code x \<in> set (documented_errors ''vault_storeProof'') \<or>
      err_code x = - 32004 \<and> (\<exists>p. proof_from_json E (proof_json params) = Ok p \<and>
        aes_gcm_encrypt E (gen_key env) (gen_nonce env) (proof_data p) = None)) \<and>
   (\<forall>x st'. rpc_retrieve_proof E (standard_vault E B) env tok st = (Err x, st') \<longrightarrow>
      err_code x \<in> set (documented_errors ''vault_retrieveProof'')) \<and>
   (\<forall>x st'. rpc_delete_proof (standard_vault E B) env tok st = (Err x, st') \<longrightarrow>
      err_code x \<in> set (documented_errors ''vault_deleteProof'') \<or>
      err_code x = - 32002 \<and> (\<exists>c r. claim_id_decode E tok = Ok c \<and>
        fst (be_fetch B (io_first env) (record_id c) (storage (rpc_vault st))) = Ok r \<and> is_expired (now_check env) r))"
proof (intro conjI allI impI)
  fix x st'
  assume op: "rpc_store_proof E (standard_vault E B) limit env params st = (Err x, st')"
  show "err_code x \<in> set (documented_errors ''vault_storeProof'') \<or>
      err_code x = - 32004 \<and> (\<exists>p. proof_from_json E (proof_json params) = Ok p \<and>
        aes_gcm_encrypt E (gen_key env) (gen_nonce env) (proof_data p) = None)"
    using op
    by (auto simp: documented_errors_eq rpc_store_proof_def vault_to_rpc_err_def Let_def
        split: if_splits elim!: try_op_Err_cases map_rpc_err_Err
        dest!: map_rpc_err_Ok proof_from_json_Err on_vault_Err store_proof_codes)
next
  fix x st'
  assume op: "rpc_retrieve_proof E (standard_vault E B) env tok st = (Err x, st')"
  then show "err_code x \<in> set (documented_errors ''vault_retrieveProof'')"
    by (auto simp: documented_errors_eq rpc_retrieve_proof_def proof_into_json_def map_err_Err_iff
        elim!: try_op_Err_cases map_rpc_err_Err dest!: on_vault_Err retrieve_proof_codes)
next
  fix x st'
  assume op: "rpc_delete_proof (standard_vault E B) env tok st = (Err x, st')"
  then obtain e v' where "delete_proof E B env tok (rpc_vault st) = (Err e, v')" "err_code x = rpc_code e"
    by (auto simp: rpc_delete_proof_def elim!: map_rpc_err_Err dest!: on_vault_Err)
  then show "err_code x \<in> set (documented_errors ''vault_deleteProof'') \<or>
      err_code x = - 32002 \<and> (\<exists>c r. claim_id_decode E tok = Ok c \<and>
        fst (be_fetch B (io_first env) (record_id c) (storage (rpc_vault st))) = Ok r \<and> is_expired (now_check env) r)"
    using delete_proof_codes unfolding documented_errors_eq by fastforce
qed

theorem rpc_errors_documented_witness:
  "\<exists>x st'. rpc_delete_proof (standard_vault ref_ext (any_backend_ops ref_ext)) (at_instant 101) sample_token
       \<lparr>rpc_vault = timed_db 100, rpc_log = []\<rparr> = (Err x, st') \<and>
     err_code x = - 32002 \<and> - 32002 \<notin> set (documented_errors ''vault_deleteProof'')"
proof -
  let ?st = "\<lparr>rpc_vault = timed_db 100, rpc_log = []\<rparr>"
  let ?v = "standard_vault ref_ext (any_backend_ops ref_ext)"
  have t: "rfc3339_range 100" by (simp add: rfc3339_range_def)
  obtain q v' where q: "delete_proof ref_ext (any_backend_ops ref_ext) (at_instant 101) sample_token (timed_db 100) = (q, v')"
    by fastforce
  have "spec_delete ref_ext 101 sample_token (any_abs ref_ext (storage (timed_db 100))) = (Err ProofExpired, Map.empty)"
    by (simp add: spec_delete_def sample_token_decodes timed_db_facts(3) [OF t] claim_id_new_def timed_record_def is_expired_def)
  with any_store.delete_proof_quiet [of ref_ext "timed_db 100" "at_instant 101" ref_ext sample_token q v'] q timed_db_facts [OF t]
  have "q = Err ProofExpired" by simp
  then obtain x st' where op: "rpc_delete_proof ?v (at_instant 101) sample_token ?st = (Err x, st')"
    and "err_code x = - 32002"
    using q by (simp add: rpc_delete_proof_def vault_to_rpc_err_def Let_def)
  moreover have "err_code x \<in> set (documented_errors ''vault_deleteProof'') \<or> err_code x = - 32002"
    using rpc_errors_documented [of ref_ext "any_backend_ops ref_ext" 0 "at_instant 101" sample_params ?st sample_token] op by blast
  ultimately show ?thesis by (auto simp: documented_errors_eq)
qed

end
