(* ===== verification/Test_Kit.thy ===== *)
theory Test_Kit
  imports Vault_Runs
begin

text \<open>
  What the unit tests of the repository are written with, and how their steps are
  reasoned about. A test is a bool-valued function of the random values, clock readings
  and system-call outcomes it meets: \<^const>\<open>True\<close> when no assertion fails and
  nothing panics. The step rules say what an operation that does not fail hands to the
  rest of a test.
\<close>

section \<open>Assertions\<close>

text \<open>\<open>unwrap\<close> and \<open>unwrap_err\<close> panic on the other outcome.\<close>

fun unwrap :: "('a, 'e) result \<times> 's \<Rightarrow> ('a \<Rightarrow> 's \<Rightarrow> bool) \<Rightarrow> bool" where
  "unwrap (Ok a, s) k = k a s"
| "unwrap (_, s) k = False"

fun unwrap_err :: "('a, 'e) result \<times> 's \<Rightarrow> ('e \<Rightarrow> 's \<Rightarrow> bool) \<Rightarrow> bool" where
  "unwrap_err (Err e, s) k = k e s"
| "unwrap_err (_, s) k = False"

fun is_err :: "('a, 'e) result \<Rightarrow> bool" where
  "is_err (Err e) = True"
| "is_err _ = False"

text \<open>\<open>Utc::now() + Duration::seconds(s)\<close>, which panics out of range.\<close>

definition plus_seconds :: "ext \<Rightarrow> datetime \<Rightarrow> int \<Rightarrow> (datetime, 'e) result" where
  "plus_seconds E now s =
     (case chrono_seconds E s of
        None \<Rightarrow> Panic ''TimeDelta::seconds out of bounds''
      | Some d \<Rightarrow> (case chrono_add E now d of
          None \<Rightarrow> Panic ''DateTime + TimeDelta overflowed''
        | Some t \<Rightarrow> Ok t))"

text \<open>
  The additions and subtractions of the tests stay among the instants after the epoch,
  where chrono's arithmetic is exact. \<open>sub\<close> is \<open>DateTime - Duration\<close>.
\<close>

definition chrono_near_laws :: "ext \<Rightarrow> (datetime \<Rightarrow> timedelta \<Rightarrow> datetime option) \<Rightarrow> bool" where
  "chrono_near_laws E sub \<longleftrightarrow>
     (\<forall>t d. 0 \<le> t \<and> 0 \<le> t + d \<and> t + d \<le> chrono_max E \<longrightarrow> chrono_add E t d = Some (t + d)) \<and>
     (\<forall>t d. 0 \<le> d \<and> d \<le> t \<longrightarrow> sub t d = Some (t - d))"

definition minus_seconds ::
  "ext \<Rightarrow> (datetime \<Rightarrow> timedelta \<Rightarrow> datetime option) \<Rightarrow> datetime \<Rightarrow> int \<Rightarrow> (datetime, 'e) result" where
  "minus_seconds E sub now s =
     (case chrono_seconds E s of
        None \<Rightarrow> Panic ''TimeDelta::seconds out of bounds''
      | Some d \<Rightarrow> (case sub now d of
          None \<Rightarrow> Panic ''DateTime - TimeDelta overflowed''
        | Some t \<Rightarrow> Ok t))"

lemma plus_seconds_exact:
  assumes "chrono_arith_laws E" "chrono_near_laws E sub" "\<bar>s\<bar> \<le> 7200"
    and "0 \<le> now" "0 \<le> now + s * 1000000000" "now + s * 1000000000 \<le> chrono_max E"
  shows "plus_seconds E now s = Ok (now + s * 1000000000)"
  using assms
  by (simp add: plus_seconds_def chrono_arith_laws_def chrono_near_laws_def max_duration_seconds_def)

lemma minus_seconds_exact:
  assumes "chrono_arith_laws E" "chrono_near_laws E sub" "0 \<le> s" "s \<le> 7200" "s * 1000000000 \<le> now"
  shows "minus_seconds E sub now s = Ok (now - s * 1000000000)"
  using assms
  by (simp add: minus_seconds_def chrono_arith_laws_def chrono_near_laws_def max_duration_seconds_def)

text \<open>
  A test takes less than a second: its clock readings lie in one second, which is far from
  the ends of chrono's range and of the years RFC 3339 covers.
\<close>

definition test_time :: "ext \<Rightarrow> datetime \<Rightarrow> bool" where
  "test_time E T \<longleftrightarrow> 7200000000000 \<le> T \<and> T + 7201000000000 \<le> chrono_max E \<and> rfc3339_range (T + 7201000000000)"

definition within_test :: "datetime \<Rightarrow> datetime \<Rightarrow> bool" where
  "within_test T t \<longleftrightarrow> T \<le> t \<and> t < T + 1000000000"

section \<open>Steps on a calm backend\<close>

text \<open>The state stands for the store \<open>m\<close>, and the calls \<open>Q\<close> of the test do not fail in it.\<close>

definition calm_state ::
  "('s \<Rightarrow> bool) \<Rightarrow> ('s \<Rightarrow> store) \<Rightarrow> ('io \<Rightarrow> 's \<Rightarrow> bool) \<Rightarrow> 'io set \<Rightarrow> store \<Rightarrow> 's \<Rightarrow> bool" where
  "calm_state ok view undisturbed Q m s \<longleftrightarrow> ok s \<and> view s = m \<and> (\<forall>io \<in> Q. undisturbed io s)"

context calm_backend
begin

abbreviation calm where
  "calm \<equiv> calm_state inv abs quiet"

lemmas calm_def = calm_state_def [of inv abs quiet]

lemma calm_insert_eq:
  assumes "calm Q m s" "length rid = 16" "storable r" "io \<in> Q"
  obtains s' where "be_insert B io rid r s = (Ok (), s')" "calm Q (m(rid \<mapsto> r)) s'"
proof -
  obtain s' where op: "be_insert B io rid r s = (Ok (), s')"
    using insert_quiet [of s rid r io] assms(1-4) by (metis calm_def prod.collapse)
  then have "calm Q (m(rid \<mapsto> r)) s'"
    using insert_spec [OF _ assms(2,3) op] insert_keeps_quiet [OF _ assms(2,3), of s _ io] assms(1)
    by (auto simp: calm_def)
  then show thesis using op that by blast
qed

lemma calm_insert:
  assumes "calm Q m s" "length rid = 16" "storable r" "io \<in> Q" "\<And>s'. calm Q (m(rid \<mapsto> r)) s' \<Longrightarrow> k () s'"
  shows "unwrap (be_insert B io rid r s) k"
  by (rule calm_insert_eq [OF assms(1-4)]) (simp add: assms(5))

lemma calm_fetch_eq:
  assumes "calm Q m s" "length rid = 16" "io \<in> Q"
  obtains s' where "be_fetch B io rid s = (case m rid of None \<Rightarrow> Err NotFound | Some r \<Rightarrow> Ok r, s')" "calm Q m s'"
proof -
  obtain x s' where op: "be_fetch B io rid s = (x, s')" by fastforce
  have s: "inv s" "abs s = m" "quiet io s" using assms by (auto simp: calm_def)
  have "x = (case m rid of None \<Rightarrow> Err NotFound | Some r \<Rightarrow> Ok r)"
    using fetch_quiet [OF s(1) assms(2) s(3)] op s(2) by simp
  moreover have "calm Q m s'"
    using fetch_spec [OF s(1) assms(2) op] fetch_keeps_quiet [OF s(1) assms(2), of _ io] op assms(1)
    by (auto simp: calm_def)
  ultimately show thesis using that op by simp
qed

lemma calm_fetch:
  assumes "calm Q m s" "length rid = 16" "io \<in> Q" "m rid = Some r" "\<And>s'. calm Q m s' \<Longrightarrow> k r s'"
  shows "unwrap (be_fetch B io rid s) k"
  using calm_fetch_eq [OF assms(1-3)] assms(4,5) by (metis (no_types, lifting) option.simps(5) unwrap.simps(1))

lemma calm_fetch_missing:
  assumes "calm Q m s" "length rid = 16" "io \<in> Q" "m rid = None"
  shows "fst (be_fetch B io rid s) = Err NotFound"
  using calm_fetch_eq [OF assms(1-3)] assms(4) by (metis (no_types, lifting) fst_conv option.simps(4))

lemma calm_delete:
  assumes "calm Q m s" "length rid = 16" "io \<in> Q" "\<And>s'. calm Q (m(rid := None)) s' \<Longrightarrow> k (m rid \<noteq> None) s'"
  shows "unwrap (be_delete B io rid s) k"
proof -
  have s: "inv s" "abs s = m" "quiet io s" using assms by (auto simp: calm_def)
  obtain x s' where op: "be_delete B io rid s = (x, s')" by fastforce
  then obtain b where b: "x = Ok b"
    using delete_quiet [OF s(1) assms(2) s(3)] by (cases x) auto
  have "calm Q (m(rid := None)) s'" "b \<longleftrightarrow> m rid \<noteq> None"
    using delete_spec [OF s(1) assms(2) op] delete_keeps_quiet [OF s(1) assms(2), of _ io] op s(2) assms(1) b
    by (auto simp: calm_def)
  then show ?thesis using op b assms(4) by simp
qed

lemma calm_delete_expired:
  assumes "calm Q m s" "clock_ok now" "io \<in> Q"
    and "\<And>s'. calm Q (purge now m) s' \<Longrightarrow> k (card {rid. \<exists>r. m rid = Some r \<and> due now r}) s'"
  shows "unwrap (be_delete_expired B io now s) k"
proof -
  have s: "inv s" "abs s = m" "quiet io s" using assms by (auto simp: calm_def)
  obtain x s' where op: "be_delete_expired B io now s = (x, s')" by fastforce
  then obtain n where n: "x = Ok n"
    using delete_expired_quiet [OF s(1) assms(2) s(3)] by (cases x) auto
  have "calm Q (purge now m) s'" "n = card {rid. \<exists>r. m rid = Some r \<and> due now r}"
    using delete_expired_spec [OF s(1) assms(2) op] delete_expired_keeps_quiet [OF s(1) assms(2), of _ io] op s(2) assms(1) n
    by (auto simp: calm_def)
  then show ?thesis using op n assms(4) by simp
qed

text \<open>The operations of the vault answer and act as their references.\<close>

lemma calm_op:
  assumes c: "calm Q m (storage v)" and ok: "op_ok storable clock_ok E op"
    and io: "io_first (op_env op) \<in> Q" "io_second (op_env op) \<in> Q"
  obtains v' where "run_op E B op v = (fst (spec_op E op m), v')" "calm Q (snd (spec_op E op m)) (storage v')"
proof -
  have s: "inv (storage v)" "abs (storage v) = m" and q: "quiet io (storage v)" if "io \<in> Q" for io
    using c that by (auto simp: calm_def)
  obtain a v' where run: "run_op E B op v = (a, v')" by fastforce
  have "(a, abs (storage v')) = spec_op E op m"
    using run_op_quiet [OF s(1) ok run q q] s(2) io by simp
  moreover have "inv (storage v')" "\<forall>io \<in> Q. quiet io (storage v')"
    using run_op_conforms [OF s(1) ok run] run_op_keeps_quiet [OF s(1) ok q] run io by auto
  ultimately show thesis
    using that [of v'] run by (auto simp: calm_def) (metis fst_conv snd_conv)+
qed

lemma calm_store:
  assumes "calm Q m (storage v)" "store_ok storable E env ttl" "io_first env \<in> Q" "io_second env \<in> Q"
    and "spec_store E env p ttl m = (r, m')"
  obtains v' where "store_proof E B env p ttl v = (r, v')" "calm Q m' (storage v')"
  using calm_op [OF assms(1), of E "OpStore env p ttl"] assms(2-5) by (auto simp: map_prod_obtain)

lemma calm_retrieve:
  assumes "calm Q m (storage v)" "io_first env \<in> Q" "io_second env \<in> Q"
    and "spec_retrieve E (now_check env) tok m = (r, m')"
  obtains v' where "retrieve_proof E B env tok v = (r, v')" "calm Q m' (storage v')"
  using calm_op [OF assms(1), of E "OpRetrieve env tok"] assms(2-4) by (auto simp: map_prod_obtain)

lemma calm_remove:
  assumes "calm Q m (storage v)" "io_first env \<in> Q" "io_second env \<in> Q"
    and "spec_delete E (now_check env) tok m = (r, m')"
  obtains v' where "delete_proof E B env tok v = (r, v')" "calm Q m' (storage v')"
  using calm_op [OF assms(1), of E "OpDelete env tok"] assms(2-4) by (auto simp: map_prod_obtain)

lemma calm_cleanup:
  assumes "calm Q m (storage v)" "clock_ok (now_check env)" "io_first env \<in> Q" "io_second env \<in> Q"
  obtains v' where "cleanup B env v = (Ok (card {rid. \<exists>r. m rid = Some r \<and> due (now_check env) r}), v')"
    "calm Q (purge (now_check env) m) (storage v')"
  using calm_op [OF assms(1), of undefined "OpCleanup env"] assms(2-4) by (auto simp: map_prod_obtain spec_cleanup_def)

end

end
