(* ===== verification/Storage_Tests.thy ===== *)
theory Storage_Tests
  imports Test_Kit Crash_Safety
begin

text \<open>
  The unit tests of \<^verbatim>\<open>src/storage/local_file.rs\<close> and
  \<^verbatim>\<open>src/storage/sqlite.rs\<close>, as functions of the record ids, clock readings
  (\<open>clock n\<close> is the n-th reading of \<open>Utc::now()\<close>) and call environments
  (\<open>io n\<close> for the n-th storage call) they meet.
\<close>

section \<open>The tests\<close>

definition make_record :: "ext \<Rightarrow> datetime \<Rightarrow> datetime \<Rightarrow> int option \<Rightarrow> (stored_record, unit) result" where
  "make_record E t0 t1 expires_in_secs =
     bind_res (transpose_res (map_option (plus_seconds E t1) expires_in_secs)) (\<lambda>ex.
     Ok \<lparr>encrypted = \<lparr>nonce = replicate 12 0, ciphertext = as_bytes ''hello''\<rparr>, stored_at = t0, expires_at = ex\<rparr>)"

text \<open>The bodies of the tests, which the two files share word for word.\<close>

definition round_trip_steps ::
  "ext \<Rightarrow> ('s, 'io) storage_backend \<Rightarrow> bytes \<Rightarrow> (nat \<Rightarrow> datetime) \<Rightarrow> (nat \<Rightarrow> 'io) \<Rightarrow> 's \<Rightarrow> bool" where
  "round_trip_steps E B rid clock io store =
     unwrap (make_record E (clock 0) (clock 1) None, store) (\<lambda>record store.
     unwrap (be_insert B (io 0) rid record store) (\<lambda>_ store.
     unwrap (be_fetch B (io 1) rid store) (\<lambda>fetched store.
     ciphertext (encrypted fetched) = as_bytes ''hello'' \<and>
     unwrap (be_delete B (io 2) rid store) (\<lambda>_ store.
     fst (be_fetch B (io 3) rid store) = Err NotFound))))"

definition stale_records_steps ::
  "ext \<Rightarrow> ('s, 'io) storage_backend \<Rightarrow> bytes \<Rightarrow> bytes \<Rightarrow> (nat \<Rightarrow> datetime) \<Rightarrow> (nat \<Rightarrow> 'io) \<Rightarrow> 's \<Rightarrow> bool" where
  "stale_records_steps E B id_expired id_valid clock io store =
     unwrap (make_record E (clock 0) (clock 1) (Some (- 1)), store) (\<lambda>record store.
     unwrap (be_insert B (io 0) id_expired record store) (\<lambda>_ store.
     unwrap (make_record E (clock 2) (clock 3) (Some 3600), store) (\<lambda>record store.
     unwrap (be_insert B (io 1) id_valid record store) (\<lambda>_ store.
     unwrap (be_delete_expired B (io 2) (clock 4) store) (\<lambda>removed store.
     removed = 1 \<and>
     (case be_fetch B (io 3) id_expired store of (r, store) \<Rightarrow>
       r = Err NotFound \<and> is_ok (fst (be_fetch B (io 4) id_valid store))))))))"

text \<open>\<open>store_in\<close> of the file backend, in a fresh temporary directory, and its tests.\<close>

definition vault_json :: "path \<Rightarrow> path" where
  "vault_json dir = path_join dir ''vault.json''"

definition file_store_in :: "ext \<Rightarrow> file_io \<Rightarrow> path \<Rightarrow> fs \<Rightarrow> (fs \<Rightarrow> bool) \<Rightarrow> bool" where
  "file_store_in E io dir d k = unwrap (local_file_new E io (vault_json dir) d) (\<lambda>_ d. k d)"

definition file_insert_fetch_delete_round_trip ::
  "ext \<Rightarrow> path \<Rightarrow> file_io \<Rightarrow> bytes \<Rightarrow> (nat \<Rightarrow> datetime) \<Rightarrow> (nat \<Rightarrow> file_io) \<Rightarrow> fs \<Rightarrow> bool" where
  "file_insert_fetch_delete_round_trip E dir io0 rid clock io d =
     file_store_in E io0 dir d (round_trip_steps E (local_file_backend E (vault_json dir)) rid clock io)"

definition file_delete_expired_removes_stale_records ::
  "ext \<Rightarrow> path \<Rightarrow> file_io \<Rightarrow> bytes \<Rightarrow> bytes \<Rightarrow> (nat \<Rightarrow> datetime) \<Rightarrow> (nat \<Rightarrow> file_io) \<Rightarrow> fs \<Rightarrow> bool" where
  "file_delete_expired_removes_stale_records E dir io0 id_expired id_valid clock io d =
     file_store_in E io0 dir d
       (stale_records_steps E (local_file_backend E (vault_json dir)) id_expired id_valid clock io)"

text \<open>The same for the SQLite backend; a fresh directory has no database file.\<close>

definition sqlite_store_in :: "sqlite_io \<Rightarrow> path \<Rightarrow> (db_file \<Rightarrow> bool) \<Rightarrow> bool" where
  "sqlite_store_in io dir k =
     unwrap (sqlite_new io (path_join dir ''vault.db'') None) (\<lambda>_ db. case db of None \<Rightarrow> False | Some f \<Rightarrow> k f)"

definition sqlite_insert_fetch_delete_round_trip ::
  "ext \<Rightarrow> path \<Rightarrow> sqlite_io \<Rightarrow> bytes \<Rightarrow> (nat \<Rightarrow> datetime) \<Rightarrow> (nat \<Rightarrow> sqlite_io) \<Rightarrow> bool" where
  "sqlite_insert_fetch_delete_round_trip E dir io0 rid clock io =
     sqlite_store_in io0 dir (round_trip_steps E (sqlite_backend E) rid clock io)"

definition sqlite_delete_expired_removes_stale_records ::
  "ext \<Rightarrow> path \<Rightarrow> sqlite_io \<Rightarrow> bytes \<Rightarrow> bytes \<Rightarrow> (nat \<Rightarrow> datetime) \<Rightarrow> (nat \<Rightarrow> sqlite_io) \<Rightarrow> bool" where
  "sqlite_delete_expired_removes_stale_records E dir io0 id_expired id_valid clock io =
     sqlite_store_in io0 dir (stale_records_steps E (sqlite_backend E) id_expired id_valid clock io)"

definition sqlite_delete_is_idempotent ::
  "ext \<Rightarrow> path \<Rightarrow> sqlite_io \<Rightarrow> bytes \<Rightarrow> sqlite_io \<Rightarrow> bool" where
  "sqlite_delete_is_idempotent E dir io0 rid io =
     sqlite_store_in io0 dir (\<lambda>store. is_ok (fst (be_delete (sqlite_backend E) io rid store)))"

section \<open>What the tests meet\<close>

text \<open>
  No call fails, and a temporary file is not called like a file the tests use. In a fresh
  directory there may already be the certificate and the key of a TLS test.
\<close>

definition test_file_io :: "file_io \<Rightarrow> bool" where
  "test_file_io io \<longleftrightarrow> (\<forall>c. fault io c = None) \<and> temp_name io \<notin> {''vault.json'', ''vault.lock'', ''cert.pem'', ''key.pem''}"

definition fresh_dir :: "path \<Rightarrow> fs \<Rightarrow> bool" where
  "fresh_dir dir d \<longleftrightarrow> (\<forall>n. n \<notin> {''cert.pem'', ''key.pem''} \<longrightarrow> d (path_join dir n) = None)"

lemma vault_json_paths [simp]:
  "path_parent (vault_json dir) = Some dir" "lock_path (vault_json dir) = path_join dir ''vault.lock''"
  by (simp add: vault_json_def)
    (simp add: vault_json_def lock_path_def path_with_extension_def path_file_name_def path_join_def file_stem_def)

lemma fresh_file_store:
  assumes laws: "file_laws E" and d: "fresh_dir dir d" and io: "test_file_io io0" "\<forall>io \<in> Q. test_file_io io"
  obtains d' where "local_file_new E io0 (vault_json dir) d = (Ok (), d')"
    "calm_state (file_inv E (vault_json dir)) (file_abs E (vault_json dir)) (file_quiet (vault_json dir)) Q Map.empty d'"
proof -
  let ?vp = "vault_json dir"
  have none: "d ?vp = None" "\<And>io. test_file_io io \<Longrightarrow> d (temp_path io dir) = None"
    using d by (auto simp: fresh_dir_def vault_json_def test_file_io_def temp_path_def)
  have f: "fault io0 c = None" for c using io(1) by (simp add: test_file_io_def)
  have "fst (write_atomic E io0 ?vp [] d) = Ok ()"
    by (rule write_atomic_quiet [OF file_lawsD(4) [OF laws]]) (use f none io in auto)
  then obtain d' where w: "write_atomic E io0 ?vp [] d = (Ok (), d')" by (metis prod.collapse)
  have new: "local_file_new E io0 ?vp d = (Ok (), d')"
    using w f none by (simp add: local_file_new_def sys_def local_file_new_create_def local_file_new_exists_def)
  have spec: "file_inv E ?vp d' \<and> file_abs E ?vp d' = Map.empty"
    using local_file_new_Ok [OF laws _ _ new] none by simp
  have "file_quiet ?vp io d'" if "io \<in> Q" for io
  proof -
    have calm: "test_file_io io" using io(2) that by simp
    have io: "\<forall>c. fault io c = None" "temp_path io dir \<noteq> ?vp" "temp_path io dir \<noteq> lock_path ?vp"
      unfolding vault_json_paths using io(2) that
      by (auto simp: test_file_io_def temp_path_def vault_json_def path_join_def)
    then have "d' (temp_path io dir) = None"
      using write_atomic_frame [OF file_lawsD(4) [OF laws] io(2), of io0 "[]" d] w none(2) [OF calm] by simp
    with io show ?thesis by (simp add: file_quiet_def)
  qed
  then show thesis
    using that new spec by (simp add: calm_state_def)
qed

lemma make_record_plain:
  "make_record E t0 t1 None =
     Ok \<lparr>encrypted = \<lparr>nonce = replicate 12 0, ciphertext = as_bytes ''hello''\<rparr>, stored_at = t0, expires_at = None\<rparr>"
  by (simp add: make_record_def)

lemma make_record_timed:
  assumes "chrono_arith_laws E" "chrono_near_laws E sub" "test_time E T" "within_test T t1" "\<bar>s\<bar> \<le> 3600"
  shows "make_record E t0 t1 (Some s) =
     Ok \<lparr>encrypted = \<lparr>nonce = replicate 12 0, ciphertext = as_bytes ''hello''\<rparr>, stored_at = t0,
         expires_at = Some (t1 + s * 1000000000)\<rparr>"
proof -
  have "\<bar>s * 1000000000\<bar> \<le> 3600000000000"
    using assms(5) by simp
  then have "plus_seconds E t1 s = (Ok (t1 + s * 1000000000) :: (datetime, unit) result)"
    using assms(3-5) by (intro plus_seconds_exact [OF assms(1,2)]) (auto simp: test_time_def within_test_def)
  then show ?thesis by (simp add: make_record_def)
qed

section \<open>The tests pass\<close>

context calm_backend
begin

lemma round_trip_passes:
  assumes "calm (range io) m s" "length rid = 16" "\<And>r. expires_at r = None \<Longrightarrow> stored_at r = clock 0 \<Longrightarrow> storable r"
  shows "round_trip_steps E B rid clock io s"
  unfolding round_trip_steps_def make_record_plain unwrap.simps
proof (rule calm_insert [OF assms(1,2)])
  fix s1 assume s1: "calm (range io) (m(rid \<mapsto> \<lparr>encrypted = \<lparr>nonce = replicate 12 0, ciphertext = as_bytes ''hello''\<rparr>,
      stored_at = clock 0, expires_at = None\<rparr>)) s1"
  show "unwrap (be_fetch B (io 1) rid s1) (\<lambda>fetched s.
      ciphertext (encrypted fetched) = as_bytes ''hello'' \<and>
      unwrap (be_delete B (io 2) rid s) (\<lambda>_ s. fst (be_fetch B (io 3) rid s) = Err NotFound))"
  proof (rule calm_fetch [OF s1 assms(2)])
    fix s2 assume s2: "calm (range io) (m(rid \<mapsto> \<lparr>encrypted = \<lparr>nonce = replicate 12 0, ciphertext = as_bytes ''hello''\<rparr>,
      stored_at = clock 0, expires_at = None\<rparr>)) s2"
    show "ciphertext (encrypted \<lparr>encrypted = \<lparr>nonce = replicate 12 0, ciphertext = as_bytes ''hello''\<rparr>,
        stored_at = clock 0, expires_at = None\<rparr>) = as_bytes ''hello'' \<and>
      unwrap (be_delete B (io 2) rid s2) (\<lambda>_ s. fst (be_fetch B (io 3) rid s) = Err NotFound)"
      by (simp, rule calm_delete [OF s2 assms(2)]) (auto intro: calm_fetch_missing [OF _ assms(2)])
  qed auto
qed (use assms(3) in auto)

lemma stale_records_pass:
  assumes laws: "chrono_arith_laws E" "chrono_near_laws E sub" and T: "test_time E T" "\<And>n. within_test T (clock n)"
    and s: "calm (range io) Map.empty s" and ids: "length id1 = 16" "length id2 = 16" "id1 \<noteq> id2"
    and st: "\<And>r. \<bar>stored_at r - T\<bar> \<le> 7200000000000 \<Longrightarrow> (\<And>t. expires_at r = Some t \<Longrightarrow> \<bar>t - T\<bar> \<le> 7200000000000) \<Longrightarrow> storable r"
    and clock: "clock_ok (clock 4)"
  shows "stale_records_steps E B id1 id2 clock io s"
proof -
  let ?e = "\<lparr>nonce = replicate 12 0, ciphertext = as_bytes ''hello''\<rparr>"
  let ?r1 = "\<lparr>encrypted = ?e, stored_at = clock 0, expires_at = Some (clock 1 - 1000000000)\<rparr>"
  let ?r2 = "\<lparr>encrypted = ?e, stored_at = clock 2, expires_at = Some (clock 3 + 3600000000000)\<rparr>"
  let ?m = "[id1 \<mapsto> ?r1, id2 \<mapsto> ?r2]"
  have w: "T \<le> clock n \<and> clock n < T + 1000000000" for n using T(2) by (simp add: within_test_def)
  have mk: "make_record E (clock 0) (clock 1) (Some (- 1)) = Ok ?r1" "make_record E (clock 2) (clock 3) (Some 3600) = Ok ?r2"
    using make_record_timed [OF laws T(1) T(2)] by simp_all
  have st1: "storable ?r1" using w [of 0] w [of 1] by (intro st) auto
  have st2: "storable ?r2" using w [of 2] w [of 3] by (intro st) auto
  have due: "due (clock 4) ?r1" "\<not> due (clock 4) ?r2"
    using w [of 1] w [of 3] w [of 4] by (auto simp: due_def)
  then have gone: "purge (clock 4) ?m id1 = None" and left: "purge (clock 4) ?m id2 = Some ?r2"
    using ids(3) by (simp_all add: purge_def)
  have one: "card {rid. \<exists>r. ?m rid = Some r \<and> due (clock 4) r} = 1"
  proof -
    have "{rid. \<exists>r. ?m rid = Some r \<and> due (clock 4) r} = {id1}"
      using due ids(3) by (auto split: if_splits)
    then show ?thesis by simp
  qed
  show ?thesis
    unfolding stale_records_steps_def mk unwrap.simps
  proof (rule calm_insert [OF s ids(1) st1])
    fix s1 assume s1: "calm (range io) [id1 \<mapsto> ?r1] s1"
    show "unwrap (be_insert B (io 1) id2 ?r2 s1) (\<lambda>_ s. unwrap (be_delete_expired B (io 2) (clock 4) s) (\<lambda>removed s.
        removed = 1 \<and> (case be_fetch B (io 3) id1 s of (r, s) \<Rightarrow> r = Err NotFound \<and> is_ok (fst (be_fetch B (io 4) id2 s)))))"
    proof (rule calm_insert [OF s1 ids(2) st2])
      fix s2 assume s2: "calm (range io) ?m s2"
      show "unwrap (be_delete_expired B (io 2) (clock 4) s2) (\<lambda>removed s.
        removed = 1 \<and> (case be_fetch B (io 3) id1 s of (r, s) \<Rightarrow> r = Err NotFound \<and> is_ok (fst (be_fetch B (io 4) id2 s))))"
      proof (rule calm_delete_expired [OF s2 clock], simp, unfold one, intro conjI refl)
        fix s3 assume s3: "calm (range io) (purge (clock 4) ?m) s3"
        obtain s4 where s4: "be_fetch B (io 3) id1 s3 = (Err NotFound, s4)" "calm (range io) (purge (clock 4) ?m) s4"
          using calm_fetch_eq [OF s3 ids(1), of "io 3"] gone by auto
        obtain s5 where "be_fetch B (io 4) id2 s4 = (Ok ?r2, s5)"
          using calm_fetch_eq [OF s4(2) ids(2), of "io 4"] left by auto
        with s4(1) show "case be_fetch B (io 3) id1 s3 of (r, s) \<Rightarrow> r = Err NotFound \<and> is_ok (fst (be_fetch B (io 4) id2 s))"
          by simp
      qed
    qed simp
  qed simp
qed

end

lemma fresh_sqlite_store:
  assumes laws: "chrono_rfc3339_laws E" and io: "\<forall>c. db_fault io0 c = None" "\<forall>io \<in> Q. \<forall>c. db_fault io c = None"
  obtains f where "sqlite_new io0 p None = (Ok (), Some f)"
    "calm_state (sqlite_inv E) (sqlite_abs E) sqlite_quiet Q Map.empty f"
proof -
  have "fst (sqlite_new io0 p None) = Ok ()"
    using io(1) by (simp add: sqlite_new_def db_sys_def Let_def)
  then obtain db' where new: "sqlite_new io0 p None = (Ok (), db')" by (metis prod.collapse)
  from sqlite_new_Ok [OF laws _ new] obtain f where "db' = Some f" "sqlite_inv E f" "sqlite_abs E f = Map.empty"
    by auto
  then show thesis
    using that new io(2) by (simp add: calm_state_def sqlite_quiet_def)
qed

lemma file_tests_pass:
  assumes laws: "file_laws E" "chrono_arith_laws E" "chrono_near_laws E sub"
    and T: "test_time E T" "\<And>n. within_test T (clock n)"
    and d: "fresh_dir dir d" "test_file_io io0" "\<And>n. test_file_io (io n)"
    and ids: "length id1 = 16" "length id2 = 16" "id1 \<noteq> id2"
  shows "file_insert_fetch_delete_round_trip E dir io0 id1 clock io d"
    and "file_delete_expired_removes_stale_records E dir io0 id1 id2 clock io d"
proof -
  obtain d' where d': "local_file_new E io0 (vault_json dir) d = (Ok (), d')"
    "calm_state (file_inv E (vault_json dir)) (file_abs E (vault_json dir)) (file_quiet (vault_json dir)) (range io) Map.empty d'"
    using fresh_file_store [OF laws(1) d(1,2), of "range io"] d(3) by blast
  show "file_insert_fetch_delete_round_trip E dir io0 id1 clock io d"
    using file_calm.round_trip_passes [OF d'(2) ids(1)] d'(1)
    by (simp add: file_insert_fetch_delete_round_trip_def file_store_in_def)
  show "file_delete_expired_removes_stale_records E dir io0 id1 id2 clock io d"
    using file_calm.stale_records_pass [OF laws(2,3) T d'(2) ids] d'(1)
    by (simp add: file_delete_expired_removes_stale_records_def file_store_in_def)
qed

lemma test_records_storable:
  assumes "test_time E T" "\<bar>stored_at r - T\<bar> \<le> 7200000000000" "\<And>t. expires_at r = Some t \<Longrightarrow> \<bar>t - T\<bar> \<le> 7200000000000"
  shows "rfc3339_record r"
proof -
  have "rfc3339_range t" if "\<bar>t - T\<bar> \<le> 7200000000000" for t
    using assms(1) that by (auto simp: test_time_def rfc3339_range_def)
  then show ?thesis
    using assms(2,3) by (auto simp: rfc3339_record_def split: option.splits)
qed

lemma sqlite_tests_pass:
  assumes laws: "chrono_rfc3339_laws E" "chrono_arith_laws E" "chrono_near_laws E sub"
    and T: "test_time E T" "\<And>n. within_test T (clock n)"
    and io: "\<forall>c. db_fault io0 c = None" "\<And>n. \<forall>c. db_fault (io n) c = None"
    and ids: "length id1 = 16" "length id2 = 16" "id1 \<noteq> id2"
  shows "sqlite_insert_fetch_delete_round_trip E dir io0 id1 clock io"
    and "sqlite_delete_expired_removes_stale_records E dir io0 id1 id2 clock io"
    and "sqlite_delete_is_idempotent E dir io0 id1 (io 0)"
proof -
  obtain f where f: "sqlite_new io0 (path_join dir ''vault.db'') None = (Ok (), Some f)"
    "calm_state (sqlite_inv E) (sqlite_abs E) sqlite_quiet (range io) Map.empty f"
    by (rule fresh_sqlite_store [OF laws(1) io(1), of "range io" "path_join dir ''vault.db''"]) (use io(2) in auto)
  have w: "\<bar>clock n - T\<bar> \<le> 7200000000000" "rfc3339_range (clock n)" for n
    using T(1) T(2) [of n] by (auto simp: within_test_def test_time_def rfc3339_range_def)
  have plain: "rfc3339_record r" if "expires_at r = None" "stored_at r = clock 0" for r
    using test_records_storable [OF T(1), of r] that w(1) [of 0] by simp
  show "sqlite_insert_fetch_delete_round_trip E dir io0 id1 clock io"
    using sqlite_calm.round_trip_passes [OF f(2) ids(1) plain] f(1)
    by (simp add: sqlite_insert_fetch_delete_round_trip_def sqlite_store_in_def)
  show "sqlite_delete_expired_removes_stale_records E dir io0 id1 id2 clock io"
    unfolding sqlite_delete_expired_removes_stale_records_def sqlite_store_in_def f(1) unwrap.simps option.case
    by (rule sqlite_calm.stale_records_pass [OF laws(2,3) T(1) _ f(2) ids _ w(2)])
      (use T(2) test_records_storable [OF T(1)] in auto)
  have "is_ok (fst (sqlite_delete (io 0) id1 f))"
    using f(2) by (intro sqlite_quiet_ops(3)) (auto simp: calm_state_def)
  then show "sqlite_delete_is_idempotent E dir io0 id1 (io 0)"
    using f(1) by (simp add: sqlite_delete_is_idempotent_def sqlite_store_in_def)
qed

end
