(* ===== verification/Vault_Tests.thy ===== *)
theory Vault_Tests
  imports Storage_Tests Cleanup_Task
begin

text \<open>
  The unit tests of \<^verbatim>\<open>src/vault/proof_vault.rs\<close> and
  \<^verbatim>\<open>src/vault/cleanup.rs\<close>. Each test runs on the vault that
  \<open>vault_in\<close> opens in a fresh directory; \<open>env n\<close> is the environment of
  its n-th vault call.
\<close>

section \<open>The tests of the vault\<close>

definition vault_in :: "ext \<Rightarrow> file_io \<Rightarrow> path \<Rightarrow> fs \<Rightarrow> (fs vault \<Rightarrow> bool) \<Rightarrow> bool" where
  "vault_in E io dir d test = file_store_in E io dir d (\<lambda>store. test (vault_new store))"

definition store_and_retrieve_json_proof ::
  "ext \<Rightarrow> ('s, 'io) storage_backend \<Rightarrow> (nat \<Rightarrow> 'io call_env) \<Rightarrow> 's vault \<Rightarrow> bool" where
  "store_and_retrieve_json_proof E B env vault =
     (let proof_value = JObject [(''path'', JArray [JNumber (PosInt 1), JNumber (PosInt 2), JNumber (PosInt 3)]),
                                 (''root'', JString ''abc123'')] in
      unwrap (proof_from_json E proof_value, vault) (\<lambda>p vault.
      unwrap (store_proof E B (env 0) p None vault) (\<lambda>claim_id vault.
      length claim_id = 64 \<and>
      unwrap (retrieve_proof E B (env 1) claim_id vault) (\<lambda>retrieved vault.
      unwrap (proof_into_json E retrieved, vault) (\<lambda>retrieved_json _.
      retrieved_json = proof_value)))))"

definition single_use_enforced ::
  "ext \<Rightarrow> ('s, 'io) storage_backend \<Rightarrow> (nat \<Rightarrow> 'io call_env) \<Rightarrow> 's vault \<Rightarrow> bool" where
  "single_use_enforced E B env vault =
     unwrap (store_proof E B (env 0) (proof_from_bytes (as_bytes ''secret'')) None vault) (\<lambda>claim_id vault.
     unwrap (retrieve_proof E B (env 1) claim_id vault) (\<lambda>_ vault.
     unwrap_err (retrieve_proof E B (env 2) claim_id vault) (\<lambda>err _. err = ProofNotFound)))"

definition store_proof_with_zero_ttl_returns_invalid_parameter ::
  "ext \<Rightarrow> ('s, 'io) storage_backend \<Rightarrow> (nat \<Rightarrow> 'io call_env) \<Rightarrow> 's vault \<Rightarrow> bool" where
  "store_proof_with_zero_ttl_returns_invalid_parameter E B env vault =
     unwrap_err (store_proof E B (env 0) (proof_from_bytes (as_bytes ''expires'')) (Some 0) vault) (\<lambda>err _.
     case err of InvalidParameter _ \<Rightarrow> True | _ \<Rightarrow> False)"

text \<open>The record is overwritten with an expiry in the past, through the storage directly.\<close>

definition expired_proof_returns_error ::
  "ext \<Rightarrow> (datetime \<Rightarrow> timedelta \<Rightarrow> datetime option) \<Rightarrow> ('s, 'io) storage_backend \<Rightarrow> (nat \<Rightarrow> 'io call_env) \<Rightarrow>
     (nat \<Rightarrow> 'io) \<Rightarrow> datetime \<Rightarrow> 's vault \<Rightarrow> bool" where
  "expired_proof_returns_error E sub B env io now vault =
     unwrap (store_proof E B (env 0) (proof_from_bytes (as_bytes ''expires'')) (Some 3600) vault) (\<lambda>claim_id vault.
     unwrap (claim_id_decode E claim_id, vault) (\<lambda>decoded vault.
     unwrap (on_storage (be_fetch B (io 0) (record_id decoded)) vault) (\<lambda>record vault.
     unwrap (minus_seconds E sub now 1 :: (datetime, unit) result, vault) (\<lambda>past vault.
     unwrap (on_storage (be_insert B (io 1) (record_id decoded) (record\<lparr>expires_at := Some past\<rparr>)) vault) (\<lambda>_ vault.
     unwrap_err (retrieve_proof E B (env 1) claim_id vault) (\<lambda>err _.
     err = ProofExpired \<or> err = ProofNotFound))))))"

definition delete_proof_removes_it ::
  "ext \<Rightarrow> ('s, 'io) storage_backend \<Rightarrow> (nat \<Rightarrow> 'io call_env) \<Rightarrow> 's vault \<Rightarrow> bool" where
  "delete_proof_removes_it E B env vault =
     unwrap (store_proof E B (env 0) (proof_from_bytes (as_bytes ''abort-me'')) None vault) (\<lambda>claim_id vault.
     unwrap (delete_proof E B (env 1) claim_id vault) (\<lambda>_ vault.
     unwrap_err (retrieve_proof E B (env 2) claim_id vault) (\<lambda>err _. err = ProofNotFound)))"

definition delete_proof_returns_not_found_when_already_consumed ::
  "ext \<Rightarrow> ('s, 'io) storage_backend \<Rightarrow> (nat \<Rightarrow> 'io call_env) \<Rightarrow> 's vault \<Rightarrow> bool" where
  "delete_proof_returns_not_found_when_already_consumed E B env vault =
     unwrap (store_proof E B (env 0) (proof_from_bytes (as_bytes ''consume-then-delete'')) None vault) (\<lambda>claim_id vault.
     unwrap (retrieve_proof E B (env 1) claim_id vault) (\<lambda>_ vault.
     unwrap_err (delete_proof E B (env 2) claim_id vault) (\<lambda>err _. err = ProofNotFound)))"

definition wrong_claim_id_fails_decryption ::
  "ext \<Rightarrow> ('s, 'io) storage_backend \<Rightarrow> (nat \<Rightarrow> 'io call_env) \<Rightarrow> 's vault \<Rightarrow> bool" where
  "wrong_claim_id_fails_decryption E B env vault =
     unwrap (store_proof E B (env 0) (proof_from_bytes (as_bytes ''secret'')) None vault) (\<lambda>claim_id vault.
     30 < length claim_id \<and>
     (let tampered = claim_id[30 := if claim_id ! 30 = CHR ''A'' then CHR ''B'' else CHR ''A''] in
      is_err (fst (retrieve_proof E B (env 1) tampered vault))))"

section \<open>The tests of the cleanup task\<close>

definition insert_expired_record ::
  "ext \<Rightarrow> (datetime \<Rightarrow> timedelta \<Rightarrow> datetime option) \<Rightarrow> ('s, 'io) storage_backend \<Rightarrow> 'io \<Rightarrow> datetime \<Rightarrow>
     's vault \<Rightarrow> ('s vault \<Rightarrow> bool) \<Rightarrow> bool" where
  "insert_expired_record E sub B io now vault test =
     unwrap (minus_seconds E sub now 1 :: (datetime, unit) result, vault) (\<lambda>past vault.
     let record = \<lparr>encrypted = \<lparr>nonce = replicate 12 0, ciphertext = replicate 16 0\<rparr>, stored_at = past, expires_at = Some past\<rparr> in
     unwrap (on_storage (be_insert B io (replicate 16 1) record) vault) (\<lambda>_ vault. test vault))"

definition cleanup_removes_expired_proofs ::
  "ext \<Rightarrow> (datetime \<Rightarrow> timedelta \<Rightarrow> datetime option) \<Rightarrow> ('s, 'io) storage_backend \<Rightarrow> (nat \<Rightarrow> 'io call_env) \<Rightarrow>
     'io \<Rightarrow> datetime \<Rightarrow> 's vault \<Rightarrow> bool" where
  "cleanup_removes_expired_proofs E sub B env io now vault =
     insert_expired_record E sub B io now vault (\<lambda>vault.
     unwrap (store_proof E B (env 0) (proof_from_bytes (as_bytes ''new'')) (Some 3600) vault) (\<lambda>valid vault.
     unwrap (cleanup B (env 1) vault) (\<lambda>removed vault.
     removed = 1 \<and> is_ok (fst (retrieve_proof E B (env 2) valid vault)))))"

text \<open>
  \<open>ticks\<close> are the sweeps that happen while the test sleeps; \<open>stopped\<close> returns
  when the task, woken by the cancellation, has ended.
\<close>

definition spawn_cleanup_task_runs_and_cancels ::
  "ext \<Rightarrow> (datetime \<Rightarrow> timedelta \<Rightarrow> datetime option) \<Rightarrow> ('s, 'io) storage_backend \<Rightarrow> 'io call_env list \<Rightarrow> 'io call_env \<Rightarrow>
     'io \<Rightarrow> datetime \<Rightarrow> 's vault \<Rightarrow> bool" where
  "spawn_cleanup_task_runs_and_cancels E sub B ticks env io now vault =
     insert_expired_record E sub B io now vault (\<lambda>vault.
     let PV = arc_vault (standard_vault E B);
         w = spawn_cleanup_task 50000000 False vault [];
         w = cleanup_events PV (map (\<lambda>e. Wake (Some e)) ticks) w;
         w = cleanup_stop w;
         w = cleanup_wake PV None w in
     cleanup_stopped w \<and> unwrap (pv_cleanup PV env (cw_vault w)) (\<lambda>removed _. removed = 0))"

definition parent_cancel_stops_the_task ::
  "ext \<Rightarrow> ('s, 'io) storage_backend \<Rightarrow> 's vault \<Rightarrow> bool" where
  "parent_cancel_stops_the_task E B vault =
     (let PV = arc_vault (standard_vault E B);
          w = spawn_cleanup_task 60000000000 False vault [];
          w = parent_cancel w;
          w = cleanup_wake PV None w in
      cleanup_stopped w)"

section \<open>What the tests meet\<close>

definition test_env :: "datetime \<Rightarrow> file_io call_env \<Rightarrow> bool" where
  "test_env T env \<longleftrightarrow> env_ok env \<and> within_test T (now_expiry env) \<and> within_test T (now_stored env) \<and>
     within_test T (now_check env) \<and> test_file_io (io_first env) \<and> test_file_io (io_second env)"

abbreviation claim_of :: "'io call_env \<Rightarrow> claim_id" where
  "claim_of env \<equiv> claim_id_new (new_uuid env) (gen_key env)"

text \<open>The vault of a test stands for the store \<open>m\<close>, and none of the calls to come fails.\<close>

abbreviation calm_vault :: "ext \<Rightarrow> path \<Rightarrow> store \<Rightarrow> fs vault \<Rightarrow> bool" where
  "calm_vault E dir m v \<equiv> calm_state (file_inv E (vault_json dir)) (file_abs E (vault_json dir)) (file_quiet (vault_json dir))
     {io. test_file_io io} m (storage v)"

definition test_laws :: "ext \<Rightarrow> (datetime \<Rightarrow> timedelta \<Rightarrow> datetime option) \<Rightarrow> bool" where
  "test_laws E sub \<longleftrightarrow> file_laws E \<and> base64_url_laws E \<and> aead_laws E \<and> chrono_arith_laws E \<and> chrono_near_laws E sub"

lemma vault_in_calm_iff:
  assumes "test_laws E sub" "fresh_dir dir d" "test_file_io io0" "\<And>v. calm_vault E dir Map.empty v \<Longrightarrow> test v \<longleftrightarrow> P"
  shows "vault_in E io0 dir d test \<longleftrightarrow> P"
proof -
  have laws: "file_laws E" using assms(1) by (simp add: test_laws_def)
  obtain d' where "local_file_new E io0 (vault_json dir) d = (Ok (), d')" "calm_vault E dir Map.empty (vault_new d')"
    by (rule fresh_file_store [OF laws assms(2,3), of "{io. test_file_io io}"]) (auto simp: vault_new_def)
  then show ?thesis
    using assms(4) by (simp add: vault_in_def file_store_in_def)
qed

lemma vault_in_calm:
  assumes "test_laws E sub" "fresh_dir dir d" "test_file_io io0" "\<And>v. calm_vault E dir Map.empty v \<Longrightarrow> test v"
  shows "vault_in E io0 dir d test"
  using vault_in_calm_iff [OF assms(1-3), of test True] assms(4) by blast

lemma claim_of_decodes:
  "\<lbrakk>test_laws E sub; test_env T env\<rbrakk> \<Longrightarrow> claim_id_decode E (claim_id_encode E (claim_of env)) = Ok (claim_of env)"
  by (rule decode_encode) (auto simp: test_laws_def test_env_def env_ok_def)

lemma expiry_in_an_hour:
  assumes "test_laws E sub" "test_time E T" "test_env T env"
  shows "expiry_at E (now_expiry env) 3600 = Ok (now_expiry env + 3600000000000)"
  using assms by (simp add: test_laws_def chrono_arith_laws_def max_duration_seconds_def expiry_at_def
      test_time_def test_env_def within_test_def)

lemma test_store:
  assumes laws: "test_laws E sub" and T: "test_time E T" and env: "test_env T env" and v: "calm_vault E dir m v"
    and len: "length bs \<le> 2 ^ 36" and ttl: "ttl = None \<or> ttl = Some 3600"
  obtains ct ex v' where "store_proof E (local_file_backend E (vault_json dir)) env (proof_from_bytes bs) ttl v = (Ok (claim_id_encode E (claim_of env)), v')"
    "calm_vault E dir (m(new_uuid env \<mapsto> issued_record env ct ex)) v'"
    "ex = map_option (\<lambda>_. now_expiry env + 3600000000000) ttl"
    "aes_gcm_encrypt E (gen_key env) (gen_nonce env) bs = Some ct"
    "\<forall>x. open_record E (claim_of env) (issued_record env ct x) = Some bs"
proof -
  have e: "length (gen_key env) = 32" "length (gen_nonce env) = 12" using env by (auto simp: test_env_def env_ok_def)
  obtain ct where ct: "aes_gcm_encrypt E (gen_key env) (gen_nonce env) bs = Some ct"
    "aes_gcm_decrypt E (gen_key env) (gen_nonce env) ct = Some bs"
    by (rule aead_encrypts [OF _ e len]) (use laws in \<open>auto simp: test_laws_def\<close>)
  let ?ex = "map_option (\<lambda>_. now_expiry env + 3600000000000) ttl"
  have "transpose_res (map_option (expiry_at E (now_expiry env)) ttl) = Ok ?ex"
    using ttl expiry_in_an_hour [OF laws T env] by auto
  then have "spec_store E env (proof_from_bytes bs) ttl m =
      (Ok (claim_id_encode E (claim_of env)), m(new_uuid env \<mapsto> issued_record env ct ?ex))"
    using ct ttl by (auto simp: spec_store_def proof_from_bytes_def)
  then obtain v' where "store_proof E (local_file_backend E (vault_json dir)) env (proof_from_bytes bs) ttl v = (Ok (claim_id_encode E (claim_of env)), v')"
    "calm_vault E dir (m(new_uuid env \<mapsto> issued_record env ct ?ex)) v'"
    by (rule file_calm.calm_store [OF v, rotated 3]) (use env in \<open>auto simp: store_ok_def test_env_def\<close>)
  then show thesis
    using that ct e by (simp add: open_record_def issued_record_def claim_id_new_def)
qed

lemma test_retrieve:
  assumes env: "test_env T env" and v: "calm_vault E dir m v"
    and "spec_retrieve E (now_check env) tok m = (r, m')"
  obtains v' where "retrieve_proof E (local_file_backend E (vault_json dir)) env tok v = (r, v')" "calm_vault E dir m' v'"
  by (rule file_calm.calm_retrieve [OF v _ _ assms(3)]) (use env in \<open>auto simp: test_env_def\<close>)

lemma test_delete:
  assumes env: "test_env T env" and v: "calm_vault E dir m v"
    and "spec_delete E (now_check env) tok m = (r, m')"
  obtains v' where "delete_proof E (local_file_backend E (vault_json dir)) env tok v = (r, v')" "calm_vault E dir m' v'"
  by (rule file_calm.calm_remove [OF v _ _ assms(3)]) (use env in \<open>auto simp: test_env_def\<close>)

text \<open>A freshly issued claim: its retrieval and deletion, and both once the record is gone.\<close>

lemma issued_spec:
  assumes laws: "test_laws E sub" and env: "test_env T env" and env': "test_env T env'"
    and r: "m (new_uuid env) = Some (issued_record env ct ex)" "ex = None \<or> ex = Some (now_expiry env + 3600000000000)"
    and o: "open_record E (claim_of env) (issued_record env ct ex) = Some pt"
  shows "spec_retrieve E (now_check env') (claim_id_encode E (claim_of env)) m = (Ok (proof_from_bytes pt), m(new_uuid env := None))"
    and "spec_delete E (now_check env') (claim_id_encode E (claim_of env)) m = (Ok (), m(new_uuid env := None))"
proof -
  have "\<not> is_expired (now_check env') (issued_record env ct ex)"
    using r(2) env env' by (auto simp: is_expired_def issued_record_def test_env_def within_test_def)
  then show "spec_retrieve E (now_check env') (claim_id_encode E (claim_of env)) m = (Ok (proof_from_bytes pt), m(new_uuid env := None))"
    "spec_delete E (now_check env') (claim_id_encode E (claim_of env)) m = (Ok (), m(new_uuid env := None))"
    using r(1) o claim_of_decodes [OF laws env]
    by (simp_all add: spec_retrieve_def spec_delete_def claim_id_new_def)
qed

lemma gone_spec:
  assumes "test_laws E sub" "test_env T env" "m (new_uuid env) = None"
  shows "spec_retrieve E now (claim_id_encode E (claim_of env)) m = (Err ProofNotFound, m)"
    and "spec_delete E now (claim_id_encode E (claim_of env)) m = (Err ProofNotFound, m)"
  using assms(3) claim_of_decodes [OF assms(1,2)]
  by (simp_all add: spec_retrieve_def spec_delete_def claim_id_new_def)

text \<open>The record \<open>r\<close> of the claim issued in \<open>env\<close> can still be claimed while the test runs.\<close>

definition live :: "ext \<Rightarrow> datetime \<Rightarrow> file_io call_env \<Rightarrow> bytes \<Rightarrow> stored_record \<Rightarrow> bool" where
  "live E T env bs r \<longleftrightarrow> (\<forall>env' m. test_env T env' \<and> m (new_uuid env) = Some r \<longrightarrow>
     spec_retrieve E (now_check env') (claim_id_encode E (claim_of env)) m = (Ok (proof_from_bytes bs), m(new_uuid env := None)) \<and>
     spec_delete E (now_check env') (claim_id_encode E (claim_of env)) m = (Ok (), m(new_uuid env := None)))"

lemma issue:
  assumes laws: "test_laws E sub" and T: "test_time E T" and env: "test_env T env" and v: "calm_vault E dir m v"
    and len: "length bs \<le> 2 ^ 36" and ttl: "ttl = None \<or> ttl = Some 3600"
  obtains ct ex v' where
    "store_proof E (local_file_backend E (vault_json dir)) env (proof_from_bytes bs) ttl v = (Ok (claim_id_encode E (claim_of env)), v')"
    "calm_vault E dir (m(new_uuid env \<mapsto> issued_record env ct ex)) v'" "live E T env bs (issued_record env ct ex)"
    "aes_gcm_encrypt E (gen_key env) (gen_nonce env) bs = Some ct" "ex = map_option (\<lambda>_. now_expiry env + 3600000000000) ttl"
proof -
  obtain ct ex v' where
    s: "store_proof E (local_file_backend E (vault_json dir)) env (proof_from_bytes bs) ttl v = (Ok (claim_id_encode E (claim_of env)), v')"
      "calm_vault E dir (m(new_uuid env \<mapsto> issued_record env ct ex)) v'"
    and ex: "ex = map_option (\<lambda>_. now_expiry env + 3600000000000) ttl"
    and ct: "aes_gcm_encrypt E (gen_key env) (gen_nonce env) bs = Some ct"
    and o: "\<forall>x. open_record E (claim_of env) (issued_record env ct x) = Some bs"
    by (rule test_store [OF laws T env v len ttl])
  have ex': "ex = None \<or> ex = Some (now_expiry env + 3600000000000)" using ex ttl by auto
  have "live E T env bs (issued_record env ct ex)"
    using issued_spec [OF laws env _ _ ex' o [rule_format]] by (simp add: live_def)
  then show thesis using that s ct ex by blast
qed

lemma live_retrieve:
  assumes "live E T env bs r" "test_env T env'" "calm_vault E dir m v" "m (new_uuid env) = Some r"
  obtains v' where
    "retrieve_proof E (local_file_backend E (vault_json dir)) env' (claim_id_encode E (claim_of env)) v = (Ok (proof_from_bytes bs), v')"
    "calm_vault E dir (m(new_uuid env := None)) v'"
  by (rule test_retrieve [OF assms(2,3)]) (use assms in \<open>auto simp: live_def\<close>)

lemma live_delete:
  assumes "live E T env bs r" "test_env T env'" "calm_vault E dir m v" "m (new_uuid env) = Some r"
  obtains v' where
    "delete_proof E (local_file_backend E (vault_json dir)) env' (claim_id_encode E (claim_of env)) v = (Ok (), v')"
    "calm_vault E dir (m(new_uuid env := None)) v'"
  by (rule test_delete [OF assms(2,3)]) (use assms in \<open>auto simp: live_def\<close>)

lemma gone_claim:
  assumes "test_laws E sub" "test_env T env" "test_env T env'" "calm_vault E dir m v" "m (new_uuid env) = None"
  shows "fst (retrieve_proof E (local_file_backend E (vault_json dir)) env' (claim_id_encode E (claim_of env)) v) = Err ProofNotFound"
    and "fst (delete_proof E (local_file_backend E (vault_json dir)) env' (claim_id_encode E (claim_of env)) v) = Err ProofNotFound"
  using test_retrieve [OF assms(3,4) gone_spec(1) [OF assms(1,2), of m, OF assms(5)]]
    test_delete [OF assms(3,4) gone_spec(2) [OF assms(1,2), of m, OF assms(5)]]
  by (metis fst_conv)+

lemma unwrap_err_fst: "fst p = Err e \<Longrightarrow> unwrap_err p (\<lambda>err _. Q err) \<longleftrightarrow> Q e"
  by (cases p) simp

section \<open>The tests of the vault pass\<close>

lemma json_proof_passes:
  assumes laws: "test_laws E sub" and T: "test_time E T" and env: "\<And>n. test_env T (env n)"
    and v: "calm_vault E dir Map.empty v"
    and len: "length (serde_to_string E (JObject [(''path'', JArray [JNumber (PosInt 1), JNumber (PosInt 2), JNumber (PosInt 3)]),
      (''root'', JString ''abc123'')])) \<le> 2 ^ 36"
  shows "store_and_retrieve_json_proof E (local_file_backend E (vault_json dir)) env v"
proof -
  let ?j = "JObject [(''path'', JArray [JNumber (PosInt 1), JNumber (PosInt 2), JNumber (PosInt 3)]), (''root'', JString ''abc123'')]"
  let ?bs = "as_bytes (serde_to_string E ?j)"
  have serde: "serde_json_laws E" using laws by (auto simp: test_laws_def intro: file_lawsD)
  have "json_exact ?j" "is_value ?j" by code_simp+
  then have into: "proof_into_json E (proof_from_bytes ?bs) = Ok ?j"
    using serde by (simp add: proof_into_json_def proof_from_bytes_def serde_json_laws_def value_from_slice_def is_value_def)
  have tok: "length (claim_id_encode E (claim_of (env 0))) = 64"
    using laws env [of 0] by (intro encode_length) (auto simp: test_laws_def test_env_def env_ok_def)
  obtain ct ex v1 where s: "store_proof E (local_file_backend E (vault_json dir)) (env 0) (proof_from_bytes ?bs) None v =
      (Ok (claim_id_encode E (claim_of (env 0))), v1)" "calm_vault E dir [new_uuid (env 0) \<mapsto> issued_record (env 0) ct ex] v1"
    "live E T (env 0) ?bs (issued_record (env 0) ct ex)"
    by (rule issue [OF laws T env [of 0] v, of ?bs None]) (use len in auto)
  obtain v2 where "retrieve_proof E (local_file_backend E (vault_json dir)) (env 1) (claim_id_encode E (claim_of (env 0))) v1 =
      (Ok (proof_from_bytes ?bs), v2)"
    by (rule live_retrieve [OF s(3) env [of 1] s(2)]) auto
  then show ?thesis
    using s(1) tok into proof_from_json_Ok [OF serde, of ?j] by (simp add: store_and_retrieve_json_proof_def Let_def)
qed

lemma consumed_once_passes:
  assumes laws: "test_laws E sub" and T: "test_time E T" and env: "\<And>n. test_env T (env n)"
    and v: "calm_vault E dir Map.empty v"
  shows "single_use_enforced E (local_file_backend E (vault_json dir)) env v"
    and "delete_proof_removes_it E (local_file_backend E (vault_json dir)) env v"
    and "delete_proof_returns_not_found_when_already_consumed E (local_file_backend E (vault_json dir)) env v"
proof -
  let ?B = "local_file_backend E (vault_json dir)" and ?tok = "claim_id_encode E (claim_of (env 0))"
  have retrieved: "\<exists>v1 v2. store_proof E ?B (env 0) (proof_from_bytes bs) None v = (Ok ?tok, v1) \<and>
      retrieve_proof E ?B (env 1) ?tok v1 = (Ok (proof_from_bytes bs), v2) \<and> calm_vault E dir Map.empty v2"
    and deleted: "\<exists>v1 v2. store_proof E ?B (env 0) (proof_from_bytes bs) None v = (Ok ?tok, v1) \<and>
      delete_proof E ?B (env 1) ?tok v1 = (Ok (), v2) \<and> calm_vault E dir Map.empty v2"
    if bs: "length bs \<le> 2 ^ 36" for bs
  proof -
    obtain ct ex v1 where s: "store_proof E ?B (env 0) (proof_from_bytes bs) None v = (Ok ?tok, v1)"
      "calm_vault E dir [new_uuid (env 0) \<mapsto> issued_record (env 0) ct ex] v1" "live E T (env 0) bs (issued_record (env 0) ct ex)"
      by (rule issue [OF laws T env [of 0] v bs, of None]) auto
    show "\<exists>v1 v2. store_proof E ?B (env 0) (proof_from_bytes bs) None v = (Ok ?tok, v1) \<and>
      retrieve_proof E ?B (env 1) ?tok v1 = (Ok (proof_from_bytes bs), v2) \<and> calm_vault E dir Map.empty v2"
      by (rule live_retrieve [OF s(3) env [of 1] s(2)]) (use s(1) in auto)
    show "\<exists>v1 v2. store_proof E ?B (env 0) (proof_from_bytes bs) None v = (Ok ?tok, v1) \<and>
      delete_proof E ?B (env 1) ?tok v1 = (Ok (), v2) \<and> calm_vault E dir Map.empty v2"
      by (rule live_delete [OF s(3) env [of 1] s(2)]) (use s(1) in auto)
  qed
  note gone = gone_claim [OF laws env [of 0] env [of 2], THEN unwrap_err_fst]
  show "single_use_enforced E ?B env v"
    using retrieved [of "as_bytes ''secret''"] gone(1) by (auto simp: single_use_enforced_def)
  show "delete_proof_removes_it E ?B env v"
    using deleted [of "as_bytes ''abort-me''"] gone(1) by (auto simp: delete_proof_removes_it_def)
  show "delete_proof_returns_not_found_when_already_consumed E ?B env v"
    using retrieved [of "as_bytes ''consume-then-delete''"] gone(2)
    by (auto simp: delete_proof_returns_not_found_when_already_consumed_def)
qed

lemma zero_ttl_passes: "store_proof_with_zero_ttl_returns_invalid_parameter E B env v"
  by (simp add: store_proof_with_zero_ttl_returns_invalid_parameter_def store_proof_def)

lemma test_insert:
  assumes "calm_vault E dir m v" "length rid = 16" "test_file_io io"
  obtains v' where "on_storage (be_insert (local_file_backend E (vault_json dir)) io rid r) v = (Ok (), v')"
    "calm_vault E dir (m(rid \<mapsto> r)) v'"
proof -
  obtain s' where "be_insert (local_file_backend E (vault_json dir)) io rid r (storage v) = (Ok (), s')"
    "calm_vault E dir (m(rid \<mapsto> r)) (v\<lparr>storage := s'\<rparr>)"
    by (rule file_calm.calm_insert_eq [OF assms(1,2), where r = r and io = io]) (use assms(3) in auto)
  then show thesis using that by simp
qed

lemma test_fetch:
  assumes "calm_vault E dir m v" "length rid = 16" "test_file_io io" "m rid = Some r"
  obtains v' where "on_storage (be_fetch (local_file_backend E (vault_json dir)) io rid) v = (Ok r, v')" "calm_vault E dir m v'"
proof -
  obtain s' where "be_fetch (local_file_backend E (vault_json dir)) io rid (storage v) = (Ok r, s')"
    "calm_vault E dir m (v\<lparr>storage := s'\<rparr>)"
    by (rule file_calm.calm_fetch_eq [OF assms(1,2), of io]) (use assms(3,4) in auto)
  then show thesis using that by simp
qed

lemma one_second_ago:
  assumes "test_laws E sub" "test_time E T" "within_test T now"
  shows "minus_seconds E sub now 1 = (Ok (now - 1000000000) :: (datetime, unit) result)"
  using minus_seconds_exact [of E sub 1 now] assms by (simp add: test_laws_def test_time_def within_test_def)

lemma expired_proof_passes:
  assumes laws: "test_laws E sub" and T: "test_time E T" and env: "\<And>n. test_env T (env n)"
    and io: "\<And>n. test_file_io (io n)" and now: "within_test T now" and v: "calm_vault E dir Map.empty v"
  shows "expired_proof_returns_error E sub (local_file_backend E (vault_json dir)) env io now v"
proof -
  let ?B = "local_file_backend E (vault_json dir)" and ?tok = "claim_id_encode E (claim_of (env 0))" and ?rid = "new_uuid (env 0)"
  obtain ct ex v1 where s: "store_proof E ?B (env 0) (proof_from_bytes (as_bytes ''expires'')) (Some 3600) v = (Ok ?tok, v1)"
    "calm_vault E dir [?rid \<mapsto> issued_record (env 0) ct ex] v1"
    by (rule issue [OF laws T env [of 0] v, of "as_bytes ''expires''" "Some 3600"]) auto
  have dec: "claim_id_decode E ?tok = Ok (claim_of (env 0))" "record_id (claim_of (env 0)) = ?rid" "length ?rid = 16"
    using claim_of_decodes [OF laws env] env [of 0] by (simp_all add: claim_id_new_def test_env_def env_ok_def)
  obtain v2 where v2: "on_storage (be_fetch ?B (io 0) ?rid) v1 = (Ok (issued_record (env 0) ct ex), v2)"
    "calm_vault E dir [?rid \<mapsto> issued_record (env 0) ct ex] v2"
    by (rule test_fetch [OF s(2) dec(3) io]) auto
  let ?r = "(issued_record (env 0) ct ex)\<lparr>expires_at := Some (now - 1000000000)\<rparr>"
  obtain v3 where v3: "on_storage (be_insert ?B (io 1) ?rid ?r) v2 = (Ok (), v3)" "calm_vault E dir [?rid \<mapsto> ?r] v3"
    by (rule test_insert [OF v2(2) dec(3) io, where r = ?r]) auto
  have "is_expired (now_check (env 1)) ?r"
    using now env [of 1] by (simp add: is_expired_def test_env_def within_test_def)
  then have "spec_retrieve E (now_check (env 1)) ?tok [?rid \<mapsto> ?r] = (Err ProofExpired, [?rid \<mapsto> ?r](?rid := None))"
    using dec by (simp add: spec_retrieve_def)
  then obtain v4 where "retrieve_proof E ?B (env 1) ?tok v3 = (Err ProofExpired, v4)"
    by (rule test_retrieve [OF env v3(2)])
  then show ?thesis
    using s(1) v2(1) v3(1) dec one_second_ago [OF laws T now] by (simp add: expired_proof_returns_error_def)
qed

text \<open>
  The one thing the test with a tampered claim asks of the cipher: the key that the
  tampered token decodes to, if it decodes at all and still names the record, does not
  open the ciphertext the test has just made.
\<close>

definition tampered :: "string \<Rightarrow> string" where
  "tampered tok = tok[30 := if tok ! 30 = CHR ''A'' then CHR ''B'' else CHR ''A'']"

definition tampered_rejected :: "ext \<Rightarrow> 'io call_env \<Rightarrow> bool" where
  "tampered_rejected E env =
     (case claim_id_decode E (tampered (claim_id_encode E (claim_of env))) of
        Ok c \<Rightarrow> record_id c = new_uuid env \<longrightarrow>
          Option.bind (aes_gcm_encrypt E (gen_key env) (gen_nonce env) (as_bytes ''secret''))
            (aes_gcm_decrypt E (encryption_key c) (gen_nonce env)) = None
      | _ \<Rightarrow> True)"

lemma wrong_claim_iff:
  assumes laws: "test_laws E sub" and T: "test_time E T" and env: "\<And>n. test_env T (env n)"
    and v: "calm_vault E dir Map.empty v"
  shows "wrong_claim_id_fails_decryption E (local_file_backend E (vault_json dir)) env v \<longleftrightarrow> tampered_rejected E (env 0)"
proof -
  let ?B = "local_file_backend E (vault_json dir)" and ?tok = "claim_id_encode E (claim_of (env 0))" and ?rid = "new_uuid (env 0)"
  have ok: "claim_id_ok (claim_of (env 0))" and nonce: "length (gen_nonce (env 0)) = 12"
    using env [of 0] by (auto simp: test_env_def env_ok_def)
  have url: "base64_url_laws E" using laws by (simp add: test_laws_def)
  have len: "30 < length ?tok" using encode_length [OF url ok] by simp
  obtain ct ex v1 where s: "store_proof E ?B (env 0) (proof_from_bytes (as_bytes ''secret'')) None v = (Ok ?tok, v1)"
    "calm_vault E dir [?rid \<mapsto> issued_record (env 0) ct ex] v1" "ex = None"
    and ct: "aes_gcm_encrypt E (gen_key (env 0)) (gen_nonce (env 0)) (as_bytes ''secret'') = Some ct"
    by (rule issue [OF laws T env [of 0] v, of "as_bytes ''secret''" None]) auto
  have "is_err (fst (spec_retrieve E (now_check (env 1)) (tampered ?tok) [?rid \<mapsto> issued_record (env 0) ct ex])) \<longleftrightarrow>
      tampered_rejected E (env 0)"
    using s(3) ct nonce by (cases "claim_id_decode E (tampered ?tok)")
      (auto simp: spec_retrieve_def tampered_rejected_def is_expired_def issued_record_def open_record_def split: option.splits)
  moreover have "fst (retrieve_proof E ?B (env 1) (tampered ?tok) v1) =
      fst (spec_retrieve E (now_check (env 1)) (tampered ?tok) [?rid \<mapsto> issued_record (env 0) ct ex])"
    by (rule test_retrieve [where tok = "tampered ?tok", OF env [of 1] s(2) surjective_pairing]) simp
  ultimately show ?thesis
    using s(1) len by (simp add: wrong_claim_id_fails_decryption_def Let_def tampered_def)
qed

section \<open>The tests of the cleanup task pass\<close>

abbreviation old_record :: "datetime \<Rightarrow> stored_record" where
  "old_record past \<equiv> \<lparr>encrypted = \<lparr>nonce = replicate 12 0, ciphertext = replicate 16 0\<rparr>, stored_at = past, expires_at = Some past\<rparr>"

lemma test_cleanup:
  assumes "test_env T env" "calm_vault E dir m v"
  obtains v' where "cleanup (local_file_backend E (vault_json dir)) env v =
      (Ok (card {rid. \<exists>r. m rid = Some r \<and> due (now_check env) r}), v')" "calm_vault E dir (purge (now_check env) m) v'"
  by (rule file_calm.calm_cleanup [OF assms(2), of env]) (use assms(1) in \<open>auto simp: test_env_def\<close>)

lemma insert_expired_passes:
  assumes "test_laws E sub" "test_time E T" "within_test T now" "test_file_io io" "calm_vault E dir m v"
    and "\<And>v. calm_vault E dir (m(replicate 16 1 \<mapsto> old_record (now - 1000000000))) v \<Longrightarrow> test v"
  shows "insert_expired_record E sub (local_file_backend E (vault_json dir)) io now v test"
proof -
  obtain v' where "on_storage (be_insert (local_file_backend E (vault_json dir)) io (replicate 16 1) (old_record (now - 1000000000))) v = (Ok (), v')"
    "calm_vault E dir (m(replicate 16 1 \<mapsto> old_record (now - 1000000000))) v'"
    by (rule test_insert [OF assms(5) _ assms(4), where rid = "replicate 16 1" and r = "old_record (now - 1000000000)"]) simp_all
  then show ?thesis
    using assms(6) one_second_ago [OF assms(1-3)] by (simp add: insert_expired_record_def Let_def)
qed

lemma old_record_due: "\<lbrakk>within_test T now; test_env T env\<rbrakk> \<Longrightarrow> due (now_check env) (old_record (now - 1000000000))"
  by (simp add: due_def within_test_def test_env_def)

lemma cleanup_removes_passes:
  assumes laws: "test_laws E sub" and T: "test_time E T" and env: "\<And>n. test_env T (env n)"
    and io: "test_file_io io" and now: "within_test T now" and v: "calm_vault E dir Map.empty v"
    and uuid: "new_uuid (env 0) \<noteq> replicate 16 1"
  shows "cleanup_removes_expired_proofs E sub (local_file_backend E (vault_json dir)) env io now v"
  unfolding cleanup_removes_expired_proofs_def
proof (rule insert_expired_passes [OF laws T now io v])
  fix v assume v: "calm_vault E dir [replicate 16 1 \<mapsto> old_record (now - 1000000000)] v"
  let ?B = "local_file_backend E (vault_json dir)" and ?tok = "claim_id_encode E (claim_of (env 0))"
  obtain ct ex v1 where s: "store_proof E ?B (env 0) (proof_from_bytes (as_bytes ''new'')) (Some 3600) v = (Ok ?tok, v1)"
    "calm_vault E dir [replicate 16 1 \<mapsto> old_record (now - 1000000000), new_uuid (env 0) \<mapsto> issued_record (env 0) ct ex] v1"
    "live E T (env 0) (as_bytes ''new'') (issued_record (env 0) ct ex)" "ex = Some (now_expiry (env 0) + 3600000000000)"
    by (rule issue [OF laws T env [of 0] v, of "as_bytes ''new''" "Some 3600"]) auto
  let ?m = "[replicate 16 1 \<mapsto> old_record (now - 1000000000), new_uuid (env 0) \<mapsto> issued_record (env 0) ct ex]"
  have due: "due (now_check (env 1)) (old_record (now - 1000000000))" "\<not> due (now_check (env 1)) (issued_record (env 0) ct ex)"
    using old_record_due [OF now env] s(4) env [of 0] env [of 1]
    by (simp_all add: due_def issued_record_def test_env_def within_test_def)
  then have "{rid. \<exists>r. ?m rid = Some r \<and> due (now_check (env 1)) r} = {replicate 16 1}"
    using uuid by (auto split: if_splits)
  then have one: "card {rid. \<exists>r. ?m rid = Some r \<and> due (now_check (env 1)) r} = 1" by (metis is_singletonI is_singleton_altdef)
  obtain v2 where v2: "cleanup ?B (env 1) v1 = (Ok 1, v2)" "calm_vault E dir (purge (now_check (env 1)) ?m) v2"
    by (rule test_cleanup [OF env [of 1] s(2), unfolded one])
  obtain v3 where "retrieve_proof E ?B (env 2) ?tok v2 = (Ok (proof_from_bytes (as_bytes ''new'')), v3)"
    by (rule live_retrieve [OF s(3) env v2(2)]) (use due in \<open>auto simp: purge_def\<close>)
  then show "unwrap (store_proof E ?B (env 0) (proof_from_bytes (as_bytes ''new'')) (Some 3600) v) (\<lambda>valid v.
      unwrap (cleanup ?B (env 1) v) (\<lambda>removed v. removed = 1 \<and> is_ok (fst (retrieve_proof E ?B (env 2) valid v))))"
    using s(1) v2(1) by simp
qed

lemma tick_calm:
  fixes w :: "fs vault cleanup_world"
  assumes "test_env T env" "calm_vault E dir m (cw_vault w)" "running w" "\<not> token_cancelled w"
  defines "w' \<equiv> cleanup_wake (standard_vault E (local_file_backend E (vault_json dir))) (Some env) w"
  shows "calm_vault E dir (purge (now_check env) m) (cw_vault w') \<and> running w' \<and> \<not> token_cancelled w'"
proof -
  obtain n v' where "cleanup (local_file_backend E (vault_json dir)) env (cw_vault w) = (Ok n, v')"
    "calm_vault E dir (purge (now_check env) m) v'"
    by (rule test_cleanup [OF assms(1,2)])
  then show ?thesis
    using assms(3,4) by (simp add: w'_def cleanup_wake_def cleanup_sweep_def standard_vault_def token_cancelled_def)
qed

lemma ticks_calm:
  fixes w :: "fs vault cleanup_world"
  assumes "\<forall>env \<in> set ticks. test_env T env" "calm_vault E dir Map.empty (cw_vault w)" "running w" "\<not> token_cancelled w"
  defines "w' \<equiv> cleanup_events (standard_vault E (local_file_backend E (vault_json dir))) (map (\<lambda>e. Wake (Some e)) ticks) w"
  shows "calm_vault E dir Map.empty (cw_vault w') \<and> running w' \<and> \<not> token_cancelled w'"
  using assms(1-4) unfolding w'_def
proof (induction ticks arbitrary: w)
  case (Cons env ticks)
  have p: "purge now Map.empty = Map.empty" for now by (simp add: purge_def)
  from Cons.prems show ?case
    using tick_calm [OF _ Cons.prems(2-4), of T env, unfolded p] Cons.IH by (simp add: cleanup_events_def)
qed (simp add: cleanup_events_def)

lemma spawn_cleanup_passes:
  assumes laws: "test_laws E sub" and T: "test_time E T" and ticks: "\<forall>env \<in> set ticks. test_env T env" "ticks \<noteq> []"
    and env: "test_env T env" and io: "test_file_io io" and now: "within_test T now" and v: "calm_vault E dir Map.empty v"
  shows "spawn_cleanup_task_runs_and_cancels E sub (local_file_backend E (vault_json dir)) ticks env io now v"
  unfolding spawn_cleanup_task_runs_and_cancels_def
proof (rule insert_expired_passes [OF laws T now io v])
  fix v assume v: "calm_vault E dir [replicate 16 1 \<mapsto> old_record (now - 1000000000)] v"
  let ?PV = "standard_vault E (local_file_backend E (vault_json dir))" and ?w = "spawn_cleanup_task 50000000 False v []"
  have w: "running ?w" "\<not> token_cancelled ?w" "cw_vault ?w = v"
    by (simp_all add: spawn_cleanup_task_def token_cancelled_def)
  obtain e es where es: "ticks = e # es" using ticks(2) by (cases ticks) auto
  have purged: "purge (now_check e) [replicate 16 1 \<mapsto> old_record (now - 1000000000)] = Map.empty"
    using old_record_due [OF now, of e] ticks(1) es by (auto simp: purge_def fun_eq_iff)
  let ?w1 = "cleanup_wake ?PV (Some e) ?w"
  have "calm_vault E dir Map.empty (cw_vault ?w1) \<and> running ?w1 \<and> \<not> token_cancelled ?w1"
    using tick_calm [of T e E dir "[replicate 16 1 \<mapsto> old_record (now - 1000000000)]" ?w, unfolded purged] ticks(1) es v w by simp
  then have "calm_vault E dir Map.empty (cw_vault (cleanup_events ?PV (map (\<lambda>e. Wake (Some e)) ticks) ?w)) \<and>
      running (cleanup_events ?PV (map (\<lambda>e. Wake (Some e)) ticks) ?w)"
    using ticks_calm [of es T E dir ?w1] ticks(1) es by (simp add: cleanup_events_def)
  moreover obtain w2 where w2: "w2 = cleanup_events ?PV (map (\<lambda>e. Wake (Some e)) ticks) ?w" by blast
  ultimately have c: "calm_vault E dir Map.empty (cw_vault w2)" "running w2" by auto
  have pv: "pv_cleanup ?PV = cleanup (local_file_backend E (vault_json dir))" by (simp add: standard_vault_def)
  obtain v' where "cleanup (local_file_backend E (vault_json dir)) env (cw_vault w2) = (Ok 0, v')"
    by (rule test_cleanup [OF env c(1)]) simp
  then show "let PV = arc_vault ?PV; w = ?w; w = cleanup_events PV (map (\<lambda>e. Wake (Some e)) ticks) w;
      w = cleanup_stop w; w = cleanup_wake PV None w in
      cleanup_stopped w \<and> unwrap (pv_cleanup PV env (cw_vault w)) (\<lambda>removed _. removed = 0)"
    unfolding Let_def arc_vault_id w2 [symmetric]
    using c(2) pv by (simp add: cleanup_stop_def cleanup_wake_def token_cancelled_def cleanup_stopped_def)
qed

lemma parent_cancel_passes: "parent_cancel_stops_the_task E B v"
  by (simp add: parent_cancel_stops_the_task_def spawn_cleanup_task_def parent_cancel_def cleanup_wake_def
      token_cancelled_def cleanup_stopped_def Let_def)

section \<open>All of them\<close>

text \<open>
  C24: the unit tests of the storage backends, the vault and the cleanup task pass, whatever
  ids, keys and nonces are drawn. They need a fresh directory in which no system call
  fails, clock readings within one second, two distinct record ids, a drawn id that is not
  the constant id of the cleanup tests, and at least one sweep while the task test sleeps.
  Nothing is assumed of the cipher beyond its round trip: the test with a tampered claim
  passes exactly when the cipher refuses the ciphertext of that test under the key of the
  tampered token.
\<close>

theorem vault_tests_pass:
  assumes "test_laws E sub" "chrono_rfc3339_laws E" "test_time E T" "within_test T now" "\<forall>n. within_test T (clock n)"
    and "fresh_dir dir d" "test_file_io io0" "\<forall>n. test_file_io (io n)" "\<forall>n. test_env T (env n)"
    and "\<forall>c. db_fault sio0 c = None" "\<forall>n c. db_fault (sio n) c = None"
    and "length id1 = 16" "length id2 = 16" "id1 \<noteq> id2" "new_uuid (env 0) \<noteq> replicate 16 1"
    and "ticks \<noteq> []" "\<forall>e \<in> set ticks. test_env T e"
    and "length (serde_to_string E (JObject [(''path'', JArray [JNumber (PosInt 1), JNumber (PosInt 2), JNumber (PosInt 3)]),
      (''root'', JString ''abc123'')])) \<le> 2 ^ 36"
  defines "B \<equiv> local_file_backend E (vault_json dir)"
  shows "file_insert_fetch_delete_round_trip E dir io0 id1 clock io d
    \<and> file_delete_expired_removes_stale_records E dir io0 id1 id2 clock io d
    \<and> sqlite_insert_fetch_delete_round_trip E dir sio0 id1 clock sio
    \<and> sqlite_delete_expired_removes_stale_records E dir sio0 id1 id2 clock sio
    \<and> sqlite_delete_is_idempotent E dir sio0 id1 (sio 0)
    \<and> vault_in E io0 dir d (store_and_retrieve_json_proof E B env)
    \<and> vault_in E io0 dir d (single_use_enforced E B env)
    \<and> vault_in E io0 dir d (store_proof_with_zero_ttl_returns_invalid_parameter E B env)
    \<and> vault_in E io0 dir d (expired_proof_returns_error E sub B env io now)
    \<and> vault_in E io0 dir d (delete_proof_removes_it E B env)
    \<and> vault_in E io0 dir d (delete_proof_returns_not_found_when_already_consumed E B env)
    \<and> (vault_in E io0 dir d (wrong_claim_id_fails_decryption E B env) \<longleftrightarrow> tampered_rejected E (env 0))
    \<and> vault_in E io0 dir d (cleanup_removes_expired_proofs E sub B env (io 0) now)
    \<and> vault_in E io0 dir d (spawn_cleanup_task_runs_and_cancels E sub B ticks (env 0) (io 0) now)
    \<and> vault_in E io0 dir d (parent_cancel_stops_the_task E B)"
proof -
  note laws = assms(1) and T = assms(3) and now = assms(4)
  have io: "test_file_io (io n)" and env: "test_env T (env n)" and clock: "within_test T (clock n)"
    and sio: "\<forall>c. db_fault (sio n) c = None" for n using assms(5,8,9,11) by auto
  have el: "file_laws E" "chrono_arith_laws E" "chrono_near_laws E sub" using laws by (auto simp: test_laws_def)
  note vault = vault_in_calm [OF laws assms(6,7)]
  show ?thesis
    unfolding B_def
    by (intro conjI file_tests_pass [OF el T clock assms(6,7) io assms(12-14)]
        sqlite_tests_pass [OF assms(2) el(2,3) T clock assms(10) sio assms(12-14)] vault
        json_proof_passes [OF laws T env _ assms(18)] consumed_once_passes [OF laws T env] zero_ttl_passes
        expired_proof_passes [OF laws T env io now] vault_in_calm_iff [OF laws assms(6,7)] wrong_claim_iff [where env = env, OF laws T env]
        cleanup_removes_passes [where env = env, OF laws T env io now _ assms(15)]
        spawn_cleanup_passes [OF laws T assms(17,16) env io now] parent_cancel_passes)
qed

definition sample_test_env :: "file_io call_env" where
  "sample_test_env = \<lparr>gen_key = replicate 32 7, gen_nonce = replicate 12 9, new_uuid = replicate 16 2,
     now_expiry = 10000000000000, now_stored = 10000000000000, now_check = 10000000000000,
     io_first = calm_file_io, io_second = calm_file_io\<rparr>"

lemma sample_test_facts:
  "test_laws ref_ext (\<lambda>t d. Some (t - d))" "test_time ref_ext 10000000000000" "test_env 10000000000000 sample_test_env"
  "within_test 10000000000000 10000000000000" "test_file_io calm_file_io"
  by (simp_all add: test_laws_def ref_laws chrono_near_laws_def test_time_def rfc3339_range_def within_test_def test_env_def
      sample_test_env_def env_ok_def test_file_io_def)
    (simp_all add: calm_file_io_def ref_ext_def)

lemma sample_tampered_rejected: "tampered_rejected ref_ext sample_test_env"
proof (cases "claim_id_decode ref_ext (tampered (claim_id_encode ref_ext (claim_of sample_test_env)))")
  case (Ok c)
  have ok: "claim_id_ok (claim_of sample_test_env)"
    by (simp add: sample_test_env_def claim_id_ok_def claim_id_new_def)
  then have "tampered (claim_id_encode ref_ext (claim_of sample_test_env)) ! 30 \<noteq>
      claim_id_encode ref_ext (claim_of sample_test_env) ! 30"
    using encode_length [OF ref_base64_url] by (simp add: tampered_def)
  then have "c \<noteq> claim_of sample_test_env"
    using decode_Ok [OF ref_base64_url Ok] by auto
  moreover have c: "length (encryption_key c) = 32"
    using decode_Ok [OF ref_base64_url Ok] by (simp add: claim_id_ok_def)
  moreover have "strip_prefix (k @ n) (k' @ n @ bs) = None" if "length k = length k'" "k \<noteq> k'" for k k' n bs :: bytes
    using that by (cases "strip_prefix (k @ n) (k' @ n @ bs)") auto
  ultimately have "aes_gcm_decrypt ref_ext (encryption_key c) (gen_nonce sample_test_env) ct = None"
    if "aes_gcm_encrypt ref_ext (gen_key sample_test_env) (gen_nonce sample_test_env) bs = Some ct"
      "record_id c = new_uuid sample_test_env" for ct bs
    using that by (cases c)
      (auto simp: ref_ext_def sample_test_env_def ref_encrypt_def ref_decrypt_def claim_id_new_def split: if_splits)
  then show ?thesis
    using Ok by (cases "aes_gcm_encrypt ref_ext (gen_key sample_test_env) (gen_nonce sample_test_env) (as_bytes ''secret'')")
      (auto simp: tampered_rejected_def)
qed (simp_all add: tampered_rejected_def)

theorem vault_tests_pass_witness:
  "vault_in ref_ext calm_file_io [RootDir, Normal ''tmp''] Map.empty
     (wrong_claim_id_fails_decryption ref_ext (local_file_backend ref_ext (vault_json [RootDir, Normal ''tmp''])) (\<lambda>_. sample_test_env))"
proof -
  have len: "length (serde_to_string ref_ext (JObject [(''path'', JArray [JNumber (PosInt 1), JNumber (PosInt 2), JNumber (PosInt 3)]),
      (''root'', JString ''abc123'')])) \<le> 2 ^ 36"
    by (simp add: ref_ext_def word_code_def text_code_def)
  have dir: "fresh_dir [RootDir, Normal ''tmp''] Map.empty" by (simp add: fresh_dir_def)
  have uuid: "new_uuid sample_test_env \<noteq> replicate 16 1" by (simp add: sample_test_env_def)
  show ?thesis
    using vault_tests_pass [where env = "\<lambda>_. sample_test_env" and io = "\<lambda>_. calm_file_io" and clock = "\<lambda>_. 10000000000000"
        and sio = "\<lambda>_. sqlite_part calm_io" and ?sio0.0 = "sqlite_part calm_io" and ?id1.0 = "replicate 16 1" and ?id2.0 = "replicate 16 2"
        and ticks = "[sample_test_env]", OF sample_test_facts(1) ref_chrono_rfc3339 sample_test_facts(2,4) _ dir sample_test_facts(5)]
      len uuid sample_test_facts sample_tampered_rejected
    by (simp add: calm_io_def)
qed

end
