(* ===== verification/Component_Tests.thy ===== *)
theory Component_Tests
  imports Test_Kit Vault_Config Discovery
begin

text \<open>
  The unit tests of the components around the storage: \<^verbatim>\<open>src/error.rs\<close>,
  \<^verbatim>\<open>src/domain/\<close>, \<^verbatim>\<open>src/auth.rs\<close>,
  \<^verbatim>\<open>src/config.rs\<close> and \<^verbatim>\<open>src/rpc/discovery.rs\<close>.
\<close>

section \<open>Errors and domain types\<close>

definition vault_error_rpc_codes :: bool where
  "vault_error_rpc_codes \<longleftrightarrow>
     rpc_code ProofNotFound = - 32001 \<and> rpc_code ProofExpired = - 32002 \<and>
     rpc_code InvalidClaimId = - 32003 \<and> rpc_code DecryptionFailed = - 32004 \<and>
     rpc_code (Storage NotFound) = - 32005 \<and> rpc_code (InvalidParameter ''bad'') = - 32006 \<and>
     rpc_code (Serialization (''oo'' @ ''ps'')) = - 32005"

definition round_trip_encode_decode :: "ext \<Rightarrow> bytes \<Rightarrow> bool" where
  "round_trip_encode_decode E uuid =
     (let key = replicate 32 0x42; claim = claim_id_new uuid key; encoded = claim_id_encode E claim in
      length encoded = 64 \<and>
      unwrap (claim_id_decode E encoded, ()) (\<lambda>decoded _.
      record_id decoded = record_id claim \<and> encryption_key decoded = encryption_key claim))"

definition decode_rejects_wrong_length :: "ext \<Rightarrow> bool" where
  "decode_rejects_wrong_length E \<longleftrightarrow>
     is_err (claim_id_decode E ''tooshort'') \<and> is_err (claim_id_decode E (replicate 70 (CHR ''A'')))"

definition decode_rejects_invalid_base64 :: "ext \<Rightarrow> bool" where
  "decode_rejects_invalid_base64 E \<longleftrightarrow>
     is_err (claim_id_decode E ''not!valid@base64#string$here%and^more&here*so(we)have-enough+chars'')"

definition from_json_and_into_json_round_trip :: "ext \<Rightarrow> bool" where
  "from_json_and_into_json_round_trip E =
     (let v = JObject [(''path'', JArray [JNumber (PosInt 1), JNumber (PosInt 2), JNumber (PosInt 3)]), (''root'', JString ''abc'')] in
      unwrap (proof_from_json E v, ()) (\<lambda>p _. unwrap (proof_into_json E p, ()) (\<lambda>r _. r = v)))"

definition into_json_returns_error_on_invalid_bytes :: "ext \<Rightarrow> bool" where
  "into_json_returns_error_on_invalid_bytes E \<longleftrightarrow>
     is_err (proof_into_json E (proof_from_bytes ([0xFF, 0xFE] @ as_bytes '' invalid utf8'')))"

fun contains :: "'a list \<Rightarrow> 'a list \<Rightarrow> bool" where
  "contains p [] \<longleftrightarrow> p = []"
| "contains p (c # s) \<longleftrightarrow> take (length p) (c # s) = p \<or> contains p s"

definition debug_output_is_redacted :: bool where
  "debug_output_is_redacted =
     (let debug = proof_debug (proof_from_bytes (as_bytes ''super secret'')) in
      debug = ''PlaintextProof(<redacted>)'' \<and> \<not> contains ''super secret'' debug)"

text \<open>
  The three tests of \<open>is_expired\<close>; \<open>t0\<close>, \<open>t1\<close> and \<open>t2\<close> are the
  clock readings in order, and \<open>Duration::hours(h)\<close> is \<open>h\<close> times 3600 seconds.
\<close>

definition is_expired_none_means_never_expires :: "datetime \<Rightarrow> datetime \<Rightarrow> bool" where
  "is_expired_none_means_never_expires t0 t1 \<longleftrightarrow>
     \<not> is_expired t1 \<lparr>encrypted = \<lparr>nonce = [], ciphertext = []\<rparr>, stored_at = t0, expires_at = None\<rparr>"

definition is_expired_future_expiry_is_not_expired :: "ext \<Rightarrow> datetime \<Rightarrow> datetime \<Rightarrow> datetime \<Rightarrow> bool" where
  "is_expired_future_expiry_is_not_expired E t0 t1 t2 \<longleftrightarrow>
     unwrap (plus_seconds E t1 3600 :: (datetime, unit) result, ()) (\<lambda>ex _.
     \<not> is_expired t2 \<lparr>encrypted = \<lparr>nonce = [], ciphertext = []\<rparr>, stored_at = t0, expires_at = Some ex\<rparr>)"

definition is_expired_past_expiry_is_expired ::
  "ext \<Rightarrow> (datetime \<Rightarrow> timedelta \<Rightarrow> datetime option) \<Rightarrow> datetime \<Rightarrow> datetime \<Rightarrow> datetime \<Rightarrow> bool" where
  "is_expired_past_expiry_is_expired E sub t0 t1 t2 \<longleftrightarrow>
     unwrap (minus_seconds E sub t0 7200 :: (datetime, unit) result, ()) (\<lambda>stored _.
     unwrap (minus_seconds E sub t1 3600 :: (datetime, unit) result, ()) (\<lambda>ex _.
     is_expired t2 \<lparr>encrypted = \<lparr>nonce = [], ciphertext = []\<rparr>, stored_at = stored, expires_at = Some ex\<rparr>))"

section \<open>Authentication\<close>

text \<open>A service that answers every request, and tower's \<open>oneshot\<close>.\<close>

definition echo :: "(string, string, unit, unit logged) service" where
  "echo = \<lparr>svc_poll_ready = (\<lambda>s. (Ready (Ok ()), s)),
     svc_call = (\<lambda>_ s. (Ok \<lparr>status = 200, resp_headers = [], resp_body = ''ok''\<rparr>, s))\<rparr>"

definition oneshot ::
  "('b, 'r, 'e, 's) service \<Rightarrow> 'b http_request \<Rightarrow> 's \<Rightarrow> ('r http_response, 'e) result \<times> 's" where
  "oneshot svc req s =
     (case svc_poll_ready svc s of
        (Ready (Ok _), s) \<Rightarrow> svc_call svc req s
      | (Ready (Err e), s) \<Rightarrow> (Err e, s)
      | (Ready (Panic m), s) \<Rightarrow> (Panic m, s)
      | (Pending, s) \<Rightarrow> (Panic ''never ready'', s))"

definition plain_request :: "string http_request" where
  "plain_request = \<lparr>req_headers = [], req_body = []\<rparr>"

definition bearer_request :: "string \<Rightarrow> string http_request" where
  "bearer_request v = \<lparr>req_headers = [(''authorization'', as_bytes v)], req_body = []\<rparr>"

definition disabled_passes_all_requests :: "ext \<Rightarrow> bool" where
  "disabled_passes_all_requests E =
     (let svc = bearer_layer E [] bearer_disabled echo in
      unwrap (oneshot svc plain_request ((), [])) (\<lambda>resp _. status resp = 200))"

definition valid_token_passes :: "ext \<Rightarrow> bool" where
  "valid_token_passes E =
     (let svc = bearer_layer E [] (bearer_new ''secret'') echo in
      unwrap (oneshot svc (bearer_request ''Bearer secret'') ((), [])) (\<lambda>resp _. status resp = 200))"

definition missing_token_returns_401 :: "ext \<Rightarrow> bool" where
  "missing_token_returns_401 E =
     (let svc = bearer_layer E [] (bearer_new ''secret'') echo in
      unwrap (oneshot svc plain_request ((), [])) (\<lambda>resp _. status resp = UNAUTHORIZED))"

definition wrong_token_returns_401 :: "ext \<Rightarrow> bool" where
  "wrong_token_returns_401 E =
     (let svc = bearer_layer E [] (bearer_new ''secret'') echo in
      unwrap (oneshot svc (bearer_request ''Bearer wrong'') ((), [])) (\<lambda>resp _. status resp = UNAUTHORIZED))"

definition www_authenticate_header_present_on_401 :: "ext \<Rightarrow> bool" where
  "www_authenticate_header_present_on_401 E =
     (let svc = bearer_layer E [] (bearer_new ''secret'') echo in
      unwrap (oneshot svc plain_request ((), [])) (\<lambda>resp _.
      status resp = UNAUTHORIZED \<and> map_of (resp_headers resp) ''www-authenticate'' \<noteq> None))"

definition from_config_none_is_disabled :: bool where
  "from_config_none_is_disabled \<longleftrightarrow> layer_token (bearer_from_config None) = None"

definition from_config_empty_string_is_disabled :: bool where
  "from_config_empty_string_is_disabled \<longleftrightarrow> layer_token (bearer_from_config (Some [])) = None"

section \<open>Configuration\<close>

definition defaults_are_sensible :: "path option \<Rightarrow> bool" where
  "defaults_are_sensible data_local_dir =
     (let cfg = vault_config_default data_local_dir in
      bind_address (cfg_server cfg) = ''127.0.0.1:9000'' \<and>
      last (vault_file (cfg_storage cfg)) = Normal ''vault.json'' \<and>
      level (cfg_logging cfg) = ''info'')"

text \<open>\<open>overridden\<close> is whether the variable \<open>VAULT__SERVER__BIND_ADDRESS\<close> is set.\<close>

definition load_with_no_files_uses_defaults :: "config_builder \<Rightarrow> path option \<Rightarrow> bool \<Rightarrow> bool" where
  "load_with_no_files_uses_defaults build data_local_dir overridden \<longleftrightarrow>
     (\<not> overridden \<longrightarrow>
      unwrap (load_config build data_local_dir None, ()) (\<lambda>cfg _. bind_address (cfg_server cfg) = ''127.0.0.1:9000''))"

section \<open>Discovery\<close>

text \<open>\<open>spec\<close> is the embedded text \<open>OPENRPC_SPEC\<close>.\<close>

definition openrpc_spec_is_valid_json :: "ext \<Rightarrow> string \<Rightarrow> bool" where
  "openrpc_spec_is_valid_json E spec = unwrap (value_from_slice E (as_bytes spec), ()) (\<lambda>v _. json_is_object v)"

definition openrpc_spec_has_required_fields :: "ext \<Rightarrow> string \<Rightarrow> bool" where
  "openrpc_spec_has_required_fields E spec =
     unwrap (value_from_slice E (as_bytes spec), ()) (\<lambda>spec _.
     json_as_str (json_index spec ''openrpc'') \<noteq> None \<and>
     json_as_str (json_index (json_index spec ''info'') ''title'') \<noteq> None \<and>
     json_as_str (json_index (json_index spec ''info'') ''version'') \<noteq> None \<and>
     json_as_array (json_index spec ''methods'') \<noteq> None)"

definition all_vault_methods_are_documented :: "ext \<Rightarrow> string \<Rightarrow> bool" where
  "all_vault_methods_are_documented E spec =
     unwrap (value_from_slice E (as_bytes spec), ()) (\<lambda>spec _.
     case json_as_array (json_index spec ''methods'') of None \<Rightarrow> False
     | Some ms \<Rightarrow>
         (let method_names = List.map_filter (\<lambda>m. json_as_str (json_index m ''name'')) ms in
          list_all (\<lambda>expected. List.member method_names expected)
            [''vault_storeProof'', ''vault_retrieveProof'', ''vault_deleteProof'', ''rpc.discover'']))"

definition all_custom_error_codes_are_documented :: "ext \<Rightarrow> string \<Rightarrow> bool" where
  "all_custom_error_codes_are_documented E spec =
     unwrap (value_from_slice E (as_bytes spec), ()) (\<lambda>spec _.
     case json_as_object (json_index (json_index spec ''components'') ''errors'') of None \<Rightarrow> False
     | Some errors \<Rightarrow>
         (let codes = List.map_filter (\<lambda>e. json_as_i64 (json_index (snd e) ''code'')) errors in
          list_all (\<lambda>expected. List.member codes expected) [- 32001, - 32002, - 32003, - 32004, - 32005]))"

section \<open>The tests pass\<close>

text \<open>
  Two facts about \<open>serde_json\<close> beyond its round trips: no value begins with a byte
  outside ASCII, and the embedded text is read as the document.
\<close>

definition json_text_laws :: "ext \<Rightarrow> bool" where
  "json_text_laws E \<longleftrightarrow> (\<forall>b bs. 128 \<le> b \<longrightarrow> is_err (serde_from_slice E (b # bs)))"

text \<open>
  The builder of the \<open>config\<close> crate on sources that contribute nothing (an optional
  file that does not exist, an environment without variables of the prefix): the
  configuration is read from the defaults, and the fields that have no default there are
  those \<open>serde\<close> fills in (an option is empty, a flag is off).
\<close>

definition config_builder_laws :: "config_builder \<Rightarrow> (config_source \<Rightarrow> bool) \<Rightarrow> bool" where
  "config_builder_laws build silent \<longleftrightarrow>
     (\<forall>ds ss addr p n l m. list_all silent ss \<and>
        map_of ds ''server.bind_address'' = Some (CText addr) \<and> map_of ds ''storage.vault_file'' = Some (CPath p) \<and>
        map_of ds ''storage.cleanup_interval_secs'' = Some (CNumber n) \<and> map_of ds ''storage.backend'' = Some (CText ''file'') \<and>
        map_of ds ''logging.level'' = Some (CText l) \<and> map_of ds ''server.max_proof_size_bytes'' = Some (CNumber m) \<longrightarrow>
        build ds ss = Ok \<lparr>cfg_server = \<lparr>bind_address = addr, auth_token = None, tls_cert_path = None, tls_key_path = None,
            insecure_no_tls = False, max_proof_size_bytes = m\<rparr>,
          cfg_storage = \<lparr>vault_file = p, cleanup_interval_secs = n, backend = FileBackend, sqlite_path = None\<rparr>,
          cfg_logging = \<lparr>level = l\<rparr>\<rparr>)"

text \<open>With nothing to override them, what is loaded is \<open>VaultConfig::default()\<close>, field for field.\<close>

lemma load_config_default:
  assumes "config_builder_laws build silent" "silent (FileNamed ''vault_config'' False)" "silent (Environment ''VAULT'' ''__'' True)"
  shows "load_config build data_local_dir None = Ok (vault_config_default data_local_dir)"
  using assms by (simp add: load_config_def config_builder_laws_def vault_config_default_def Let_def)

lemma decode_length:
  assumes "base64_url_laws E" "length s \<noteq> 64"
  shows "is_err (claim_id_decode E s)"
  using decode_total [of E s] decode_Ok [OF assms(1)] encode_length [OF assms(1)] assms(2) by fastforce

lemma claim_tests_pass:
  assumes "base64_url_laws E" "length uuid = 16"
  shows "round_trip_encode_decode E uuid" "decode_rejects_wrong_length E" "decode_rejects_invalid_base64 E"
proof -
  have "claim_id_ok (claim_id_new uuid (replicate 32 0x42))" using assms(2) by simp
  then show "round_trip_encode_decode E uuid"
    using decode_encode [OF assms(1)] encode_length [OF assms(1)] by (simp add: round_trip_encode_decode_def Let_def)
qed (simp_all add: decode_rejects_wrong_length_def decode_rejects_invalid_base64_def decode_length [OF assms(1)])

lemma proof_tests_pass:
  assumes "serde_json_laws E" "json_text_laws E"
  shows "from_json_and_into_json_round_trip E" "into_json_returns_error_on_invalid_bytes E" debug_output_is_redacted
proof -
  let ?v = "JObject [(''path'', JArray [JNumber (PosInt 1), JNumber (PosInt 2), JNumber (PosInt 3)]), (''root'', JString ''abc'')]"
  have "json_exact ?v \<and> is_value ?v" by code_simp
  then show "from_json_and_into_json_round_trip E"
    using proof_json_roundtrip [OF assms(1), of ?v] by (auto simp: from_json_and_into_json_round_trip_def Let_def)
  have "is_err (serde_from_slice E (0xFF # 0xFE # as_bytes '' invalid utf8''))"
    using assms(2) by (simp add: json_text_laws_def)
  then show "into_json_returns_error_on_invalid_bytes E"
    by (cases "serde_from_slice E (0xFF # 0xFE # as_bytes '' invalid utf8'')")
      (simp_all add: into_json_returns_error_on_invalid_bytes_def proof_into_json_def proof_from_bytes_def value_from_slice_def)
  show debug_output_is_redacted by code_simp
qed

lemma record_tests_pass:
  assumes laws: "chrono_arith_laws E" "chrono_near_laws E sub" and T: "test_time E T"
    and w: "within_test T t0" "within_test T t1" "within_test T t2"
  shows "is_expired_none_means_never_expires t0 t1" "is_expired_future_expiry_is_not_expired E t0 t1 t2"
    "is_expired_past_expiry_is_expired E sub t0 t1 t2"
proof -
  have plus: "plus_seconds E t1 3600 = (Ok (t1 + 3600000000000) :: (datetime, unit) result)"
    using plus_seconds_exact [OF laws, of 3600 t1] T w by (simp add: test_time_def within_test_def)
  have less: "minus_seconds E sub t0 7200 = (Ok (t0 - 7200000000000) :: (datetime, unit) result)"
    "minus_seconds E sub t1 3600 = (Ok (t1 - 3600000000000) :: (datetime, unit) result)"
    using minus_seconds_exact [OF laws, of 7200 t0] minus_seconds_exact [OF laws, of 3600 t1] T w
    by (simp_all add: test_time_def within_test_def)
  show "is_expired_none_means_never_expires t0 t1"
    by (simp add: is_expired_none_means_never_expires_def is_expired_def)
  show "is_expired_future_expiry_is_not_expired E t0 t1 t2"
    using w by (simp add: is_expired_future_expiry_is_not_expired_def plus is_expired_def within_test_def)
  show "is_expired_past_expiry_is_expired E sub t0 t1 t2"
    using w by (simp add: is_expired_past_expiry_is_expired_def less is_expired_def within_test_def)
qed

lemma oneshot_guarded:
  "oneshot (bearer_layer E [] l echo) req s = svc_call (bearer_layer E [] l echo) req s"
  by (simp add: oneshot_def bearer_layer_def echo_def)

lemma auth_tests_pass:
  assumes "header_laws E" "ct_eq_laws E"
  shows "disabled_passes_all_requests E" "valid_token_passes E" "missing_token_returns_401 E" "wrong_token_returns_401 E"
    "www_authenticate_header_present_on_401 E" from_config_none_is_disabled from_config_empty_string_is_disabled
proof -
  have new: "bearer_new ''secret'' = bearer_from_config (Some ''secret'')" by (simp add: bearer_from_config_def)
  have visible: "list_all visible_ascii (as_bytes (''Bearer '' @ ''secret''))" by code_simp
  have answer: "svc_call echo req s = (Ok \<lparr>status = 200, resp_headers = [], resp_body = ''ok''\<rparr>, s)" for req s
    by (simp add: echo_def)
  note gate = bearer_gate [OF assms, of "''secret''" "[]" echo, folded new, folded oneshot_guarded]
  show "disabled_passes_all_requests E"
    by (simp add: disabled_passes_all_requests_def oneshot_def bearer_layer_def bearer_call_def bearer_disabled_def echo_def)
  show "valid_token_passes E"
    using visible by (simp add: valid_token_passes_def gate bearer_request_def answer)
  show "missing_token_returns_401 E" "wrong_token_returns_401 E" "www_authenticate_header_present_on_401 E"
    by (simp_all add: missing_token_returns_401_def wrong_token_returns_401_def www_authenticate_header_present_on_401_def
        gate plain_request_def bearer_request_def unauthorized_response_def)
  show from_config_none_is_disabled from_config_empty_string_is_disabled
    by (simp_all add: from_config_none_is_disabled_def from_config_empty_string_is_disabled_def bearer_from_config_def bearer_disabled_def)
qed

lemma defaults_pass: "defaults_are_sensible data_local_dir"
  by (simp add: defaults_are_sensible_def vault_config_default_def default_vault_path_def path_join_def Let_def)

lemma load_passes:
  assumes "config_builder_laws build silent"
    "\<not> overridden \<longrightarrow> silent (FileNamed ''vault_config'' False) \<and> silent (Environment ''VAULT'' ''__'' True)"
  shows "load_with_no_files_uses_defaults build data_local_dir overridden"
  using load_config_default [OF assms(1)] assms(2)
  by (simp add: load_with_no_files_uses_defaults_def vault_config_default_def)

text \<open>The tests of the document, on the value it is read into.\<close>

lemma openrpc_value_facts:
  "json_is_object (json_value openrpc_json)"
  "json_as_str (json_index (json_value openrpc_json) ''openrpc'') \<noteq> None \<and>
   json_as_str (json_index (json_index (json_value openrpc_json) ''info'') ''title'') \<noteq> None \<and>
   json_as_str (json_index (json_index (json_value openrpc_json) ''info'') ''version'') \<noteq> None \<and>
   json_as_array (json_index (json_value openrpc_json) ''methods'') \<noteq> None"
  "case json_as_array (json_index (json_value openrpc_json) ''methods'') of None \<Rightarrow> False
   | Some ms \<Rightarrow>
       (let method_names = List.map_filter (\<lambda>m. json_as_str (json_index m ''name'')) ms in
        list_all (\<lambda>expected. List.member method_names expected)
          [''vault_storeProof'', ''vault_retrieveProof'', ''vault_deleteProof'', ''rpc.discover''])"
  "case json_as_object (json_index (json_index (json_value openrpc_json) ''components'') ''errors'') of None \<Rightarrow> False
   | Some errors \<Rightarrow>
       (let codes = List.map_filter (\<lambda>e. json_as_i64 (json_index (snd e) ''code'')) errors in
        list_all (\<lambda>expected. List.member codes expected) [- 32001, - 32002, - 32003, - 32004, - 32005])"
  by code_simp+

lemma discovery_tests_pass:
  assumes "serde_from_slice E (as_bytes spec) = Ok openrpc_json"
  shows "openrpc_spec_is_valid_json E spec" "openrpc_spec_has_required_fields E spec"
    "all_vault_methods_are_documented E spec" "all_custom_error_codes_are_documented E spec"
proof -
  have v: "value_from_slice E (as_bytes spec) = Ok (json_value openrpc_json)"
    using assms by (simp add: value_from_slice_def)
  show "openrpc_spec_is_valid_json E spec"
    unfolding openrpc_spec_is_valid_json_def v unwrap.simps by (rule openrpc_value_facts)
  show "openrpc_spec_has_required_fields E spec"
    unfolding openrpc_spec_has_required_fields_def v unwrap.simps by (rule openrpc_value_facts)
  show "all_vault_methods_are_documented E spec"
    unfolding all_vault_methods_are_documented_def v unwrap.simps by (rule openrpc_value_facts)
  show "all_custom_error_codes_are_documented E spec"
    unfolding all_custom_error_codes_are_documented_def v unwrap.simps by (rule openrpc_value_facts)
qed

text \<open>
  The unit tests of the errors, the claim and proof types, the stored record, the
  authentication layer, the configuration and the interface document pass, for every
  drawn id and every clock readings within a second. The test that loads the
  configuration runs where no file and no variable contributes to it, or is skipped.
\<close>

lemma component_tests_pass:
  assumes "base64_url_laws E" "serde_json_laws E" "json_text_laws E" "header_laws E" "ct_eq_laws E"
    and "chrono_arith_laws E" "chrono_near_laws E sub" "test_time E T"
    and "within_test T t0" "within_test T t1" "within_test T t2" "length uuid = 16"
    and "serde_from_slice E (as_bytes spec) = Ok openrpc_json" "config_builder_laws build silent"
    and "\<not> overridden \<longrightarrow> silent (FileNamed ''vault_config'' False) \<and> silent (Environment ''VAULT'' ''__'' True)"
  shows "vault_error_rpc_codes
    \<and> round_trip_encode_decode E uuid \<and> decode_rejects_wrong_length E \<and> decode_rejects_invalid_base64 E
    \<and> from_json_and_into_json_round_trip E \<and> into_json_returns_error_on_invalid_bytes E \<and> debug_output_is_redacted
    \<and> is_expired_none_means_never_expires t0 t1 \<and> is_expired_future_expiry_is_not_expired E t0 t1 t2
    \<and> is_expired_past_expiry_is_expired E sub t0 t1 t2
    \<and> disabled_passes_all_requests E \<and> valid_token_passes E \<and> missing_token_returns_401 E \<and> wrong_token_returns_401 E
    \<and> www_authenticate_header_present_on_401 E \<and> from_config_none_is_disabled \<and> from_config_empty_string_is_disabled
    \<and> defaults_are_sensible data_local_dir \<and> load_with_no_files_uses_defaults build data_local_dir overridden
    \<and> openrpc_spec_is_valid_json E spec \<and> openrpc_spec_has_required_fields E spec
    \<and> all_vault_methods_are_documented E spec \<and> all_custom_error_codes_are_documented E spec"
proof -
  have "vault_error_rpc_codes" by (simp add: vault_error_rpc_codes_def)
  then show ?thesis
    using claim_tests_pass [OF assms(1,12)] proof_tests_pass [OF assms(2,3)] record_tests_pass [OF assms(6-11)]
      auth_tests_pass [OF assms(4,5)] defaults_pass load_passes [OF assms(14,15)] discovery_tests_pass [OF assms(13)]
    by (intro conjI)
qed

lemma ref_json_text: "json_text_laws ref_ext"
proof -
  have "byte_char b \<notin> {CHR ''n'', CHR ''t'', CHR ''f'', CHR ''p'', CHR ''m'', CHR ''d'', CHR ''s'', CHR ''['', CHR ''{''}"
    if "128 \<le> b" for b :: byte
  proof -
    have "128 \<le> unat b" using that by (simp add: word_le_nat_alt)
    moreover have "unat b < 2 ^ LENGTH(8)" by (rule unsigned_less)
    then have "of_char (byte_char b) = unat b" by (simp add: byte_char_def)
    ultimately have "128 \<le> (of_char (byte_char b) :: nat)" by simp
    then show ?thesis by auto
  qed
  then show ?thesis
    by (auto simp: json_text_laws_def ref_ext_def document_of_def)
qed

text \<open>A builder that reads its defaults and no sources.\<close>

fun text_of :: "config_value option \<Rightarrow> string" where
  "text_of (Some (CText t)) = t"
| "text_of _ = []"

fun path_of :: "config_value option \<Rightarrow> path" where
  "path_of (Some (CPath p)) = p"
| "path_of _ = []"

fun number_of :: "config_value option \<Rightarrow> u64" where
  "number_of (Some (CNumber n)) = n"
| "number_of _ = 0"

definition default_builder :: config_builder where
  "default_builder ds ss =
     Ok \<lparr>cfg_server = \<lparr>bind_address = text_of (map_of ds ''server.bind_address''), auth_token = None, tls_cert_path = None,
         tls_key_path = None, insecure_no_tls = False, max_proof_size_bytes = number_of (map_of ds ''server.max_proof_size_bytes'')\<rparr>,
       cfg_storage = \<lparr>vault_file = path_of (map_of ds ''storage.vault_file''),
         cleanup_interval_secs = number_of (map_of ds ''storage.cleanup_interval_secs''), backend = FileBackend, sqlite_path = None\<rparr>,
       cfg_logging = \<lparr>level = text_of (map_of ds ''logging.level'')\<rparr>\<rparr>"

lemma default_builder_laws: "config_builder_laws default_builder (\<lambda>_. True)"
  by (simp add: config_builder_laws_def default_builder_def)

lemma component_tests_instance:
  "all_custom_error_codes_are_documented ref_ext (serde_to_string ref_ext openrpc_json) \<and>
   load_with_no_files_uses_defaults default_builder None False"
proof -
  have "json_exact openrpc_json" by code_simp
  then have "serde_from_slice ref_ext (as_bytes (serde_to_string ref_ext openrpc_json)) = Ok openrpc_json"
    using ref_serde_json by (simp add: serde_json_laws_def)
  then show ?thesis
    using component_tests_pass [OF ref_base64_url ref_serde_json ref_json_text ref_header ref_ct_eq ref_chrono_arith, of "\<lambda>t d. Some (t - d)"
        10000000000000 10000000000000 10000000000000 10000000000000 "replicate 16 1" "serde_to_string ref_ext openrpc_json"
        default_builder "\<lambda>_. True" False None] default_builder_laws
    by (simp add: chrono_near_laws_def test_time_def within_test_def rfc3339_range_def) (simp add: ref_ext_def)
qed

end
