(* ===== verification/Service_Tests.thy ===== *)
theory Service_Tests
  imports Vault_Tests Component_Tests Rpc_Wire
begin

text \<open>
  The integration tests of \<^verbatim>\<open>tests/rpc_integration.rs\<close>: a server over a
  fresh file or database, with or without TLS and a token, and clients that send it
  requests. A request takes the whole way of \<open>Rpc_Wire\<close>: it is framed, goes over
  plain HTTP or through the TLS proxy, and passes the authentication layer, the body limit
  and the method table of the started server before its handler runs. The answer comes
  back as the decoded reply.
\<close>

section \<open>Test servers and clients\<close>

type_synonym 's rpc_world = "'s vault rpc_state logged"

type_synonym header_map = "(string \<times> bytes) list"

record ('s, 'io) test_server =
  ts_server :: server
  ts_backend :: "('s, 'io) storage_backend"
  ts_limit :: u64
  ts_lib :: rpc_lib
  ts_link :: link

definition send ::
  "ext \<Rightarrow> string \<Rightarrow> ('s, 'io) test_server \<Rightarrow> 'io call_env \<Rightarrow> rpc_call http_request \<Rightarrow> 's rpc_world \<Rightarrow>
     (rpc_reply http_response, unit) result \<times> 's rpc_world" where
  "send E spec ts env req s =
     (case reach (ts_lib ts) (ts_link ts) (ts_server ts)
         (frame (ts_lib ts) (fst (client_call (req_body req))) (snd (client_call (req_body req)))) of
        None \<Rightarrow> (Err (), s)
      | Some body \<Rightarrow>
          svc_call (bearer_layer E NoReply (auth_layer (ts_server ts))
            (wire_service E spec (ts_lib ts) (ts_server ts) (standard_vault E (ts_backend ts)) (ts_limit ts) env))
            \<lparr>req_headers = req_headers req, req_body = body\<rparr> s)"

text \<open>What \<open>client.request\<close> returns: the decoded result, the error object of the call, or another failure.\<close>

datatype client_error = Call error_object | Rejected nat | Disconnected | ParseError

fun rpc_error_code :: "client_error \<Rightarrow> int option" where
  "rpc_error_code (Call obj) = Some (err_code obj)"
| "rpc_error_code _ = None"

fun call_outcome :: "('a \<Rightarrow> json) \<Rightarrow> ('a, error_object) result \<Rightarrow> (json, client_error) result" where
  "call_outcome f (Ok a) = Ok (f a)"
| "call_outcome f (Err e) = Err (Call e)"
| "call_outcome f (Panic m) = Err Disconnected"

definition client_result :: "rpc_reply http_response \<Rightarrow> (json, client_error) result" where
  "client_result resp =
     (if status resp \<noteq> 200 then Err (Rejected (status resp))
      else case resp_body resp of
        NoReply \<Rightarrow> Err ParseError
      | StoreReply r \<Rightarrow> call_outcome JString r
      | RetrieveReply r \<Rightarrow> call_outcome (\<lambda>obj. JObject [(''proof_json'', object_json obj)]) r
      | DeleteReply r \<Rightarrow> call_outcome (\<lambda>_. JNull) r
      | DiscoverReply r \<Rightarrow> call_outcome (\<lambda>v. v) r
      | CallRefused obj \<Rightarrow> Err (Call obj))"

definition request ::
  "ext \<Rightarrow> string \<Rightarrow> ('s, 'io) test_server \<Rightarrow> header_map \<Rightarrow> 'io call_env \<Rightarrow> rpc_call \<Rightarrow> 's rpc_world \<Rightarrow>
     (json, client_error) result \<times> 's rpc_world" where
  "request E spec ts headers env call s =
     (case send E spec ts env \<lparr>req_headers = headers, req_body = call\<rparr> s of
        (Ok resp, s) \<Rightarrow> (client_result resp, s)
      | (_, s) \<Rightarrow> (Err Disconnected, s))"

text \<open>A result that is asked for as a \<open>String\<close>.\<close>

fun as_string :: "(json, client_error) result \<times> 's \<Rightarrow> (string, client_error) result \<times> 's" where
  "as_string (Ok (JString t), s) = (Ok t, s)"
| "as_string (Ok _, s) = (Err ParseError, s)"
| "as_string (Err e, s) = (Err e, s)"
| "as_string (Panic m, s) = (Panic m, s)"

definition bearer_headers :: "string \<Rightarrow> header_map" where
  "bearer_headers token = [(''authorization'', as_bytes (''Bearer '' @ token))]"

definition TEST_TOKEN :: string where
  "TEST_TOKEN = ''test-bearer-token-abc123''"

text \<open>
  Where a test runs: the RPC libraries, the outcomes of the network calls and of opening
  the storage, the temporary directory, and for TLS the texts \<open>rcgen\<close> makes and the
  outcomes of a handshake with a client that trusts the certificate and of the proxy's
  connection to the plain server.
\<close>

record file_site =
  site_lib :: rpc_lib
  site_net :: net_io
  site_io :: file_io
  site_dir :: path
  site_fs :: fs
  site_shown :: "path \<Rightarrow> string"
  site_cert_pem :: bytes
  site_key_pem :: bytes
  site_pem_mode :: nat
  site_handshake :: "(unit, string) result"
  site_connected :: "(unit, string) result"

record db_site =
  db_site_lib :: rpc_lib
  db_site_net :: net_io
  db_site_io :: sqlite_io
  db_site_dir :: path

definition serve_over ::
  "rpc_lib \<Rightarrow> link \<Rightarrow> net_io \<Rightarrow> ('s, 'io) storage_backend \<Rightarrow> string option \<Rightarrow> tls_config option \<Rightarrow> u64 \<Rightarrow> 's vault \<Rightarrow>
     (('s, 'io) test_server \<Rightarrow> 's rpc_world \<Rightarrow> bool) \<Rightarrow> bool" where
  "serve_over L lk net B token tls limit vault test =
     unwrap (start_server net ''127.0.0.1:0'' token tls False limit, ()) (\<lambda>srv _.
     test \<lparr>ts_server = srv, ts_backend = B, ts_limit = limit, ts_lib = L, ts_link = lk\<rparr> (\<lparr>rpc_vault = vault, rpc_log = []\<rparr>, []))"

definition start_limited_server ::
  "ext \<Rightarrow> file_site \<Rightarrow> string option \<Rightarrow> u64 \<Rightarrow> ((fs, file_io) test_server \<Rightarrow> fs rpc_world \<Rightarrow> bool) \<Rightarrow> bool" where
  "start_limited_server E site token limit test =
     vault_in E (site_io site) (site_dir site) (site_fs site) (\<lambda>vault.
     serve_over (site_lib site) Http (site_net site) (local_file_backend E (vault_json (site_dir site))) token None limit vault test)"

definition start_test_server ::
  "ext \<Rightarrow> file_site \<Rightarrow> string option \<Rightarrow> ((fs, file_io) test_server \<Rightarrow> fs rpc_world \<Rightarrow> bool) \<Rightarrow> bool" where
  "start_test_server E site token test = start_limited_server E site token 1048576 test"

definition start_test_server_sqlite ::
  "ext \<Rightarrow> db_site \<Rightarrow> string option \<Rightarrow> ((db_file, sqlite_io) test_server \<Rightarrow> db_file rpc_world \<Rightarrow> bool) \<Rightarrow> bool" where
  "start_test_server_sqlite E site token test =
     sqlite_store_in (db_site_io site) (db_site_dir site) (\<lambda>f.
     serve_over (db_site_lib site) Http (db_site_net site) (sqlite_backend E) token None 1048576 (vault_new f) test)"

text \<open>The certificate and the key are written beside the vault file.\<close>

definition start_test_server_tls ::
  "ext \<Rightarrow> file_site \<Rightarrow> string option \<Rightarrow> ((fs, file_io) test_server \<Rightarrow> fs rpc_world \<Rightarrow> bool) \<Rightarrow> bool" where
  "start_test_server_tls E site token test =
     (let dir = site_dir site; cert = path_join dir ''cert.pem''; key = path_join dir ''key.pem'';
          d = (site_fs site)(cert \<mapsto> \<lparr>content = site_cert_pem site, mode = site_pem_mode site\<rparr>,
                             key \<mapsto> \<lparr>content = site_key_pem site, mode = site_pem_mode site\<rparr>);
          tls_cfg = \<lparr>cert_path = site_shown site cert, key_path = site_shown site key\<rparr> in
      vault_in E (site_io site) dir d (\<lambda>vault.
      serve_over (site_lib site) (Https (site_handshake site) (site_connected site)) (site_net site)
        (local_file_backend E (vault_json dir)) token (Some tls_cfg) 1048576 vault test))"

section \<open>Scripts\<close>

text \<open>
  The requests and assertions that tests over different servers share; \<open>env n\<close> is
  the environment the n-th request meets.
\<close>

type_synonym 'io envs = "nat \<Rightarrow> 'io call_env"

definition plain_params :: "json \<Rightarrow> store_proof_params" where
  "plain_params j = \<lparr>proof_json = j, expires_in_secs = None\<rparr>"

definition expect_code :: "int \<Rightarrow> ('a, client_error) result \<times> 's \<Rightarrow> bool" where
  "expect_code code r = unwrap_err r (\<lambda>err _. rpc_error_code err = Some code)"

definition lifecycle_steps ::
  "ext \<Rightarrow> string \<Rightarrow> header_map \<Rightarrow> json \<Rightarrow> 'io envs \<Rightarrow> ('s, 'io) test_server \<Rightarrow> 's rpc_world \<Rightarrow> bool" where
  "lifecycle_steps E spec headers proof_value env ts s =
     unwrap (as_string (request E spec ts headers (env 0) (CallStore (plain_params proof_value)) s)) (\<lambda>claim_id s.
     length claim_id = 64 \<and>
     unwrap (request E spec ts headers (env 1) (CallRetrieve claim_id) s) (\<lambda>result _.
     json_index result ''proof_json'' = proof_value))"

definition single_use_steps ::
  "ext \<Rightarrow> string \<Rightarrow> header_map \<Rightarrow> json \<Rightarrow> 'io envs \<Rightarrow> ('s, 'io) test_server \<Rightarrow> 's rpc_world \<Rightarrow> bool" where
  "single_use_steps E spec headers proof_value env ts s =
     unwrap (as_string (request E spec ts headers (env 0) (CallStore (plain_params proof_value)) s)) (\<lambda>claim_id s.
     unwrap (request E spec ts headers (env 1) (CallRetrieve claim_id) s) (\<lambda>_ s.
     expect_code (- 32001) (request E spec ts headers (env 2) (CallRetrieve claim_id) s)))"

definition with_ttl_steps ::
  "ext \<Rightarrow> string \<Rightarrow> 'io envs \<Rightarrow> ('s, 'io) test_server \<Rightarrow> 's rpc_world \<Rightarrow> bool" where
  "with_ttl_steps E spec env ts s =
     unwrap (as_string (request E spec ts [] (env 0)
       (CallStore \<lparr>proof_json = JObject [(''data'', JString ''with-ttl'')], expires_in_secs = Some 3600\<rparr>) s)) (\<lambda>claim_id s.
     unwrap (request E spec ts [] (env 1) (CallRetrieve claim_id) s) (\<lambda>result _.
     json_index (json_index result ''proof_json'') ''data'' = JString ''with-ttl''))"

definition abort_steps ::
  "ext \<Rightarrow> string \<Rightarrow> 'io envs \<Rightarrow> ('s, 'io) test_server \<Rightarrow> 's rpc_world \<Rightarrow> bool" where
  "abort_steps E spec env ts s =
     unwrap (as_string (request E spec ts [] (env 0)
       (CallStore (plain_params (JObject [(''root'', JString ''to-be-aborted'')]))) s)) (\<lambda>claim_id s.
     unwrap (request E spec ts [] (env 1) (CallDelete claim_id) s) (\<lambda>result s.
     result = JNull \<and>
     expect_code (- 32001) (request E spec ts [] (env 2) (CallRetrieve claim_id) s)))"

definition zero_ttl_steps ::
  "ext \<Rightarrow> string \<Rightarrow> 'io envs \<Rightarrow> ('s, 'io) test_server \<Rightarrow> 's rpc_world \<Rightarrow> bool" where
  "zero_ttl_steps E spec env ts s =
     expect_code (- 32006) (as_string (request E spec ts [] (env 0)
       (CallStore \<lparr>proof_json = JString ''expires now'', expires_in_secs = Some 0\<rparr>) s))"

text \<open>\<open>later\<close> is the environment of the request after the sleep.\<close>

definition expired_steps ::
  "ext \<Rightarrow> string \<Rightarrow> 'io envs \<Rightarrow> 'io call_env \<Rightarrow> ('s, 'io) test_server \<Rightarrow> 's rpc_world \<Rightarrow> bool" where
  "expired_steps E spec env later ts s =
     unwrap (as_string (request E spec ts [] (env 0)
       (CallStore \<lparr>proof_json = JString ''expires soon'', expires_in_secs = Some 1\<rparr>) s)) (\<lambda>claim_id s.
     unwrap_err (request E spec ts [] later (CallRetrieve claim_id) s) (\<lambda>err _.
     rpc_error_code err \<in> {Some (- 32002), Some (- 32001)}))"

definition invalid_claim_steps ::
  "ext \<Rightarrow> string \<Rightarrow> (string \<Rightarrow> rpc_call) \<Rightarrow> 'io envs \<Rightarrow> ('s, 'io) test_server \<Rightarrow> 's rpc_world \<Rightarrow> bool" where
  "invalid_claim_steps E spec call env ts s =
     expect_code (- 32003) (request E spec ts [] (env 0) (call ''not-a-valid-claim-id'') s)"

definition authed_store_steps ::
  "ext \<Rightarrow> string \<Rightarrow> header_map \<Rightarrow> json \<Rightarrow> 'io envs \<Rightarrow> ('s, 'io) test_server \<Rightarrow> 's rpc_world \<Rightarrow> bool" where
  "authed_store_steps E spec headers proof_value env ts s =
     unwrap (as_string (request E spec ts headers (env 0) (CallStore (plain_params proof_value)) s)) (\<lambda>claim_id _.
     length claim_id = 64)"

text \<open>A request sent with \<open>reqwest\<close>, whose response must be a 401 with the challenge.\<close>

definition rejected_steps ::
  "ext \<Rightarrow> string \<Rightarrow> header_map \<Rightarrow> rpc_call \<Rightarrow> 'io envs \<Rightarrow> ('s, 'io) test_server \<Rightarrow> 's rpc_world \<Rightarrow> bool" where
  "rejected_steps E spec headers call env ts s =
     unwrap (send E spec ts (env 0) \<lparr>req_headers = headers, req_body = call\<rparr> s) (\<lambda>resp _.
     status resp = 401 \<and>
     (let www_auth = (case Option.bind (map_of (resp_headers resp) ''www-authenticate'') (header_to_str E) of
          Some v \<Rightarrow> v | None \<Rightarrow> []) in
      contains ''Bearer'' www_auth))"

section \<open>The tests over the file backend\<close>

definition rooted_proof :: json where
  "rooted_proof = JObject [(''path'', JArray [JNumber (PosInt 1), JNumber (PosInt 2), JNumber (PosInt 3)]), (''root'', JString ''deadbeef'')]"

definition store_and_retrieve_via_rpc :: "ext \<Rightarrow> string \<Rightarrow> file_site \<Rightarrow> file_io envs \<Rightarrow> bool" where
  "store_and_retrieve_via_rpc E spec site env =
     start_test_server E site None (lifecycle_steps E spec [] rooted_proof env)"

definition second_retrieval_returns_not_found :: "ext \<Rightarrow> string \<Rightarrow> file_site \<Rightarrow> file_io envs \<Rightarrow> bool" where
  "second_retrieval_returns_not_found E spec site env =
     start_test_server E site None (single_use_steps E spec [] (JString ''single-use-proof'') env)"

definition retrieve_with_invalid_claim_id_returns_error :: "ext \<Rightarrow> string \<Rightarrow> file_site \<Rightarrow> file_io envs \<Rightarrow> bool" where
  "retrieve_with_invalid_claim_id_returns_error E spec site env =
     start_test_server E site None (invalid_claim_steps E spec CallRetrieve env)"

definition store_with_ttl_is_retrievable_immediately :: "ext \<Rightarrow> string \<Rightarrow> file_site \<Rightarrow> file_io envs \<Rightarrow> bool" where
  "store_with_ttl_is_retrievable_immediately E spec site env =
     start_test_server E site None (with_ttl_steps E spec env)"

text \<open>One client stores and retrieves four documents of different kinds in turn.\<close>

definition arbitrary_proofs :: "json list" where
  "arbitrary_proofs =
     [JString ''plain string proof'', JNumber (PosInt 42),
      JObject [(''array'', JArray [JNumber (PosInt 1), JNumber (PosInt 2), JNumber (PosInt 3)]),
               (''nested'', JObject [(''key'', JString ''value'')])],
      JArray [JString ''a'', JString ''b'', JString ''c'']]"

fun each_proof_steps ::
  "ext \<Rightarrow> string \<Rightarrow> json list \<Rightarrow> 'io envs \<Rightarrow> nat \<Rightarrow> ('s, 'io) test_server \<Rightarrow> 's rpc_world \<Rightarrow> bool" where
  "each_proof_steps E spec [] env n ts s = True"
| "each_proof_steps E spec (p # rest) env n ts s =
     unwrap (as_string (request E spec ts [] (env n) (CallStore (plain_params p)) s)) (\<lambda>claim_id s.
     unwrap (request E spec ts [] (env (n + 1)) (CallRetrieve claim_id) s) (\<lambda>result s.
     json_index result ''proof_json'' = p \<and> each_proof_steps E spec rest env (n + 2) ts s))"

definition proof_json_accepts_arbitrary_json_types :: "ext \<Rightarrow> string \<Rightarrow> file_site \<Rightarrow> file_io envs \<Rightarrow> bool" where
  "proof_json_accepts_arbitrary_json_types E spec site env =
     start_test_server E site None (each_proof_steps E spec arbitrary_proofs env 0)"

definition delete_proof_removes_it_and_retrieval_fails :: "ext \<Rightarrow> string \<Rightarrow> file_site \<Rightarrow> file_io envs \<Rightarrow> bool" where
  "delete_proof_removes_it_and_retrieval_fails E spec site env =
     start_test_server E site None (abort_steps E spec env)"

definition delete_proof_after_retrieval_returns_not_found :: "ext \<Rightarrow> string \<Rightarrow> file_site \<Rightarrow> file_io envs \<Rightarrow> bool" where
  "delete_proof_after_retrieval_returns_not_found E spec site env =
     start_test_server E site None (\<lambda>ts s.
       unwrap (as_string (request E spec ts [] (env 0) (CallStore (plain_params (JString ''consume-then-delete''))) s)) (\<lambda>claim_id s.
       unwrap (request E spec ts [] (env 1) (CallRetrieve claim_id) s) (\<lambda>_ s.
       expect_code (- 32001) (request E spec ts [] (env 2) (CallDelete claim_id) s))))"

definition rpc_store_proof_with_zero_ttl_returns_invalid_parameter :: "ext \<Rightarrow> string \<Rightarrow> file_site \<Rightarrow> file_io envs \<Rightarrow> bool" where
  "rpc_store_proof_with_zero_ttl_returns_invalid_parameter E spec site env =
     start_test_server E site None (zero_ttl_steps E spec env)"

definition retrieve_expired_proof_returns_proof_expired :: "ext \<Rightarrow> string \<Rightarrow> file_site \<Rightarrow> file_io envs \<Rightarrow> file_io call_env \<Rightarrow> bool" where
  "retrieve_expired_proof_returns_proof_expired E spec site env later =
     start_test_server E site None (expired_steps E spec env later)"

definition delete_with_invalid_claim_id_returns_error :: "ext \<Rightarrow> string \<Rightarrow> file_site \<Rightarrow> file_io envs \<Rightarrow> bool" where
  "delete_with_invalid_claim_id_returns_error E spec site env =
     start_test_server E site None (invalid_claim_steps E spec CallDelete env)"

definition delete_expired_proof_returns_expired_error :: "ext \<Rightarrow> string \<Rightarrow> file_site \<Rightarrow> file_io envs \<Rightarrow> file_io call_env \<Rightarrow> bool" where
  "delete_expired_proof_returns_expired_error E spec site env later =
     start_test_server E site None (\<lambda>ts s.
       unwrap (as_string (request E spec ts [] (env 0)
         (CallStore \<lparr>proof_json = JString ''expires soon'', expires_in_secs = Some 1\<rparr>) s)) (\<lambda>claim_id s.
       expect_code (- 32002) (request E spec ts [] later (CallDelete claim_id) s)))"

definition large_proof :: json where
  "large_proof = JObject [(''data'', JString (replicate 2000 (CHR ''x'')))]"

definition store_oversized_proof_returns_invalid_parameter :: "ext \<Rightarrow> string \<Rightarrow> file_site \<Rightarrow> file_io envs \<Rightarrow> bool" where
  "store_oversized_proof_returns_invalid_parameter E spec site env =
     start_limited_server E site None 1024 (\<lambda>ts s.
       expect_code (- 32006) (as_string (request E spec ts [] (env 0) (CallStore (plain_params large_proof)) s)))"

section \<open>The tests over the database\<close>

definition sqlite_store_and_retrieve_via_rpc :: "ext \<Rightarrow> string \<Rightarrow> db_site \<Rightarrow> sqlite_io envs \<Rightarrow> bool" where
  "sqlite_store_and_retrieve_via_rpc E spec site env =
     start_test_server_sqlite E site None (lifecycle_steps E spec [] rooted_proof env)"

definition sqlite_second_retrieval_returns_not_found :: "ext \<Rightarrow> string \<Rightarrow> db_site \<Rightarrow> sqlite_io envs \<Rightarrow> bool" where
  "sqlite_second_retrieval_returns_not_found E spec site env =
     start_test_server_sqlite E site None (single_use_steps E spec [] (JString ''single-use-proof'') env)"

definition sqlite_store_with_ttl_is_retrievable_immediately :: "ext \<Rightarrow> string \<Rightarrow> db_site \<Rightarrow> sqlite_io envs \<Rightarrow> bool" where
  "sqlite_store_with_ttl_is_retrievable_immediately E spec site env =
     start_test_server_sqlite E site None (with_ttl_steps E spec env)"

definition sqlite_delete_proof_removes_it_and_retrieval_fails :: "ext \<Rightarrow> string \<Rightarrow> db_site \<Rightarrow> sqlite_io envs \<Rightarrow> bool" where
  "sqlite_delete_proof_removes_it_and_retrieval_fails E spec site env =
     start_test_server_sqlite E site None (abort_steps E spec env)"

definition sqlite_store_proof_with_zero_ttl_returns_invalid_parameter :: "ext \<Rightarrow> string \<Rightarrow> db_site \<Rightarrow> sqlite_io envs \<Rightarrow> bool" where
  "sqlite_store_proof_with_zero_ttl_returns_invalid_parameter E spec site env =
     start_test_server_sqlite E site None (zero_ttl_steps E spec env)"

definition sqlite_retrieve_expired_proof_returns_error :: "ext \<Rightarrow> string \<Rightarrow> db_site \<Rightarrow> sqlite_io envs \<Rightarrow> sqlite_io call_env \<Rightarrow> bool" where
  "sqlite_retrieve_expired_proof_returns_error E spec site env later =
     start_test_server_sqlite E site None (expired_steps E spec env later)"

definition sqlite_retrieve_with_invalid_claim_id_returns_error :: "ext \<Rightarrow> string \<Rightarrow> db_site \<Rightarrow> sqlite_io envs \<Rightarrow> bool" where
  "sqlite_retrieve_with_invalid_claim_id_returns_error E spec site env =
     start_test_server_sqlite E site None (invalid_claim_steps E spec CallRetrieve env)"

section \<open>The tests of authentication, TLS and discovery\<close>

definition auth_valid_token_allows_requests :: "ext \<Rightarrow> string \<Rightarrow> file_site \<Rightarrow> file_io envs \<Rightarrow> bool" where
  "auth_valid_token_allows_requests E spec site env =
     start_test_server E site (Some TEST_TOKEN) (authed_store_steps E spec (bearer_headers TEST_TOKEN) (JString ''authed proof'') env)"

definition auth_missing_token_is_rejected :: "ext \<Rightarrow> string \<Rightarrow> file_site \<Rightarrow> file_io envs \<Rightarrow> bool" where
  "auth_missing_token_is_rejected E spec site env =
     start_test_server E site (Some TEST_TOKEN) (rejected_steps E spec [] (CallStore (plain_params (JString ''unauthenticated''))) env)"

definition auth_wrong_token_is_rejected :: "ext \<Rightarrow> string \<Rightarrow> file_site \<Rightarrow> file_io envs \<Rightarrow> bool" where
  "auth_wrong_token_is_rejected E spec site env =
     start_test_server E site (Some TEST_TOKEN) (rejected_steps E spec [(''authorization'', as_bytes ''Bearer wrong-token'')]
       (CallStore (plain_params (JString ''wrong token''))) env)"

definition auth_disabled_needs_no_token :: "ext \<Rightarrow> string \<Rightarrow> file_site \<Rightarrow> file_io envs \<Rightarrow> bool" where
  "auth_disabled_needs_no_token E spec site env =
     start_test_server E site None (authed_store_steps E spec [] (JString ''no auth needed'') env)"

definition tls_rooted_proof :: json where
  "tls_rooted_proof = JObject [(''path'', JArray [JNumber (PosInt 4), JNumber (PosInt 5), JNumber (PosInt 6)]), (''root'', JString ''cafebabe'')]"

definition tls_store_and_retrieve_via_rpc :: "ext \<Rightarrow> string \<Rightarrow> file_site \<Rightarrow> file_io envs \<Rightarrow> bool" where
  "tls_store_and_retrieve_via_rpc E spec site env =
     start_test_server_tls E site None (lifecycle_steps E spec [] tls_rooted_proof env)"

definition tls_second_retrieval_returns_not_found :: "ext \<Rightarrow> string \<Rightarrow> file_site \<Rightarrow> file_io envs \<Rightarrow> bool" where
  "tls_second_retrieval_returns_not_found E spec site env =
     start_test_server_tls E site None (single_use_steps E spec [] (JString ''tls-single-use'') env)"

definition tls_auth_valid_token_allows_requests :: "ext \<Rightarrow> string \<Rightarrow> file_site \<Rightarrow> file_io envs \<Rightarrow> bool" where
  "tls_auth_valid_token_allows_requests E spec site env =
     start_test_server_tls E site (Some TEST_TOKEN) (authed_store_steps E spec (bearer_headers TEST_TOKEN) (JString ''tls authed proof'') env)"

definition tls_auth_missing_token_is_rejected :: "ext \<Rightarrow> string \<Rightarrow> file_site \<Rightarrow> file_io envs \<Rightarrow> bool" where
  "tls_auth_missing_token_is_rejected E spec site env =
     start_test_server_tls E site (Some TEST_TOKEN) (\<lambda>ts s.
       is_err (fst (as_string (request E spec ts [] (env 0) (CallStore (plain_params (JString ''unauthenticated over tls''))) s))))"

definition discover_returns_valid_openrpc_schema :: "ext \<Rightarrow> string \<Rightarrow> file_site \<Rightarrow> file_io envs \<Rightarrow> bool" where
  "discover_returns_valid_openrpc_schema E spec site env =
     start_test_server E site (Some TEST_TOKEN) (\<lambda>ts s.
       unwrap (request E spec ts (bearer_headers TEST_TOKEN) (env 0) CallDiscover s) (\<lambda>result _.
       json_as_str (json_index result ''openrpc'') \<noteq> None \<and> json_is_object (json_index result ''info'') \<and>
       (case json_as_array (json_index result ''methods'') of None \<Rightarrow> False | Some ms \<Rightarrow> ms \<noteq> [])))"

definition discover_requires_auth :: "ext \<Rightarrow> string \<Rightarrow> file_site \<Rightarrow> file_io envs \<Rightarrow> bool" where
  "discover_requires_auth E spec site env =
     start_test_server E site (Some TEST_TOKEN) (rejected_steps E spec [] CallDiscover env)"

end
