(* ===== verification/Service_Test_Runs.thy ===== *)
theory Service_Test_Runs
  imports Service_Tests
begin

text \<open>
  The runs of the integration tests: what a request does on a server whose storage calls
  do not fail, the scripts of \<open>Service_Tests\<close> proved once over any calm backend, and
  the tests themselves over the file and the database.
\<close>

section \<open>What a request does\<close>

text \<open>The headers with which the layer lets a request through.\<close>

definition admits :: "ext \<Rightarrow> bearer_auth_layer \<Rightarrow> header_map \<Rightarrow> bool" where
  "admits E l headers \<longleftrightarrow>
     (case layer_token l of
        None \<Rightarrow> True
      | Some t \<Rightarrow> (case provided_token E \<lparr>req_headers = headers, req_body = ()\<rparr> of
          Some p \<Rightarrow> ct_eq E p (as_bytes t) | None \<Rightarrow> False))"

definition rpc_error :: "vault_error \<Rightarrow> error_object" where
  "rpc_error e = \<lparr>err_code = rpc_code e, err_message = vault_error_display e, err_data = None\<rparr>"

text \<open>A server as \<open>start_server\<close> leaves it, and a client whose link to it works.\<close>

definition wired :: "ext \<Rightarrow> ('s, 'io) test_server \<Rightarrow> bool" where
  "wired E ts \<longleftrightarrow> rpc_lib_laws E (ts_lib ts) \<and> json_size_laws E \<and> link_ok (ts_link ts) (ts_server ts) \<and>
     methods (ts_server ts) = vault_methods @ discovery_module \<and>
     unat (body_limit (ts_server ts)) = unat (ts_limit ts) + 4096"

lemma request_reaches_layer:
  assumes "wired E ts"
  shows "send E spec ts env \<lparr>req_headers = headers, req_body = call\<rparr> s =
    svc_call (bearer_layer E NoReply (auth_layer (ts_server ts))
      (wire_service E spec (ts_lib ts) (ts_server ts) (standard_vault E (ts_backend ts)) (ts_limit ts) env))
      \<lparr>req_headers = headers, req_body = frame (ts_lib ts) (fst (client_call call)) (snd (client_call call))\<rparr> s"
  using assms link_ok_reaches [of E "ts_lib ts" "ts_link ts" "ts_server ts"] by (simp add: send_def wired_def)

lemma request_reaches_handler:
  assumes "admits E (auth_layer (ts_server ts)) headers" "wired E ts" "call_value call" "call_fits E (unat (ts_limit ts)) call"
  shows "send E spec ts env \<lparr>req_headers = headers, req_body = call\<rparr> s =
    svc_call (vault_service E spec (standard_vault E (ts_backend ts)) (ts_limit ts) env) \<lparr>req_headers = headers, req_body = call\<rparr> s"
proof -
  let ?body = "frame (ts_lib ts) (fst (client_call call)) (snd (client_call call))"
  let ?inner = "wire_service E spec (ts_lib ts) (ts_server ts) (standard_vault E (ts_backend ts)) (ts_limit ts) env"
  have "svc_call (bearer_layer E NoReply (auth_layer (ts_server ts)) ?inner) \<lparr>req_headers = headers, req_body = ?body\<rparr> s =
      svc_call ?inner \<lparr>req_headers = headers, req_body = ?body\<rparr> s"
    using assms(1) by (auto simp: bearer_layer_def bearer_call_def admits_def provided_token_def split: option.splits)
  also have "\<dots> = svc_call (vault_service E spec (standard_vault E (ts_backend ts)) (ts_limit ts) env) \<lparr>req_headers = headers, req_body = call\<rparr> s"
    using assms(2) by (intro wire_dispatches [OF _ _ _ _ assms(3,4)]) (simp_all add: wired_def)
  finally show ?thesis
    unfolding request_reaches_layer [OF assms(2)] .
qed

lemma map_rpc_err_eq: "map_rpc_err (r, st) = (map_err rpc_error r, snd (map_rpc_err (r, st)))"
  by (cases r) (auto simp: vault_to_rpc_err_def rpc_error_def Let_def)

lemma rpc_store_eq:
  assumes "serde_json_laws E" "length (serde_to_string E (proof_json params)) \<le> unat limit"
    and "pv_store_proof PV env (proof_from_bytes (as_bytes (serde_to_string E (proof_json params)))) (expires_in_secs params)
      (rpc_vault st) = (r, v)"
  obtains st' where "rpc_store_proof E PV limit env params st = (map_err rpc_error r, st')" "rpc_vault st' = v"
proof -
  have "rpc_store_proof E PV limit env params st = map_rpc_err (r, st\<lparr>rpc_vault := v\<rparr>)"
    using assms by (simp add: rpc_store_proof_def Let_def proof_from_json_Ok)
  then show thesis
    using that map_rpc_err_eq [of r "st\<lparr>rpc_vault := v\<rparr>"] by simp
qed

lemma rpc_delete_eq:
  assumes "pv_delete_proof PV env tok (rpc_vault st) = (r, v)"
  obtains st' where "rpc_delete_proof PV env tok st = (map_err rpc_error r, st')" "rpc_vault st' = v"
proof -
  have "rpc_delete_proof PV env tok st = map_rpc_err (r, st\<lparr>rpc_vault := v\<rparr>)"
    using assms by (simp add: rpc_delete_proof_def)
  then show thesis
    using that map_rpc_err_eq [of r "st\<lparr>rpc_vault := v\<rparr>"] by simp
qed

lemma rpc_retrieve_eq:
  assumes "pv_retrieve_proof PV env tok (rpc_vault st) = (r, v)" "\<forall>p. r = Ok p \<longrightarrow> proof_into_json E p = Ok j"
  obtains st' where "rpc_retrieve_proof E PV env tok st = (map_err rpc_error (bind_res r (\<lambda>_. Ok \<lparr>object_json = j\<rparr>)), st')" "rpc_vault st' = v"
proof (cases r)
  case (Ok p)
  then show thesis
    using assms that [of "st\<lparr>rpc_vault := v\<rparr>"] by (simp add: rpc_retrieve_proof_def)
next
  case (Err e)
  then show thesis
    using assms that [of "snd (vault_to_rpc_err e (st\<lparr>rpc_vault := v\<rparr>))"]
    by (simp add: rpc_retrieve_proof_def vault_to_rpc_err_def rpc_error_def Let_def)
next
  case (Panic m)
  then show thesis
    using assms that [of "st\<lparr>rpc_vault := v\<rparr>"] by (simp add: rpc_retrieve_proof_def)
qed


text \<open>A call whose random values have their lengths and whose storage calls are among those that do not fail.\<close>

definition ready :: "'io set \<Rightarrow> 'io call_env \<Rightarrow> bool" where
  "ready Q env \<longleftrightarrow> env_ok env \<and> io_first env \<in> Q \<and> io_second env \<in> Q"

lemma standard_vault_sel [simp]:
  "pv_store_proof (standard_vault E B) = store_proof E B" "pv_retrieve_proof (standard_vault E B) = retrieve_proof E B"
  "pv_delete_proof (standard_vault E B) = delete_proof E B"
  by (simp_all add: standard_vault_def)

text \<open>
  A server over \<open>B\<close> that lets requests with these headers through, its storage
  standing for the store \<open>m\<close>.
\<close>

definition calm_server ::
  "ext \<Rightarrow> ('s, 'io) storage_backend \<Rightarrow> (store \<Rightarrow> 's \<Rightarrow> bool) \<Rightarrow> header_map \<Rightarrow> ('s, 'io) test_server \<Rightarrow> store \<Rightarrow> 's rpc_world \<Rightarrow> bool" where
  "calm_server E B standing headers ts m s \<longleftrightarrow> serde_json_laws E \<and> wired E ts \<and> ts_backend ts = B \<and>
     admits E (auth_layer (ts_server ts)) headers \<and> standing m (storage (rpc_vault (fst s)))"

context calm_backend
begin

lemma calm_request_store:
  assumes "calm_server E B (calm Q) headers ts m s" "ready Q env" "store_ok storable E env ttl"
    and "is_value j" "length (serde_to_string E j) \<le> unat (ts_limit ts)"
    and "spec_store E env (proof_from_bytes (as_bytes (serde_to_string E j))) ttl m = (r, m')"
  obtains s' where "request E spec ts headers env (CallStore \<lparr>proof_json = j, expires_in_secs = ttl\<rparr>) s =
      (call_outcome JString (map_err rpc_error r), s')" "calm_server E B (calm Q) headers ts m' s'"
proof -
  obtain st log where s: "s = (st, log)" by (cases s)
  have c: "serde_json_laws E" "ts_backend ts = B" "admits E (auth_layer (ts_server ts)) headers" "calm Q m (storage (rpc_vault st))"
    "wired E ts"
    using assms(1) s by (auto simp: calm_server_def)
  obtain v' where v: "store_proof E B env (proof_from_bytes (as_bytes (serde_to_string E j))) ttl (rpc_vault st) = (r, v')"
    "calm Q m' (storage v')"
    by (rule calm_store [OF c(4) assms(3) _ _ assms(6)]) (use assms(2) in \<open>auto simp: ready_def\<close>)
  obtain st' where "rpc_store_proof E (standard_vault E B) (ts_limit ts) env \<lparr>proof_json = j, expires_in_secs = ttl\<rparr> st =
      (map_err rpc_error r, st')" "rpc_vault st' = v'"
    by (rule rpc_store_eq [where params = "\<lparr>proof_json = j, expires_in_secs = ttl\<rparr>" and PV = "standard_vault E B", OF c(1)])
      (use assms(5) v(1) in auto)
  moreover have "call_value (CallStore \<lparr>proof_json = j, expires_in_secs = ttl\<rparr>)"
    "call_fits E (unat (ts_limit ts)) (CallStore \<lparr>proof_json = j, expires_in_secs = ttl\<rparr>)"
    using assms(4,5) by (simp_all add: call_value_def call_fits_def)
  ultimately show thesis
    using that [of "(st', log)"] c v(2)
    by (simp add: request_def request_reaches_handler s vault_service_def client_result_def calm_server_def)
qed

lemma calm_request_retrieve:
  assumes "calm_server E B (calm Q) headers ts m s" "ready Q env" "length tok \<le> 64" "\<forall>p. r = Ok p \<longrightarrow> proof_into_json E p = Ok j"
    and "spec_retrieve E (now_check env) tok m = (r, m')"
  obtains s' where "request E spec ts headers env (CallRetrieve tok) s =
      (call_outcome (\<lambda>_. JObject [(''proof_json'', j)]) (map_err rpc_error r), s')" "calm_server E B (calm Q) headers ts m' s'"
proof -
  obtain st log where s: "s = (st, log)" by (cases s)
  have c: "serde_json_laws E" "ts_backend ts = B" "admits E (auth_layer (ts_server ts)) headers" "calm Q m (storage (rpc_vault st))"
    "wired E ts"
    using assms(1) s by (auto simp: calm_server_def)
  obtain v' where v: "retrieve_proof E B env tok (rpc_vault st) = (r, v')" "calm Q m' (storage v')"
    by (rule calm_retrieve [OF c(4) _ _ assms(5)]) (use assms(2) in \<open>auto simp: ready_def\<close>)
  obtain st' where "rpc_retrieve_proof E (standard_vault E B) env tok st =
      (map_err rpc_error (bind_res r (\<lambda>_. Ok \<lparr>object_json = j\<rparr>)), st')" "rpc_vault st' = v'"
    by (rule rpc_retrieve_eq [where PV = "standard_vault E B", OF _ assms(4)]) (use v(1) in auto)
  moreover have "call_value (CallRetrieve tok)" "call_fits E (unat (ts_limit ts)) (CallRetrieve tok)"
    using assms(3) by (simp_all add: call_value_def call_fits_def)
  ultimately show thesis
    using that [of "(st', log)"] c v(2)
    by (cases r) (simp_all add: request_def request_reaches_handler s vault_service_def client_result_def calm_server_def)
qed

lemma calm_request_delete:
  assumes "calm_server E B (calm Q) headers ts m s" "ready Q env" "length tok \<le> 64" "spec_delete E (now_check env) tok m = (r, m')"
  obtains s' where "request E spec ts headers env (CallDelete tok) s =
      (call_outcome (\<lambda>_. JNull) (map_err rpc_error r), s')" "calm_server E B (calm Q) headers ts m' s'"
proof -
  obtain st log where s: "s = (st, log)" by (cases s)
  have c: "serde_json_laws E" "ts_backend ts = B" "admits E (auth_layer (ts_server ts)) headers" "calm Q m (storage (rpc_vault st))"
    "wired E ts"
    using assms(1) s by (auto simp: calm_server_def)
  obtain v' where v: "delete_proof E B env tok (rpc_vault st) = (r, v')" "calm Q m' (storage v')"
    by (rule calm_remove [OF c(4) _ _ assms(4)]) (use assms(2) in \<open>auto simp: ready_def\<close>)
  obtain st' where "rpc_delete_proof (standard_vault E B) env tok st = (map_err rpc_error r, st')" "rpc_vault st' = v'"
    by (rule rpc_delete_eq [where PV = "standard_vault E B"]) (use v(1) in auto)
  moreover have "call_value (CallDelete tok)" "call_fits E (unat (ts_limit ts)) (CallDelete tok)"
    using assms(3) by (simp_all add: call_value_def call_fits_def)
  ultimately show thesis
    using that [of "(st', log)"] c v(2)
    by (simp add: request_def request_reaches_handler s vault_service_def client_result_def calm_server_def)
qed

end

section \<open>What a request answers\<close>

text \<open>The record of the claim issued in \<open>env\<close> is held and opens to the text of the document \<open>j\<close>.\<close>

definition issued :: "ext \<Rightarrow> 'io call_env \<Rightarrow> json \<Rightarrow> datetime option \<Rightarrow> store \<Rightarrow> bool" where
  "issued E env j ex m \<longleftrightarrow> (\<exists>ct. m (new_uuid env) = Some (issued_record env ct ex) \<and>
     open_record E (claim_of env) (issued_record env ct ex) = Some (as_bytes (serde_to_string E j)))"

lemma spec_store_issues:
  assumes "aead_laws E" "env_ok env" "length (serde_to_string E j) \<le> 2 ^ 36" "ttl \<noteq> Some 0"
    and "transpose_res (map_option (expiry_at E (now_expiry env)) ttl) = Ok ex"
  obtains m' where "spec_store E env (proof_from_bytes (as_bytes (serde_to_string E j))) ttl m =
      (Ok (claim_id_encode E (claim_of env)), m')" "issued E env j ex m'" "m'(new_uuid env := None) = m(new_uuid env := None)"
proof -
  have e: "length (gen_key env) = 32" "length (gen_nonce env) = 12" using assms(2) by (auto simp: env_ok_def)
  obtain ct where ct: "aes_gcm_encrypt E (gen_key env) (gen_nonce env) (as_bytes (serde_to_string E j)) = Some ct"
    "aes_gcm_decrypt E (gen_key env) (gen_nonce env) ct = Some (as_bytes (serde_to_string E j))"
    by (rule aead_encrypts [OF assms(1) e]) (use assms(3) in \<open>auto simp: as_bytes_def\<close>)
  show thesis
    by (rule that [of "m(new_uuid env \<mapsto> issued_record env ct ex)"])
      (use ct assms(4,5) e in \<open>auto simp: spec_store_def proof_from_bytes_def issued_def open_record_def issued_record_def claim_id_new_def\<close>)
qed

lemma issued_claim:
  assumes "base64_url_laws E" "env_ok env" "issued E env j ex m"
  shows "\<forall>u. ex = Some u \<longrightarrow> now \<le> u \<Longrightarrow>
      spec_retrieve E now (claim_id_encode E (claim_of env)) m =
        (Ok (proof_from_bytes (as_bytes (serde_to_string E j))), m(new_uuid env := None))"
    and "\<forall>u. ex = Some u \<longrightarrow> now \<le> u \<Longrightarrow>
      spec_delete E now (claim_id_encode E (claim_of env)) m = (Ok (), m(new_uuid env := None))"
    and "ex = Some u \<Longrightarrow> u < now \<Longrightarrow>
      spec_retrieve E now (claim_id_encode E (claim_of env)) m = (Err ProofExpired, m(new_uuid env := None))"
    and "ex = Some u \<Longrightarrow> u < now \<Longrightarrow>
      spec_delete E now (claim_id_encode E (claim_of env)) m = (Err ProofExpired, m(new_uuid env := None))"
proof -
  have d: "claim_id_decode E (claim_id_encode E (claim_of env)) = Ok (claim_of env)"
    by (rule decode_encode [OF assms(1)]) (use assms(2) in \<open>auto simp: env_ok_def\<close>)
  obtain ct where m: "m (new_uuid env) = Some (issued_record env ct ex)"
    and o: "open_record E (claim_of env) (issued_record env ct ex) = Some (as_bytes (serde_to_string E j))"
    using assms(3) by (auto simp: issued_def)
  have rid: "record_id (claim_of env) = new_uuid env" by (simp add: claim_id_new_def)
  have late: "is_expired now (issued_record env ct ex) \<longleftrightarrow> (\<exists>u. ex = Some u \<and> u < now)"
    by (auto simp: is_expired_def issued_record_def split: option.splits)
  note specs = spec_retrieve_def spec_delete_def d rid m o
  show "spec_retrieve E now (claim_id_encode E (claim_of env)) m =
        (Ok (proof_from_bytes (as_bytes (serde_to_string E j))), m(new_uuid env := None))"
    "spec_delete E now (claim_id_encode E (claim_of env)) m = (Ok (), m(new_uuid env := None))"
    if "\<forall>u. ex = Some u \<longrightarrow> now \<le> u"
  proof -
    have "\<not> is_expired now (issued_record env ct ex)" using late that by force
    then show "spec_retrieve E now (claim_id_encode E (claim_of env)) m =
        (Ok (proof_from_bytes (as_bytes (serde_to_string E j))), m(new_uuid env := None))"
      "spec_delete E now (claim_id_encode E (claim_of env)) m = (Ok (), m(new_uuid env := None))"
      by (simp_all add: specs)
  qed
  show "spec_retrieve E now (claim_id_encode E (claim_of env)) m = (Err ProofExpired, m(new_uuid env := None))"
    "spec_delete E now (claim_id_encode E (claim_of env)) m = (Err ProofExpired, m(new_uuid env := None))"
    if "ex = Some u" "u < now"
  proof -
    have "is_expired now (issued_record env ct ex)" using late that by simp
    then show "spec_retrieve E now (claim_id_encode E (claim_of env)) m = (Err ProofExpired, m(new_uuid env := None))"
      "spec_delete E now (claim_id_encode E (claim_of env)) m = (Err ProofExpired, m(new_uuid env := None))"
      by (simp_all add: specs)
  qed
qed

lemma claim_token_short:
  "\<lbrakk>base64_url_laws E; env_ok env\<rbrakk> \<Longrightarrow> length (claim_id_encode E (claim_of env)) \<le> 64"
  by (subst encode_length) (auto simp: env_ok_def)

lemma missing_claim:
  assumes "base64_url_laws E" "env_ok env" "m (new_uuid env) = None"
  shows "spec_retrieve E now (claim_id_encode E (claim_of env)) m = (Err ProofNotFound, m)"
    and "spec_delete E now (claim_id_encode E (claim_of env)) m = (Err ProofNotFound, m)"
proof -
  have "claim_id_decode E (claim_id_encode E (claim_of env)) = Ok (claim_of env)"
    by (rule decode_encode [OF assms(1)]) (use assms(2) in \<open>auto simp: env_ok_def\<close>)
  then show "spec_retrieve E now (claim_id_encode E (claim_of env)) m = (Err ProofNotFound, m)"
    "spec_delete E now (claim_id_encode E (claim_of env)) m = (Err ProofNotFound, m)"
    using assms(3) by (simp_all add: spec_retrieve_def spec_delete_def claim_id_new_def)
qed

lemma invalid_claim:
  assumes "base64_url_laws E" "length tok \<noteq> 64"
  shows "spec_retrieve E now tok m = (Err InvalidClaimId, m)" and "spec_delete E now tok m = (Err InvalidClaimId, m)"
  using decode_length [OF assms] by (cases "claim_id_decode E tok"; simp add: spec_retrieve_def spec_delete_def)+

text \<open>What the scripts rely on: the laws, calls that do not fail, clock readings within a second.\<close>

definition script_setting :: "(stored_record \<Rightarrow> bool) \<Rightarrow> ext \<Rightarrow> 'io set \<Rightarrow> datetime \<Rightarrow> 'io envs \<Rightarrow> bool" where
  "script_setting storable E Q T env \<longleftrightarrow> base64_url_laws E \<and> aead_laws E \<and> chrono_arith_laws E \<and> test_time E T \<and>
     (\<forall>n. ready Q (env n) \<and> within_test T (now_expiry (env n)) \<and> within_test T (now_check (env n)) \<and>
        (\<forall>ttl \<in> {None, Some 0, Some 1, Some 3600}. store_ok storable E (env n) ttl))"

definition document :: "ext \<Rightarrow> u64 \<Rightarrow> json \<Rightarrow> bool" where
  "document E limit j \<longleftrightarrow> json_exact j \<and> is_value j \<and> length (serde_to_string E j) \<le> unat limit \<and>
     length (serde_to_string E j) \<le> 2 ^ 36"

definition lifetime :: "'io call_env \<Rightarrow> u64 option \<Rightarrow> datetime option" where
  "lifetime env ttl = map_option (\<lambda>secs. now_expiry env + int (unat secs) * 1000000000) ttl"

lemma script_expiry:
  assumes "script_setting storable E Q T env" "ttl \<in> {None, Some 1, Some 3600}"
  shows "transpose_res (map_option (expiry_at E (now_expiry (env n))) ttl) = Ok (lifetime (env n) ttl)"
proof -
  have "chrono_arith_laws E" "test_time E T" "within_test T (now_expiry (env n))"
    using assms(1) by (auto simp: script_setting_def)
  then show ?thesis
    using assms(2) by (auto simp: lifetime_def chrono_arith_laws_def max_duration_seconds_def expiry_at_def test_time_def within_test_def)
qed

context calm_backend
begin

lemma request_issues:
  assumes set: "script_setting storable E Q T env" and srv: "calm_server E B (calm Q) headers ts m s"
    and doc: "document E (ts_limit ts) j" and ttl: "ttl \<in> {None, Some 1, Some 3600}"
  obtains m' s' where
    "as_string (request E spec ts headers (env n) (CallStore \<lparr>proof_json = j, expires_in_secs = ttl\<rparr>) s) =
      (Ok (claim_id_encode E (claim_of (env n))), s')"
    "calm_server E B (calm Q) headers ts m' s'" "issued E (env n) j (lifetime (env n) ttl) m'"
    "m'(new_uuid (env n) := None) = m(new_uuid (env n) := None)"
proof -
  have e: "aead_laws E" "ready Q (env n)" "env_ok (env n)" "store_ok storable E (env n) ttl" "ttl \<noteq> Some 0"
    using set ttl by (auto simp: script_setting_def ready_def)
  have len: "length (serde_to_string E j) \<le> unat (ts_limit ts)" "length (serde_to_string E j) \<le> 2 ^ 36" "is_value j"
    using doc by (auto simp: document_def)
  obtain m' where m': "spec_store E (env n) (proof_from_bytes (as_bytes (serde_to_string E j))) ttl m =
      (Ok (claim_id_encode E (claim_of (env n))), m')" "issued E (env n) j (lifetime (env n) ttl) m'"
    "m'(new_uuid (env n) := None) = m(new_uuid (env n) := None)"
    by (rule spec_store_issues [OF e(1,3) len(2) e(5) script_expiry [OF set ttl]])
  show thesis
    by (rule calm_request_store [OF srv e(2,4) len(3,1) m'(1), of spec]) (use that m'(2,3) in auto)
qed

lemma request_delivers:
  assumes set: "script_setting storable E Q T env" and srv: "calm_server E B (calm Q) headers ts m s"
    and doc: "document E limit j" and m: "issued E (env n) j ex m" and env': "ready Q env'" "\<forall>u. ex = Some u \<longrightarrow> now_check env' \<le> u"
  obtains s' where "request E spec ts headers env' (CallRetrieve (claim_id_encode E (claim_of (env n)))) s =
      (Ok (JObject [(''proof_json'', j)]), s')" "calm_server E B (calm Q) headers ts (m(new_uuid (env n) := None)) s'"
proof -
  have laws: "base64_url_laws E" "env_ok (env n)" "serde_json_laws E"
    using set srv by (simp_all add: script_setting_def ready_def calm_server_def)
  have into: "proof_into_json E (proof_from_bytes (as_bytes (serde_to_string E j))) = Ok j"
    using doc laws(3) by (simp add: document_def proof_into_json_def proof_from_bytes_def serde_json_laws_def value_from_slice_def is_value_def)
  show thesis
    by (rule calm_request_retrieve [OF srv env'(1) claim_token_short [OF laws(1,2)] _ issued_claim(1) [OF laws(1,2) m env'(2)], where j = j and spec = spec])
      (simp_all add: that into)
qed

lemma request_aborts:
  assumes set: "script_setting storable E Q T env" and srv: "calm_server E B (calm Q) headers ts m s"
    and m: "issued E (env n) j ex m" and env': "ready Q env'" "\<forall>u. ex = Some u \<longrightarrow> now_check env' \<le> u"
  obtains s' where "request E spec ts headers env' (CallDelete (claim_id_encode E (claim_of (env n)))) s = (Ok JNull, s')"
    "calm_server E B (calm Q) headers ts (m(new_uuid (env n) := None)) s'"
proof -
  have laws: "base64_url_laws E" "env_ok (env n)"
    using set by (auto simp: script_setting_def ready_def)
  show thesis
    by (rule calm_request_delete [OF srv env'(1) claim_token_short [OF laws] issued_claim(2) [OF laws m env'(2)], of spec]) (use that in auto)
qed

lemma request_refused:
  assumes srv: "calm_server E B (calm Q) headers ts m s" and env': "ready Q env'" and short: "length tok \<le> 64"
  shows "spec_retrieve E (now_check env') tok m = (Err e, m') \<Longrightarrow>
      \<exists>s'. request E spec ts headers env' (CallRetrieve tok) s = (Err (Call (rpc_error e)), s')"
    and "spec_delete E (now_check env') tok m = (Err e, m') \<Longrightarrow>
      \<exists>s'. request E spec ts headers env' (CallDelete tok) s = (Err (Call (rpc_error e)), s')"
proof -
  assume "spec_retrieve E (now_check env') tok m = (Err e, m')"
  then show "\<exists>s'. request E spec ts headers env' (CallRetrieve tok) s = (Err (Call (rpc_error e)), s')"
    by (rule calm_request_retrieve [OF srv env' short, rotated, where j = JNull and spec = spec]) auto
next
  assume "spec_delete E (now_check env') tok m = (Err e, m')"
  then show "\<exists>s'. request E spec ts headers env' (CallDelete tok) s = (Err (Call (rpc_error e)), s')"
    by (elim calm_request_delete [OF srv env' short, where spec = spec]) auto
qed

section \<open>The scripts pass\<close>

lemma script_facts:
  assumes "script_setting storable E Q T env"
  shows "base64_url_laws E" "env_ok (env n)" "ready Q (env n)" "now_check (env k) \<le> now_expiry (env n) + 1000000000"
    "length (claim_id_encode E (claim_of (env n))) = 64"
proof -
  show laws: "base64_url_laws E" "env_ok (env n)" "ready Q (env n)"
    using assms by (simp_all add: script_setting_def ready_def)
  have "within_test T (now_check (env k))" "within_test T (now_expiry (env n))"
    using assms by (simp_all add: script_setting_def)
  then show "now_check (env k) \<le> now_expiry (env n) + 1000000000"
    by (simp add: within_test_def)
  show "length (claim_id_encode E (claim_of (env n))) = 64"
    by (rule encode_length [OF laws(1)]) (use laws(2) in \<open>auto simp: env_ok_def\<close>)
qed

lemma in_time:
  assumes "script_setting storable E Q T env" "ttl \<in> {None, Some 3600}" "lifetime (env n) ttl = Some u"
  shows "now_check (env k) \<le> u"
  using script_facts(4) [OF assms(1), of k n] assms(2,3) by (auto simp: lifetime_def)

lemma store_then_retrieve:
  assumes set: "script_setting storable E Q T env" and srv: "calm_server E B (calm Q) headers ts m s"
    and doc: "document E (ts_limit ts) j" and ttl: "ttl \<in> {None, Some 3600}"
  obtains s1 s2 where
    "as_string (request E spec ts headers (env n) (CallStore \<lparr>proof_json = j, expires_in_secs = ttl\<rparr>) s) =
      (Ok (claim_id_encode E (claim_of (env n))), s1)"
    "request E spec ts headers (env k) (CallRetrieve (claim_id_encode E (claim_of (env n)))) s1 = (Ok (JObject [(''proof_json'', j)]), s2)"
    "calm_server E B (calm Q) headers ts (m(new_uuid (env n) := None)) s2"
proof -
  have ttl': "ttl \<in> {None, Some 1, Some 3600}" using ttl by auto
  obtain m' s1 where s1: "as_string (request E spec ts headers (env n) (CallStore \<lparr>proof_json = j, expires_in_secs = ttl\<rparr>) s) =
      (Ok (claim_id_encode E (claim_of (env n))), s1)"
    "calm_server E B (calm Q) headers ts m' s1" "issued E (env n) j (lifetime (env n) ttl) m'"
    "m'(new_uuid (env n) := None) = m(new_uuid (env n) := None)"
    by (rule request_issues [OF set srv doc ttl'])
  have time: "\<forall>u. lifetime (env n) ttl = Some u \<longrightarrow> now_check (env k) \<le> u"
    using in_time [OF set ttl] by blast
  show thesis
    by (rule request_delivers [OF set s1(2) doc s1(3) script_facts(3) [OF set] time, where spec = spec])
      (use that s1 in auto)
qed

lemma lifecycle_passes:
  assumes "script_setting storable E Q T env" "calm_server E B (calm Q) headers ts m s" "document E (ts_limit ts) j"
  shows "lifecycle_steps E spec headers j env ts s" "authed_store_steps E spec headers j env ts s"
proof -
  obtain s1 s2 where "as_string (request E spec ts headers (env 0) (CallStore (plain_params j)) s) = (Ok (claim_id_encode E (claim_of (env 0))), s1)"
    "request E spec ts headers (env 1) (CallRetrieve (claim_id_encode E (claim_of (env 0)))) s1 = (Ok (JObject [(''proof_json'', j)]), s2)"
    unfolding plain_params_def by (rule store_then_retrieve [OF assms]) auto
  then show "lifecycle_steps E spec headers j env ts s" "authed_store_steps E spec headers j env ts s"
    using script_facts(5) [OF assms(1), of 0] by (simp_all add: lifecycle_steps_def authed_store_steps_def)
qed

lemma with_ttl_passes:
  assumes "script_setting storable E Q T env" "calm_server E B (calm Q) [] ts m s"
    and "document E (ts_limit ts) (JObject [(''data'', JString ''with-ttl'')])"
  shows "with_ttl_steps E spec env ts s"
proof -
  obtain s1 s2 where "as_string (request E spec ts [] (env 0)
      (CallStore \<lparr>proof_json = JObject [(''data'', JString ''with-ttl'')], expires_in_secs = Some 3600\<rparr>) s) = (Ok (claim_id_encode E (claim_of (env 0))), s1)"
    "request E spec ts [] (env 1) (CallRetrieve (claim_id_encode E (claim_of (env 0)))) s1 =
      (Ok (JObject [(''proof_json'', JObject [(''data'', JString ''with-ttl'')])]), s2)"
    by (rule store_then_retrieve [OF assms, of "Some 3600"]) auto
  then show ?thesis by (simp add: with_ttl_steps_def)
qed

lemma single_use_passes:
  assumes set: "script_setting storable E Q T env" and srv: "calm_server E B (calm Q) headers ts Map.empty s"
    and doc: "document E (ts_limit ts) j"
  shows "single_use_steps E spec headers j env ts s"
    and "unwrap (as_string (request E spec ts headers (env 0) (CallStore (plain_params j)) s)) (\<lambda>claim_id s.
       unwrap (request E spec ts headers (env 1) (CallRetrieve claim_id) s) (\<lambda>_ s.
       expect_code (- 32001) (request E spec ts headers (env 2) (CallDelete claim_id) s)))"
proof -
  let ?tok = "claim_id_encode E (claim_of (env 0))"
  obtain s1 s2 where s: "as_string (request E spec ts headers (env 0) (CallStore (plain_params j)) s) = (Ok ?tok, s1)"
    "request E spec ts headers (env 1) (CallRetrieve ?tok) s1 = (Ok (JObject [(''proof_json'', j)]), s2)"
    "calm_server E B (calm Q) headers ts Map.empty s2"
    unfolding plain_params_def by (rule store_then_retrieve [OF set srv doc, of None]) auto
  note gone = missing_claim [OF script_facts(1,2) [OF set], of Map.empty 0]
  note again = request_refused [OF s(3) script_facts(3) [OF set, of 2] claim_token_short [OF script_facts(1,2) [OF set]], where spec = spec]
  show "single_use_steps E spec headers j env ts s"
    using s(1,2) again(1) [OF gone(1)] by (auto simp: single_use_steps_def expect_code_def rpc_error_def)
  show "unwrap (as_string (request E spec ts headers (env 0) (CallStore (plain_params j)) s)) (\<lambda>claim_id s.
       unwrap (request E spec ts headers (env 1) (CallRetrieve claim_id) s) (\<lambda>_ s.
       expect_code (- 32001) (request E spec ts headers (env 2) (CallDelete claim_id) s)))"
    using s(1,2) again(2) [OF gone(2)] by (auto simp: expect_code_def rpc_error_def)
qed

lemma abort_passes:
  assumes set: "script_setting storable E Q T env" and srv: "calm_server E B (calm Q) [] ts Map.empty s"
    and doc: "document E (ts_limit ts) (JObject [(''root'', JString ''to-be-aborted'')])"
  shows "abort_steps E spec env ts s"
proof -
  let ?j = "JObject [(''root'', JString ''to-be-aborted'')]" and ?tok = "claim_id_encode E (claim_of (env 0))"
  obtain m1 s1 where s1: "as_string (request E spec ts [] (env 0) (CallStore (plain_params ?j)) s) = (Ok ?tok, s1)"
    "calm_server E B (calm Q) [] ts m1 s1" "issued E (env 0) ?j (lifetime (env 0) None) m1"
    "m1(new_uuid (env 0) := None) = Map.empty"
    unfolding plain_params_def by (rule request_issues [OF set srv doc, of None spec 0]) auto
  obtain s2 where s2: "request E spec ts [] (env 1) (CallDelete ?tok) s1 = (Ok JNull, s2)"
    "calm_server E B (calm Q) [] ts Map.empty s2"
    by (rule request_aborts [OF set s1(2,3) script_facts(3) [OF set, of 1], where spec = spec])
      (use in_time [OF set, of None] s1(4) in auto)
  have "\<exists>s'. request E spec ts [] (env 2) (CallRetrieve ?tok) s2 = (Err (Call (rpc_error ProofNotFound)), s')"
    by (rule request_refused(1) [OF s2(2) script_facts(3) [OF set] claim_token_short [OF script_facts(1,2) [OF set]] missing_claim(1) [OF script_facts(1,2) [OF set]]]) simp
  then show ?thesis
    using s1(1) s2(1) by (auto simp: abort_steps_def expect_code_def rpc_error_def)
qed

lemma zero_ttl_refused:
  assumes set: "script_setting storable E Q T env" and srv: "calm_server E B (calm Q) [] ts m s"
    and doc: "document E (ts_limit ts) (JString ''expires now'')"
  shows "zero_ttl_steps E spec env ts s"
proof -
  have e: "ready Q (env 0)" "store_ok storable E (env 0) (Some 0)" using set by (auto simp: script_setting_def)
  have len: "is_value (JString ''expires now'')" "length (serde_to_string E (JString ''expires now'')) \<le> unat (ts_limit ts)"
    using doc by (simp_all add: document_def)
  obtain s' where "request E spec ts [] (env 0) (CallStore \<lparr>proof_json = JString ''expires now'', expires_in_secs = Some 0\<rparr>) s =
      (Err (Call (rpc_error (InvalidParameter ''expires_in_secs must be greater than zero''))), s')"
    by (rule calm_request_store [OF srv e len, where spec = spec]) (auto simp: spec_store_def)
  then show ?thesis
    by (simp add: zero_ttl_steps_def expect_code_def rpc_error_def)
qed

lemma expired_passes:
  assumes set: "script_setting storable E Q T env" and srv: "calm_server E B (calm Q) [] ts m s"
    and doc: "document E (ts_limit ts) (JString ''expires soon'')"
    and later: "ready Q later" "now_expiry (env 0) + 1000000000 < now_check later"
  shows "expired_steps E spec env later ts s"
    and "unwrap (as_string (request E spec ts [] (env 0)
         (CallStore \<lparr>proof_json = JString ''expires soon'', expires_in_secs = Some 1\<rparr>) s)) (\<lambda>claim_id s.
       expect_code (- 32002) (request E spec ts [] later (CallDelete claim_id) s))"
proof -
  let ?j = "JString ''expires soon''" and ?tok = "claim_id_encode E (claim_of (env 0))"
  obtain m1 s1 where s1: "as_string (request E spec ts [] (env 0) (CallStore \<lparr>proof_json = ?j, expires_in_secs = Some 1\<rparr>) s) = (Ok ?tok, s1)"
    "calm_server E B (calm Q) [] ts m1 s1" "issued E (env 0) ?j (lifetime (env 0) (Some 1)) m1"
    by (rule request_issues [OF set srv doc, of "Some 1" spec 0]) auto
  have ex: "lifetime (env 0) (Some 1) = Some (now_expiry (env 0) + 1000000000)" by (simp add: lifetime_def)
  note expired = issued_claim(3,4) [OF script_facts(1,2) [OF set] s1(3) ex later(2)]
  note answers = request_refused [OF s1(2) later(1) claim_token_short [OF script_facts(1,2) [OF set]], where spec = spec]
  show "expired_steps E spec env later ts s"
    using s1(1) answers(1) [OF expired(1)] by (auto simp: expired_steps_def rpc_error_def)
  show "unwrap (as_string (request E spec ts [] (env 0)
         (CallStore \<lparr>proof_json = JString ''expires soon'', expires_in_secs = Some 1\<rparr>) s)) (\<lambda>claim_id s.
       expect_code (- 32002) (request E spec ts [] later (CallDelete claim_id) s))"
    using s1(1) answers(2) [OF expired(2)] by (auto simp: expect_code_def rpc_error_def)
qed

lemma invalid_claim_passes:
  assumes set: "script_setting storable E Q T env" and srv: "calm_server E B (calm Q) [] ts m s"
  shows "invalid_claim_steps E spec CallRetrieve env ts s" "invalid_claim_steps E spec CallDelete env ts s"
proof -
  have len: "length ''not-a-valid-claim-id'' \<noteq> 64" "length ''not-a-valid-claim-id'' \<le> 64" by simp_all
  note bad = invalid_claim [OF script_facts(1) [OF set] len(1)]
  note answers = request_refused [OF srv script_facts(3) [OF set, of 0] len(2), where spec = spec]
  show "invalid_claim_steps E spec CallRetrieve env ts s" "invalid_claim_steps E spec CallDelete env ts s"
    using answers(1) [OF bad(1)] answers(2) [OF bad(2)] by (auto simp: invalid_claim_steps_def expect_code_def rpc_error_def)
qed

lemma each_proof_passes:
  assumes "script_setting storable E Q T env" "calm_server E B (calm Q) [] ts Map.empty s" "\<forall>j \<in> set js. document E (ts_limit ts) j"
  shows "each_proof_steps E spec js env n ts s"
  using assms(2,3)
proof (induction js arbitrary: n s)
  case (Cons j js)
  obtain s1 s2 where s: "as_string (request E spec ts [] (env n) (CallStore (plain_params j)) s) = (Ok (claim_id_encode E (claim_of (env n))), s1)"
    "request E spec ts [] (env (n + 1)) (CallRetrieve (claim_id_encode E (claim_of (env n)))) s1 = (Ok (JObject [(''proof_json'', j)]), s2)"
    "calm_server E B (calm Q) [] ts Map.empty s2"
    unfolding plain_params_def by (rule store_then_retrieve [OF assms(1) Cons.prems(1), of j None spec n "n + 1"]) (use Cons.prems in auto)
  then show ?case
    using Cons.IH [OF s(3), of "n + 2"] Cons.prems(2) by simp
qed simp

lemma oversized_passes:
  assumes srv: "calm_server E B (calm Q) [] ts m s" and limit: "unat (ts_limit ts) = 1024"
    and large: "1024 < length (serde_to_string E large_proof)" "length (serde_to_string E large_proof) \<le> 4096"
  shows "expect_code (- 32006) (as_string (request E spec ts [] (env 0) (CallStore (plain_params large_proof)) s))"
proof -
  have c: "admits E (auth_layer (ts_server ts)) []" "wired E ts" using srv by (simp_all add: calm_server_def)
  have "is_value large_proof" by (simp add: is_value_def large_proof_def)
  then have v: "call_value (CallStore (plain_params large_proof))"
    "call_fits E (unat (ts_limit ts)) (CallStore (plain_params large_proof))"
    using large(2) limit by (simp_all add: call_value_def call_fits_def plain_params_def)
  show ?thesis
    using large(1) limit request_reaches_handler [OF c v, of spec "env 0" s]
    by (cases s) (simp add: request_def vault_service_def plain_params_def rpc_store_proof_def
        Let_def vault_to_rpc_err_def client_result_def expect_code_def)
qed

end

section \<open>The test servers\<close>

definition service_laws :: "ext \<Rightarrow> bool" where
  "service_laws E \<longleftrightarrow> file_laws E \<and> base64_url_laws E \<and> aead_laws E \<and> chrono_arith_laws E \<and> chrono_rfc3339_laws E \<and>
     header_laws E \<and> ct_eq_laws E \<and> json_size_laws E"

text \<open>
  The libraries behave as documented, no call fails while a server starts, and a TLS
  client that trusts the server's certificate completes its handshake.
\<close>

definition file_site_ok :: "ext \<Rightarrow> file_site \<Rightarrow> bool" where
  "file_site_ok E site \<longleftrightarrow> rpc_lib_laws E (site_lib site) \<and> (\<forall>c. site_net site c = None) \<and>
     fresh_dir (site_dir site) (site_fs site) \<and> test_file_io (site_io site) \<and>
     site_handshake site = Ok () \<and> site_connected site = Ok ()"

definition db_site_ok :: "ext \<Rightarrow> db_site \<Rightarrow> bool" where
  "db_site_ok E site \<longleftrightarrow> rpc_lib_laws E (db_site_lib site) \<and> (\<forall>c. db_site_net site c = None) \<and>
     (\<forall>c. db_fault (db_site_io site) c = None)"

abbreviation file_standing :: "ext \<Rightarrow> path \<Rightarrow> store \<Rightarrow> fs \<Rightarrow> bool" where
  "file_standing E dir \<equiv> calm_state (file_inv E (vault_json dir)) (file_abs E (vault_json dir)) (file_quiet (vault_json dir))
     {io. test_file_io io}"

abbreviation db_standing :: "ext \<Rightarrow> store \<Rightarrow> db_file \<Rightarrow> bool" where
  "db_standing E \<equiv> calm_state (sqlite_inv E) (sqlite_abs E) sqlite_quiet {io. \<forall>c. db_fault io c = None}"

text \<open>The server of a test right after its start.\<close>

definition started ::
  "ext \<Rightarrow> ('s, 'io) storage_backend \<Rightarrow> (store \<Rightarrow> 's \<Rightarrow> bool) \<Rightarrow> string option \<Rightarrow> u64 \<Rightarrow> ('s, 'io) test_server \<Rightarrow> 's rpc_world \<Rightarrow> bool" where
  "started E B standing token limit ts s \<longleftrightarrow> wired E ts \<and> ts_backend ts = B \<and> ts_limit ts = limit \<and>
     auth_layer (ts_server ts) = bearer_from_config token \<and> standing Map.empty (storage (rpc_vault (fst s)))"

lemma parse_test_addr: "parse_socket_addr ''127.0.0.1:0'' = Some \<lparr>sa_ip = V4 [127, 0, 0, 1], sa_port = 0\<rparr>"
  by (simp add: reader_simps)

lemma serve_over_starts:
  assumes "rpc_lib_laws E L" "json_size_laws E" "lk = (if tls = None then Http else Https (Ok ()) (Ok ()))"
    and "unat limit + 4096 < 2 ^ 32"
    and "\<forall>c. net c = None" "standing Map.empty (storage v)" "\<And>ts s. started E B standing token limit ts s \<Longrightarrow> test ts s"
  shows "serve_over L lk net B token tls limit v test"
proof -
  have "check_tls_for_non_loopback ''127.0.0.1:0'' tls False = Ok ()"
    by (simp add: check_tls_for_non_loopback_def parse_test_addr)
  then obtain srv where srv: "start_server net ''127.0.0.1:0'' token tls False limit = Ok srv"
    using assms(5)
    by (cases tls) (simp_all add: start_server_def start_plain_def start_tls_def build_tls_acceptor_def net_sys_def)
  note installed = start_server_Ok [OF srv] start_server_methods [OF srv]
  have "unat (body_limit srv) = unat limit + 4096"
    using installed(1) http_body_limit_value [of limit] assms(4) by simp
  then have "started E B standing token limit \<lparr>ts_server = srv, ts_backend = B, ts_limit = limit, ts_lib = L, ts_link = lk\<rparr>
      (\<lparr>rpc_vault = v, rpc_log = []\<rparr>, [])"
    using installed assms(1-3,6) by (simp add: started_def wired_def link_ok_def)
  then show ?thesis
    using srv assms(7) by (simp add: serve_over_def)
qed

lemma vault_in_standing:
  assumes "service_laws E" "fresh_dir dir d" "test_file_io io" "\<And>v. file_standing E dir Map.empty (storage v) \<Longrightarrow> test v"
  shows "vault_in E io dir d test"
proof -
  have laws: "file_laws E" using assms(1) by (simp add: service_laws_def)
  obtain d' where "local_file_new E io (vault_json dir) d = (Ok (), d')" "file_standing E dir Map.empty d'"
    by (rule fresh_file_store [OF laws assms(2,3), of "{io. test_file_io io}"]) auto
  then show ?thesis
    using assms(4) by (simp add: vault_in_def file_store_in_def vault_new_def)
qed

lemma file_server_starts:
  assumes "service_laws E" "file_site_ok E site"
    and "\<And>ts s. started E (local_file_backend E (vault_json (site_dir site))) (file_standing E (site_dir site)) token limit ts s \<Longrightarrow> test ts s"
    and "unat limit + 4096 < 2 ^ 32"
  shows "start_limited_server E site token limit test"
proof -
  have ok: "\<forall>c. site_net site c = None" "fresh_dir (site_dir site) (site_fs site)" "test_file_io (site_io site)"
    "rpc_lib_laws E (site_lib site)" "json_size_laws E"
    using assms(1,2) by (simp_all add: file_site_ok_def service_laws_def)
  show ?thesis
    unfolding start_limited_server_def
    by (rule vault_in_standing [OF assms(1) ok(2,3)])
      (rule serve_over_starts [OF ok(4,5) _ assms(4) ok(1) _ assms(3)], simp)
qed

lemma tls_server_starts:
  assumes "service_laws E" "file_site_ok E site"
    and "\<And>ts s. started E (local_file_backend E (vault_json (site_dir site))) (file_standing E (site_dir site)) token 1048576 ts s \<Longrightarrow> test ts s"
  shows "start_test_server_tls E site token test"
proof -
  have paths: "path_join dir n = path_join dir k \<longleftrightarrow> n = k" for dir n k by (simp add: path_join_def)
  have wire: "rpc_lib_laws E (site_lib site)" "json_size_laws E" "site_handshake site = Ok ()" "site_connected site = Ok ()"
    using assms(1,2) by (simp_all add: file_site_ok_def service_laws_def)
  have limit: "unat (1048576 :: u64) + 4096 < 2 ^ 32" by simp
  have ok: "\<forall>c. site_net site c = None" "test_file_io (site_io site)"
    "fresh_dir (site_dir site) ((site_fs site)(path_join (site_dir site) ''cert.pem'' \<mapsto> c, path_join (site_dir site) ''key.pem'' \<mapsto> k))" for c k
    using assms(2) by (simp_all add: file_site_ok_def fresh_dir_def paths)
  show ?thesis
    unfolding start_test_server_tls_def Let_def wire(3,4)
    by (rule vault_in_standing [OF assms(1) ok(3,2)])
      (rule serve_over_starts [OF wire(1,2) _ limit ok(1) _ assms(3)], simp)
qed

lemma db_server_starts:
  assumes "service_laws E" "db_site_ok E site"
    and "\<And>ts s. started E (sqlite_backend E) (db_standing E) token 1048576 ts s \<Longrightarrow> test ts s"
  shows "start_test_server_sqlite E site token test"
proof -
  have laws: "chrono_rfc3339_laws E" using assms(1) by (simp add: service_laws_def)
  have ok: "\<forall>c. db_fault (db_site_io site) c = None" using assms(2) by (simp add: db_site_ok_def)
  obtain f where f: "sqlite_new (db_site_io site) (path_join (db_site_dir site) ''vault.db'') None = (Ok (), Some f)"
    and st: "db_standing E Map.empty f"
    by (rule fresh_sqlite_store [OF laws ok, of "{io. \<forall>c. db_fault io c = None}" "path_join (db_site_dir site) ''vault.db''"]) auto
  have net: "\<forall>c. db_site_net site c = None" "rpc_lib_laws E (db_site_lib site)" "json_size_laws E"
    using assms(1,2) by (simp_all add: db_site_ok_def service_laws_def)
  have limit: "unat (1048576 :: u64) + 4096 < 2 ^ 32" by simp
  have "serve_over (db_site_lib site) Http (db_site_net site) (sqlite_backend E) token None 1048576 (vault_new f) test"
    by (rule serve_over_starts [OF net(2,3) _ limit net(1) _ assms(3)]) (simp_all add: vault_new_def st)
  then show ?thesis
    using f by (simp add: start_test_server_sqlite_def sqlite_store_in_def)
qed

text \<open>Who is let in.\<close>

lemma open_server_admits: "admits E (bearer_from_config None) headers"
  by (simp add: admits_def bearer_from_config_def bearer_disabled_def)

lemma test_token_visible: "list_all visible_ascii (as_bytes (''Bearer '' @ TEST_TOKEN))" "TEST_TOKEN \<noteq> []"
  by code_simp (simp add: TEST_TOKEN_def)

lemma token_admits:
  assumes "service_laws E"
  shows "admits E (bearer_from_config (Some TEST_TOKEN)) (bearer_headers TEST_TOKEN)"
proof -
  have laws: "header_laws E" "ct_eq_laws E" using assms by (simp_all add: service_laws_def)
  have "provided_token E \<lparr>req_headers = bearer_headers TEST_TOKEN, req_body = ()\<rparr> = Some (as_bytes TEST_TOKEN)"
    unfolding provided_token_iff [OF laws(1)] using test_token_visible(1) by (simp add: bearer_headers_def)
  then show ?thesis
    using laws(2) test_token_visible(2) by (simp add: admits_def bearer_from_config_def bearer_new_def ct_eq_laws_def)
qed

lemma stranger_rejected:
  assumes "service_laws E" "wired E ts" "auth_layer (ts_server ts) = bearer_from_config (Some TEST_TOKEN)"
    and "map_of headers ''authorization'' \<noteq> Some (as_bytes (''Bearer '' @ TEST_TOKEN))"
  shows "fst (send E spec ts env \<lparr>req_headers = headers, req_body = call\<rparr> s) = Ok (unauthorized_response NoReply)"
proof -
  have laws: "header_laws E" "ct_eq_laws E" using assms(1) by (simp_all add: service_laws_def)
  show ?thesis
    using assms(4) unfolding request_reaches_layer [OF assms(2)] assms(3) bearer_gate [OF laws test_token_visible(2)] by simp
qed

lemma rejected_passes:
  assumes "service_laws E" "wired E ts" "auth_layer (ts_server ts) = bearer_from_config (Some TEST_TOKEN)"
    and "map_of headers ''authorization'' \<noteq> Some (as_bytes (''Bearer '' @ TEST_TOKEN))"
  shows "rejected_steps E spec headers call env ts s"
    and "is_err (fst (as_string (request E spec ts headers (env 0) call s)))"
proof -
  let ?v = "''Bearer realm='' @ [CHR 0x22] @ ''tari_vault'' @ [CHR 0x22]"
  have "list_all visible_ascii (as_bytes ?v)" by code_simp
  then have v: "header_to_str E (as_bytes ?v) = Some ?v"
    using assms(1) by (simp add: service_laws_def header_laws_def)
  have c: "contains ''Bearer'' ?v" by simp
  obtain s' where r: "send E spec ts (env 0) \<lparr>req_headers = headers, req_body = call\<rparr> s = (Ok (unauthorized_response NoReply), s')"
    using stranger_rejected [OF assms] by (metis prod.collapse)
  show "rejected_steps E spec headers call env ts s"
    unfolding rejected_steps_def r unwrap.simps unauthorized_response_def
    using v c by (simp add: UNAUTHORIZED_def)
  show "is_err (fst (as_string (request E spec ts headers (env 0) call s)))"
    by (simp add: request_def r client_result_def unauthorized_response_def UNAUTHORIZED_def)
qed

lemma discover_passes:
  assumes "service_laws E" "wired E ts" "auth_layer (ts_server ts) = bearer_from_config (Some TEST_TOKEN)"
    and "serde_from_slice E (as_bytes spec) = Ok openrpc_json"
  shows "unwrap (request E spec ts (bearer_headers TEST_TOKEN) env CallDiscover s) (\<lambda>result _.
       json_as_str (json_index result ''openrpc'') \<noteq> None \<and> json_is_object (json_index result ''info'') \<and>
       (case json_as_array (json_index result ''methods'') of None \<Rightarrow> False | Some ms \<Rightarrow> ms \<noteq> []))"
proof -
  have "discover E spec = Ok (json_value openrpc_json)"
    using assms(4) by (simp add: discover_def value_from_slice_def)
  then have r: "request E spec ts (bearer_headers TEST_TOKEN) env CallDiscover s = (Ok (json_value openrpc_json), s)"
    using token_admits [OF assms(1)] assms(2,3)
    by (cases s) (simp add: request_def request_reaches_handler call_value_def call_fits_def vault_service_def client_result_def)
  show ?thesis
    unfolding r unwrap.simps by code_simp
qed

section \<open>The tests pass\<close>

text \<open>The environment of a request to a server over the database.\<close>

definition db_test_env :: "datetime \<Rightarrow> sqlite_io call_env \<Rightarrow> bool" where
  "db_test_env T env \<longleftrightarrow> env_ok env \<and> within_test T (now_expiry env) \<and> within_test T (now_stored env) \<and>
     within_test T (now_check env) \<and> (\<forall>c. db_fault (io_first env) c = None) \<and> (\<forall>c. db_fault (io_second env) c = None)"

lemma file_setting:
  assumes "service_laws E" "test_time E T" "\<forall>n. test_env T (env n)"
  shows "script_setting (\<lambda>_. True) E {io. test_file_io io} T env"
  using assms by (simp add: script_setting_def service_laws_def ready_def test_env_def store_ok_def)

lemma db_setting:
  assumes "service_laws E" "test_time E T" "\<forall>n. db_test_env T (env n)"
  shows "script_setting rfc3339_record E {io. \<forall>c. db_fault io c = None} T env"
proof -
  have arith: "chrono_arith_laws E" using assms(1) by (simp add: service_laws_def)
  have "store_ok rfc3339_record E (env n) ttl" if "ttl \<in> {None, Some 0, Some 1, Some 3600}" for n ttl
  proof -
    have env: "env_ok (env n)" "within_test T (now_expiry (env n))" "within_test T (now_stored (env n))"
      using assms(3) by (simp_all add: db_test_env_def)
    have near: "\<bar>u - T\<bar> \<le> 7200000000000" if "transpose_res (map_option (expiry_at E (now_expiry (env n))) ttl) = Ok (Some u)" for u
      using that \<open>ttl \<in> _\<close> env(2) arith assms(2)
      by (auto simp: expiry_at_def chrono_arith_laws_def max_duration_seconds_def test_time_def within_test_def)
    have "rfc3339_record (issued_record (env n) ct ex)"
      if "transpose_res (map_option (expiry_at E (now_expiry (env n))) ttl) = Ok ex" for ct ex
      by (rule test_records_storable [OF assms(2)]) (use env(3) near that in \<open>auto simp: issued_record_def within_test_def\<close>)
    with env(1) show ?thesis by (simp add: store_ok_def)
  qed
  then show ?thesis
    using assms by (simp add: script_setting_def service_laws_def ready_def db_test_env_def)
qed

definition rpc_test_documents :: "json list" where
  "rpc_test_documents =
     [rooted_proof, tls_rooted_proof, JObject [(''data'', JString ''with-ttl'')], JObject [(''root'', JString ''to-be-aborted'')]] @
     map JString [''single-use-proof'', ''consume-then-delete'', ''expires now'', ''expires soon'', ''authed proof'',
       ''no auth needed'', ''tls-single-use'', ''tls authed proof''] @ arbitrary_proofs"

lemma rpc_documents:
  assumes "\<forall>j \<in> set rpc_test_documents. length (serde_to_string E j) \<le> 1048576" "j \<in> set rpc_test_documents"
  shows "document E 1048576 j"
proof -
  have "list_all (\<lambda>j. json_exact j \<and> is_value j) rpc_test_documents" by code_simp
  then have "json_exact j" "is_value j" using assms(2) by (auto simp: list_all_iff)
  then show ?thesis using assms by (force simp: document_def)
qed

lemma started_calm:
  assumes "started E B standing token limit ts s" "service_laws E" "admits E (bearer_from_config token) headers"
  shows "calm_server E B standing headers ts Map.empty s" "ts_limit ts = limit"
  using assms by (simp_all add: started_def calm_server_def service_laws_def file_laws_def)

lemma rpc_test_documents_mem [simp]:
  "rooted_proof \<in> set rpc_test_documents" "tls_rooted_proof \<in> set rpc_test_documents"
  "JObject [(''data'', JString ''with-ttl'')] \<in> set rpc_test_documents" "JObject [(''root'', JString ''to-be-aborted'')] \<in> set rpc_test_documents"
  "JString ''single-use-proof'' \<in> set rpc_test_documents" "JString ''consume-then-delete'' \<in> set rpc_test_documents"
  "JString ''expires now'' \<in> set rpc_test_documents" "JString ''expires soon'' \<in> set rpc_test_documents"
  "JString ''authed proof'' \<in> set rpc_test_documents" "JString ''no auth needed'' \<in> set rpc_test_documents"
  "JString ''tls-single-use'' \<in> set rpc_test_documents" "JString ''tls authed proof'' \<in> set rpc_test_documents"
  "set arbitrary_proofs \<subseteq> set rpc_test_documents"
  by (auto simp: rpc_test_documents_def)

text \<open>Every script on a server that has just started.\<close>

context calm_backend
begin

lemma scripts_pass:
  assumes set: "script_setting storable E Q T env" and laws: "service_laws E"
    and sizes: "\<forall>j \<in> set rpc_test_documents. length (serde_to_string E j) \<le> 1048576"
    and adm: "admits E (bearer_from_config token) headers" and st: "started E B (calm Q) token 1048576 ts s"
  shows "j \<in> set rpc_test_documents \<Longrightarrow> lifecycle_steps E spec headers j env ts s"
    and "j \<in> set rpc_test_documents \<Longrightarrow> authed_store_steps E spec headers j env ts s"
    and "j \<in> set rpc_test_documents \<Longrightarrow> single_use_steps E spec headers j env ts s"
    and "j \<in> set rpc_test_documents \<Longrightarrow>
       unwrap (as_string (request E spec ts headers (env 0) (CallStore (plain_params j)) s)) (\<lambda>claim_id s.
       unwrap (request E spec ts headers (env 1) (CallRetrieve claim_id) s) (\<lambda>_ s.
       expect_code (- 32001) (request E spec ts headers (env 2) (CallDelete claim_id) s)))"
proof -
  note srv = started_calm [OF st laws adm]
  assume j: "j \<in> set rpc_test_documents"
  have doc: "document E (ts_limit ts) j" using rpc_documents [OF sizes j] srv(2) by simp
  note life = lifecycle_passes [OF set srv(1) doc, of spec] and once = single_use_passes [OF set srv(1) doc, of spec]
  show "lifecycle_steps E spec headers j env ts s" "authed_store_steps E spec headers j env ts s"
    by (rule life)+
  show "single_use_steps E spec headers j env ts s"
    by (rule once)
  show "unwrap (as_string (request E spec ts headers (env 0) (CallStore (plain_params j)) s)) (\<lambda>claim_id s.
       unwrap (request E spec ts headers (env 1) (CallRetrieve claim_id) s) (\<lambda>_ s.
       expect_code (- 32001) (request E spec ts headers (env 2) (CallDelete claim_id) s)))"
    by (rule once)
qed

lemma open_scripts_pass:
  assumes set: "script_setting storable E Q T env" and laws: "service_laws E"
    and sizes: "\<forall>j \<in> set rpc_test_documents. length (serde_to_string E j) \<le> 1048576"
    and later: "ready Q later" "now_expiry (env 0) + 1000000000 < now_check later"
    and st: "started E B (calm Q) None 1048576 ts s"
  shows "with_ttl_steps E spec env ts s" "abort_steps E spec env ts s" "zero_ttl_steps E spec env ts s"
    "expired_steps E spec env later ts s" "each_proof_steps E spec arbitrary_proofs env 0 ts s"
    "invalid_claim_steps E spec CallRetrieve env ts s" "invalid_claim_steps E spec CallDelete env ts s"
    "unwrap (as_string (request E spec ts [] (env 0)
         (CallStore \<lparr>proof_json = JString ''expires soon'', expires_in_secs = Some 1\<rparr>) s)) (\<lambda>claim_id s.
       expect_code (- 32002) (request E spec ts [] later (CallDelete claim_id) s))"
proof -
  note srv = started_calm [OF st laws open_server_admits [where headers = "[]"]]
  have doc: "document E (ts_limit ts) j" if "j \<in> set rpc_test_documents" for j
    using rpc_documents [OF sizes that] srv(2) by simp
  show "with_ttl_steps E spec env ts s" "abort_steps E spec env ts s" "zero_ttl_steps E spec env ts s"
    by (simp_all add: with_ttl_passes [OF set srv(1) doc] abort_passes [OF set srv(1) doc] zero_ttl_refused [OF set srv(1) doc])
  show "each_proof_steps E spec arbitrary_proofs env 0 ts s"
    using doc rpc_test_documents_mem(13) by (intro each_proof_passes [OF set srv(1)]) blast
  show "invalid_claim_steps E spec CallRetrieve env ts s" "invalid_claim_steps E spec CallDelete env ts s"
    by (rule invalid_claim_passes [OF set srv(1)])+
  show "expired_steps E spec env later ts s"
    "unwrap (as_string (request E spec ts [] (env 0)
         (CallStore \<lparr>proof_json = JString ''expires soon'', expires_in_secs = Some 1\<rparr>) s)) (\<lambda>claim_id s.
       expect_code (- 32002) (request E spec ts [] later (CallDelete claim_id) s))"
    by (rule expired_passes [OF set srv(1) doc later]; simp)+
qed

end

lemma file_rpc_tests_pass:
  assumes laws: "service_laws E" and T: "test_time E T" and site: "file_site_ok E site" and env: "\<forall>n. test_env T (env n)"
    and later: "ready {io. test_file_io io} later" "now_expiry (env 0) + 1000000000 < now_check later"
    and sizes: "\<forall>j \<in> set rpc_test_documents. length (serde_to_string E j) \<le> 1048576"
    and large: "1024 < length (serde_to_string E large_proof)" "length (serde_to_string E large_proof) \<le> 4096"
  shows "store_and_retrieve_via_rpc E spec site env \<and> second_retrieval_returns_not_found E spec site env
    \<and> retrieve_with_invalid_claim_id_returns_error E spec site env \<and> store_with_ttl_is_retrievable_immediately E spec site env
    \<and> proof_json_accepts_arbitrary_json_types E spec site env \<and> delete_proof_removes_it_and_retrieval_fails E spec site env
    \<and> delete_proof_after_retrieval_returns_not_found E spec site env
    \<and> rpc_store_proof_with_zero_ttl_returns_invalid_parameter E spec site env
    \<and> retrieve_expired_proof_returns_proof_expired E spec site env later \<and> delete_with_invalid_claim_id_returns_error E spec site env
    \<and> delete_expired_proof_returns_expired_error E spec site env later \<and> auth_disabled_needs_no_token E spec site env
    \<and> store_oversized_proof_returns_invalid_parameter E spec site env"
proof -
  note set = file_setting [OF laws T env]
  have limit: "unat (1048576 :: u64) + 4096 < 2 ^ 32" by simp
  note start = file_server_starts [where limit = 1048576, OF laws site _ limit, folded start_test_server_def]
  note scripts = file_calm.scripts_pass [OF set laws sizes open_server_admits [where headers = "[]"]]
    file_calm.open_scripts_pass [OF set laws sizes later]
  have oversized: "store_oversized_proof_returns_invalid_parameter E spec site env"
    unfolding store_oversized_proof_returns_invalid_parameter_def
    by (rule file_server_starts [OF laws site], rule file_calm.oversized_passes [OF started_calm(1) [OF _ laws open_server_admits] _ large],
        assumption, simp_all add: started_def)
  show ?thesis
    unfolding store_and_retrieve_via_rpc_def second_retrieval_returns_not_found_def retrieve_with_invalid_claim_id_returns_error_def
      store_with_ttl_is_retrievable_immediately_def proof_json_accepts_arbitrary_json_types_def
      delete_proof_removes_it_and_retrieval_fails_def delete_proof_after_retrieval_returns_not_found_def
      rpc_store_proof_with_zero_ttl_returns_invalid_parameter_def retrieve_expired_proof_returns_proof_expired_def
      delete_with_invalid_claim_id_returns_error_def delete_expired_proof_returns_expired_error_def auth_disabled_needs_no_token_def
    by (intro conjI start oversized; erule scripts; simp)
qed

lemma db_rpc_tests_pass:
  assumes laws: "service_laws E" and T: "test_time E T" and site: "db_site_ok E site" and env: "\<forall>n. db_test_env T (env n)"
    and later: "ready {io. \<forall>c. db_fault io c = None} later" "now_expiry (env 0) + 1000000000 < now_check later"
    and sizes: "\<forall>j \<in> set rpc_test_documents. length (serde_to_string E j) \<le> 1048576"
  shows "sqlite_store_and_retrieve_via_rpc E spec site env \<and> sqlite_second_retrieval_returns_not_found E spec site env
    \<and> sqlite_store_with_ttl_is_retrievable_immediately E spec site env \<and> sqlite_delete_proof_removes_it_and_retrieval_fails E spec site env
    \<and> sqlite_store_proof_with_zero_ttl_returns_invalid_parameter E spec site env
    \<and> sqlite_retrieve_expired_proof_returns_error E spec site env later
    \<and> sqlite_retrieve_with_invalid_claim_id_returns_error E spec site env"
proof -
  note set = db_setting [OF laws T env]
  note scripts = sqlite_calm.scripts_pass [OF set laws sizes open_server_admits [where headers = "[]"]]
    sqlite_calm.open_scripts_pass [OF set laws sizes later]
  show ?thesis
    unfolding sqlite_store_and_retrieve_via_rpc_def sqlite_second_retrieval_returns_not_found_def
      sqlite_store_with_ttl_is_retrievable_immediately_def sqlite_delete_proof_removes_it_and_retrieval_fails_def
      sqlite_store_proof_with_zero_ttl_returns_invalid_parameter_def sqlite_retrieve_expired_proof_returns_error_def
      sqlite_retrieve_with_invalid_claim_id_returns_error_def
    by (intro conjI db_server_starts [OF laws site]; erule scripts; simp)
qed

lemma guarded_rpc_tests_pass:
  assumes laws: "service_laws E" and T: "test_time E T" and site: "file_site_ok E site" and env: "\<forall>n. test_env T (env n)"
    and sizes: "\<forall>j \<in> set rpc_test_documents. length (serde_to_string E j) \<le> 1048576"
    and spec: "serde_from_slice E (as_bytes spec) = Ok openrpc_json"
  shows "auth_valid_token_allows_requests E spec site env \<and> auth_missing_token_is_rejected E spec site env
    \<and> auth_wrong_token_is_rejected E spec site env \<and> tls_store_and_retrieve_via_rpc E spec site env
    \<and> tls_second_retrieval_returns_not_found E spec site env \<and> tls_auth_valid_token_allows_requests E spec site env
    \<and> tls_auth_missing_token_is_rejected E spec site env \<and> discover_returns_valid_openrpc_schema E spec site env
    \<and> discover_requires_auth E spec site env"
proof -
  note set = file_setting [OF laws T env]
  have limit: "unat (1048576 :: u64) + 4096 < 2 ^ 32" by simp
  note start = file_server_starts [where limit = 1048576, OF laws site _ limit, folded start_test_server_def] tls_server_starts [OF laws site]
  note open_door = file_calm.scripts_pass [OF set laws sizes open_server_admits [where headers = "[]"]]
  note authed = file_calm.scripts_pass [OF set laws sizes token_admits [OF laws]]
  have token: "auth_layer (ts_server ts) = bearer_from_config (Some TEST_TOKEN)" "wired E ts"
    if "started E B standing (Some TEST_TOKEN) limit ts s" for B standing limit s and ts :: "(fs, file_io) test_server"
    using that by (simp_all add: started_def)
  have wrong: "map_of [(''authorization'', as_bytes ''Bearer wrong-token'')] ''authorization'' \<noteq> Some (as_bytes (''Bearer '' @ TEST_TOKEN))"
    "map_of ([] :: header_map) ''authorization'' \<noteq> Some (as_bytes (''Bearer '' @ TEST_TOKEN))"
    by (simp_all add: TEST_TOKEN_def)
  note rejected = rejected_passes [OF laws token(2,1) wrong(1)] rejected_passes [OF laws token(2,1) wrong(2)]
  show ?thesis
    unfolding auth_valid_token_allows_requests_def auth_missing_token_is_rejected_def auth_wrong_token_is_rejected_def
      tls_store_and_retrieve_via_rpc_def tls_second_retrieval_returns_not_found_def tls_auth_valid_token_allows_requests_def
      tls_auth_missing_token_is_rejected_def discover_returns_valid_openrpc_schema_def discover_requires_auth_def
    by (intro conjI start; (erule open_door | erule authed | (rule rejected; assumption) | (rule discover_passes [OF laws token(2,1) spec]; assumption))?; simp?)
qed

text \<open>The oversized document: more than the size limit of its server, and within the transport limit.\<close>

lemma large_proof_size:
  assumes "service_laws E"
  shows "1024 < length (serde_to_string E large_proof)" "length (serde_to_string E large_proof) \<le> 4096"
proof -
  let ?t = "replicate 2000 (CHR ''x'')"
  have laws: "json_size_laws E" using assms by (simp add: service_laws_def)
  have plain: "plain_text ?t" "list_all (plain_text \<circ> fst) [(''data'', JString ?t)]"
    by (simp_all add: plain_text_def list_all_iff)
  have str: "length ?t \<le> length (serde_to_string E (JString ?t))" "length (serde_to_string E (JString ?t)) \<le> 2 * length ?t + 2"
    using laws plain(1) unfolding json_size_laws_def by blast+
  have obj: "\<forall>kv \<in> set [(''data'', JString ?t)]. length (serde_to_string E (snd kv)) \<le> length (serde_to_string E (JObject [(''data'', JString ?t)]))"
    "length (serde_to_string E (JObject [(''data'', JString ?t)])) \<le>
      2 + (\<Sum>kv \<leftarrow> [(''data'', JString ?t)]. 2 * length (fst kv) + 4 + length (serde_to_string E (snd kv)))"
    using laws plain(2) unfolding json_size_laws_def by blast+
  show "1024 < length (serde_to_string E large_proof)" "length (serde_to_string E large_proof) \<le> 4096"
    using str obj by (simp_all add: large_proof_def)
qed

text \<open>
  C25: the integration tests pass: the life of a proof over HTTP and TLS, on the file and
  on the database, with and without a token, its errors, and the discovery document,
  whatever ids, keys and nonces the servers draw. Every request is framed, goes over plain
  HTTP or through the TLS proxy, and meets the token check, the body limit and the method
  table its server was started with; the oversized document gets past the body limit and
  is refused by the handler. Calls do not fail, a TLS client that trusts the certificate
  completes its handshake, clock readings lie within one second but for those after a
  sleep, the documents fit the limit of the server except the oversized one, and the RPC
  libraries and the size of JSON texts are as documented.
\<close>

theorem rpc_tests_pass:
  assumes "service_laws E" "test_time E T" "serde_from_slice E (as_bytes spec) = Ok openrpc_json"
    and "file_site_ok E site" "\<forall>n. test_env T (env n)"
    and "ready {io. test_file_io io} later" "now_expiry (env 0) + 1000000000 < now_check later"
    and "db_site_ok E db" "\<forall>n. db_test_env T (denv n)"
    and "ready {io. \<forall>c. db_fault io c = None} dlater" "now_expiry (denv 0) + 1000000000 < now_check dlater"
    and "\<forall>j \<in> set rpc_test_documents. length (serde_to_string E j) \<le> 1048576"
  shows "(store_and_retrieve_via_rpc E spec site env \<and> second_retrieval_returns_not_found E spec site env
    \<and> retrieve_with_invalid_claim_id_returns_error E spec site env \<and> store_with_ttl_is_retrievable_immediately E spec site env
    \<and> proof_json_accepts_arbitrary_json_types E spec site env \<and> delete_proof_removes_it_and_retrieval_fails E spec site env
    \<and> delete_proof_after_retrieval_returns_not_found E spec site env
    \<and> rpc_store_proof_with_zero_ttl_returns_invalid_parameter E spec site env
    \<and> retrieve_expired_proof_returns_proof_expired E spec site env later \<and> delete_with_invalid_claim_id_returns_error E spec site env
    \<and> delete_expired_proof_returns_expired_error E spec site env later \<and> auth_disabled_needs_no_token E spec site env
    \<and> store_oversized_proof_returns_invalid_parameter E spec site env)
    \<and> (sqlite_store_and_retrieve_via_rpc E spec db denv \<and> sqlite_second_retrieval_returns_not_found E spec db denv
    \<and> sqlite_store_with_ttl_is_retrievable_immediately E spec db denv \<and> sqlite_delete_proof_removes_it_and_retrieval_fails E spec db denv
    \<and> sqlite_store_proof_with_zero_ttl_returns_invalid_parameter E spec db denv
    \<and> sqlite_retrieve_expired_proof_returns_error E spec db denv dlater
    \<and> sqlite_retrieve_with_invalid_claim_id_returns_error E spec db denv)
    \<and> (auth_valid_token_allows_requests E spec site env \<and> auth_missing_token_is_rejected E spec site env
    \<and> auth_wrong_token_is_rejected E spec site env \<and> tls_store_and_retrieve_via_rpc E spec site env
    \<and> tls_second_retrieval_returns_not_found E spec site env \<and> tls_auth_valid_token_allows_requests E spec site env
    \<and> tls_auth_missing_token_is_rejected E spec site env \<and> discover_returns_valid_openrpc_schema E spec site env
    \<and> discover_requires_auth E spec site env)"
proof -
  note large = large_proof_size [OF assms(1)]
  show ?thesis
    by (intro conjI [where P = "_ \<and> _"] file_rpc_tests_pass [OF assms(1,2,4-7,12) large] db_rpc_tests_pass [OF assms(1,2,8-12)]
        guarded_rpc_tests_pass [OF assms(1,2,4,5,12,3)])
qed

text \<open>RPC libraries with the documented behaviour: an envelope is an object with the method and the parameters.\<close>

definition ref_deliver :: "u32 \<Rightarrow> bytes \<Rightarrow> delivery" where
  "ref_deliver limit bs =
     (if unat limit < length bs then Refuse 413
      else case document_of bs of
        Ok (JObject [(_, JString m), (_, JArray ps)]) \<Rightarrow> Dispatch m ps
      | _ \<Rightarrow> Refuse 400)"

definition ref_lib :: rpc_lib where
  "ref_lib = \<lparr>frame = (\<lambda>m ps. as_bytes (json_code (JObject [(''method'', JString m), (''params'', JArray ps)]))),
     deliver = ref_deliver,
     refusal = (\<lambda>m ps. \<lparr>err_code = - 32601, err_message = ''Method not found'', err_data = None\<rparr>),
     copied = (\<lambda>bs. bs)\<rparr>"

lemma text_code_length: "length (text_code t) = 2 * length t + 1"
  by (induction t) (simp_all add: text_code_def)

lemma ref_rpc_lib: "rpc_lib_laws ref_ext ref_lib"
proof -
  have d: "deliver ref_lib limit (frame ref_lib m ps) = Dispatch m ps" if "length (frame ref_lib m ps) \<le> unat limit" for limit m ps
    using that unfolding ref_lib_def rpc_lib.select_convs ref_deliver_def document_of_code by simp
  have f: "length (frame ref_lib m ps) \<le> length (json_code (JArray ps)) + 2 * length m + 128" for m ps
    by (simp add: ref_lib_def text_code_length as_bytes_def)
  show ?thesis
    unfolding rpc_lib_laws_def using d f by (auto simp: ref_lib_def ref_deliver_def ref_ext_def)
qed

definition sample_site :: file_site where
  "sample_site = \<lparr>site_lib = ref_lib, site_net = \<lambda>_. None, site_io = calm_file_io, site_dir = [RootDir, Normal ''tmp''],
     site_fs = Map.empty, site_shown = \<lambda>_. [], site_cert_pem = [], site_key_pem = [], site_pem_mode = 0,
     site_handshake = Ok (), site_connected = Ok ()\<rparr>"

definition sample_db_site :: db_site where
  "sample_db_site = \<lparr>db_site_lib = ref_lib, db_site_net = \<lambda>_. None, db_site_io = sqlite_part calm_io,
     db_site_dir = [RootDir, Normal ''tmp'']\<rparr>"

definition sample_db_env :: "sqlite_io call_env" where
  "sample_db_env = \<lparr>gen_key = replicate 32 7, gen_nonce = replicate 12 9, new_uuid = replicate 16 2,
     now_expiry = 10000000000000, now_stored = 10000000000000, now_check = 10000000000000,
     io_first = sqlite_part calm_io, io_second = sqlite_part calm_io\<rparr>"

lemma ref_json_size: "json_size_laws ref_ext"
proof -
  have entries: "(\<forall>kv \<in> set kvs. length (json_code (snd kv)) \<le> length (json_code (JObject kvs))) \<and>
      length (json_code (JObject kvs)) \<le> 2 + (\<Sum>kv \<leftarrow> kvs. 2 * length (fst kv) + 4 + length (json_code (snd kv)))" for kvs
    by (induction kvs) (auto simp: text_code_length)
  have items: "length (json_code (JArray vs)) \<le> 2 + (\<Sum>v \<leftarrow> vs. length (json_code v) + 1)" for vs
    by (induction vs) auto
  show ?thesis
    unfolding json_size_laws_def ref_ext_def ext.select_convs
    using entries items by (simp add: text_code_length word_code_def del: json_code.simps(7,8))
qed

lemma sample_service_facts:
  "service_laws ref_ext" "file_site_ok ref_ext sample_site" "db_site_ok ref_ext sample_db_site" "db_test_env 10000000000000 sample_db_env"
  "ready {io. test_file_io io} (sample_test_env\<lparr>now_check := 10001001000000\<rparr>)"
  "ready {io. \<forall>c. db_fault io c = None} (sample_db_env\<lparr>now_check := 10001001000000\<rparr>)"
  by (simp_all add: service_laws_def ref_laws ref_json_size ref_rpc_lib file_laws_def file_site_ok_def sample_site_def fresh_dir_def sample_test_facts
      db_site_ok_def sample_db_site_def db_test_env_def sample_db_env_def env_ok_def within_test_def calm_io_def ready_def sample_test_env_def)

lemma ref_document_sizes: "\<forall>j \<in> set rpc_test_documents. length (serde_to_string ref_ext j) \<le> 1048576"
  by (simp add: rpc_test_documents_def rooted_proof_def tls_rooted_proof_def arbitrary_proofs_def ref_ext_def text_code_def word_code_def)

theorem rpc_tests_pass_witness:
  "tls_second_retrieval_returns_not_found ref_ext (serde_to_string ref_ext openrpc_json) sample_site (\<lambda>_. sample_test_env) \<and>
   sqlite_retrieve_expired_proof_returns_error ref_ext (serde_to_string ref_ext openrpc_json) sample_db_site (\<lambda>_. sample_db_env)
     (sample_db_env\<lparr>now_check := 10001001000000\<rparr>)"
proof -
  have "json_exact openrpc_json" by code_simp
  then have spec: "serde_from_slice ref_ext (as_bytes (serde_to_string ref_ext openrpc_json)) = Ok openrpc_json"
    using ref_serde_json by (simp add: serde_json_laws_def)
  note facts = sample_service_facts
  have times: "now_expiry sample_test_env + 1000000000 < now_check (sample_test_env\<lparr>now_check := 10001001000000\<rparr>)"
    "now_expiry sample_db_env + 1000000000 < now_check (sample_db_env\<lparr>now_check := 10001001000000\<rparr>)"
    by (simp_all add: sample_test_env_def sample_db_env_def)
  show ?thesis
    using rpc_tests_pass [where env = "\<lambda>_. sample_test_env" and denv = "\<lambda>_. sample_db_env", OF facts(1) sample_test_facts(2) spec facts(2) _
        facts(5) times(1) facts(3) _ facts(6) times(2) ref_document_sizes] sample_test_facts(3) facts(4)
    by simp
qed

end
