(* ===== verification/Spec2Isabelle.thy ===== *)
theory Spec2Isabelle
  imports Vault_Main Vault_Service Rpc_Wire Concurrent_Handoff File_Locking Secret_Memory Discovery Tls_Proxy Vault_Tests Component_Tests Service_Test_Runs
begin

text \<open>
  Tari Vault hands a proof from one party to another through an intermediary that
  must not read it. \<open>vault_storeProof\<close> encrypts a JSON document under a fresh
  AES-256-GCM key, stores only the ciphertext and returns a Claim ID, a token of 64
  characters that holds the storage id (16 bytes) and the key (32 bytes).
  \<open>vault_retrieveProof\<close> decrypts and consumes the record,
  \<open>vault_deleteProof\<close> discards it, a background task sweeps expired ones. This
  development models the service under \<^verbatim>\<open>src/src\<close> as executable
  functions over explicit states and proves what its parts and their composition
  promise.

  \<^bold>\<open>The parts and how they interact.\<close> A request passes the bearer layer
  (\<open>Auth\<close>), is decoded by the RPC library and reaches a handler
  (\<open>Rpc_Server\<close>), which calls the vault (\<open>Proof_Vault\<close>) through the
  \<open>ProofVault\<close> trait; the vault calls the configured storage
  (\<open>Any_Backend\<close>) through the \<open>StorageBackend\<close> trait
  (\<open>Storage_Backend\<close>), which is the JSON file (\<open>Local_File\<close>) or the
  SQLite database (\<open>Sqlite\<close>). The background task (\<open>Cleanup_Task\<close>)
  calls the same vault. \<open>main\<close> (\<open>Vault_Main\<close>) reads the configuration
  (\<open>Vault_Config\<close>), opens the storage, sweeps it, starts the task and the
  server, and takes them down again. With TLS the public listener is a proxy in front
  of the plain server (\<open>Tls_Proxy\<close>).

  \<^bold>\<open>Theories and sources.\<close>
  \<^item> \<open>Vault_Prelude\<close>: bytes, words, the result type (\<open>Ok\<close>,
    \<open>Err\<close>, \<open>Panic\<close>) and the question-mark operator on it.
    \<open>Vault_Error\<close>: \<^verbatim>\<open>error.rs\<close>.
  \<^item> \<open>Externals\<close>: the crates the vault calls, as the parameter \<open>ext\<close>
    with one predicate of documented laws per crate. \<open>Reference_Externals\<close>: one
    concrete \<open>ext\<close> that satisfies them all, used by every instance.
  \<^item> \<open>Claim_Id\<close> and \<open>Domain\<close>: \<^verbatim>\<open>domain/claim_id.rs\<close>,
    \<^verbatim>\<open>domain/proof.rs\<close>, \<^verbatim>\<open>domain/record.rs\<close>.
  \<^item> \<open>Storage_Backend\<close>: \<^verbatim>\<open>storage/backend.rs\<close>, the trait as a
    record of operations and its contract as the locale \<open>backend_contract\<close>,
    extended by \<open>calm_backend\<close> (operations leave later calls undisturbed).
    \<open>Paths\<close>, \<open>Local_File\<close>, \<open>Crash_Safety\<close> (a rewrite call by
    call), \<open>File_Locking\<close> (the two locks and the calls of several processes,
    system call by system call): \<^verbatim>\<open>storage/local_file.rs\<close>; \<open>Sqlite\<close>:
    \<^verbatim>\<open>storage/sqlite.rs\<close>; \<open>Any_Backend\<close>:
    \<^verbatim>\<open>storage/mod.rs\<close>. All three interpret both contracts.
  \<^item> \<open>Proof_Vault\<close>: \<^verbatim>\<open>vault/proof_vault.rs\<close>. \<open>Vault_Runs\<close>:
    sequences of its operations. \<open>Vault_Guarantees\<close>: what holds over the
    deployed storage. \<open>Vault_Concurrency\<close> and \<open>Concurrent_Handoff\<close>:
    interleavings of its storage calls. \<open>Secret_Memory\<close>: the same operations
    with the memory that holds keys, tokens and plaintexts.
  \<^item> \<open>Auth\<close>: \<^verbatim>\<open>auth.rs\<close>. \<open>Socket_Addr\<close>: the parser of bind
    addresses. \<open>Rpc_Server\<close>: \<^verbatim>\<open>rpc/api.rs\<close>,
    \<^verbatim>\<open>rpc/server.rs\<close> and the handler of \<^verbatim>\<open>rpc/discovery.rs\<close>,
    over the locale \<open>vault_contract\<close>, which the standard vault and its
    \<open>Arc\<close> interpret. \<open>Vault_Service\<close>: the path of a request through
    layer, handler and vault, and sequences of requests. \<open>Openrpc\<close>:
    \<^verbatim>\<open>openrpc.json\<close> as a JSON value; \<open>Discovery\<close>: its error
    lists beside the errors of the handlers. \<open>Tls_Proxy\<close>: the accept loop of
    \<open>start_tls\<close>. \<open>Rpc_Wire\<close>: the parameters of the methods as
    \<^verbatim>\<open>rpc/api.rs\<close> prints and reads them, and the way of a call through
    frame, proxy, layer, body limit and method table, with what \<open>jsonrpsee\<close> and
    the relay do on it as the parameter \<open>rpc_lib\<close>.
  \<^item> \<open>Cleanup_Task\<close>: \<^verbatim>\<open>vault/cleanup.rs\<close>. \<open>Vault_Config\<close>:
    \<^verbatim>\<open>config.rs\<close> and the overrides of the command line. \<open>Vault_Main\<close>:
    \<^verbatim>\<open>main.rs\<close>.
  \<^item> \<open>Test_Kit\<close>, \<open>Storage_Tests\<close>, \<open>Vault_Tests\<close> and
    \<open>Component_Tests\<close>: the \<open>mod tests\<close> of the sources;
    \<open>Service_Tests\<close> and \<open>Service_Test_Runs\<close>:
    \<^verbatim>\<open>tests/rpc_integration.rs\<close>. Each test is a bool-valued function of
    what it draws and meets.

  \<^bold>\<open>State and environment.\<close> A file system is a map from paths to contents
  and modes, a database a list of rows, a vault its backend's state with its log. A call
  gets an environment: the random values it draws, the clock readings it makes, and
  which of its storage calls fail with which message. Theorems quantify over the
  environment, so they hold for every failure pattern; those that need working calls
  say so (\<open>quiet\<close>). Integers keep their widths (\<open>u64\<close> lifetimes and
  limits, the \<open>u32\<close> body limit; \<open>usize\<close> is taken as 64 bits) where the source's conversions matter, and
  panics of \<open>chrono\<close> and \<open>GenericArray\<close> are outcomes.

  \<^bold>\<open>What is proved.\<close>
  \<^item> Delivery and single use: a stored proof comes back exactly, through any other
    operations and failures, sequentially, from the wire to the storage of a running
    server among authorized and unauthorized requests, and in any interleaving with
    calls that do not concern it; over sequential runs it is consumed at most once, and
    in every interleaving of any calls the deletions of a record win at most once.
    Concurrent retrievals can both succeed.
  \<^item> Refinement: without failures the vault is the reference operations on a map, and
    the two backends are indistinguishable; with failures every operation is done
    entirely or not at all. Ids, nonces and tokens keep their lengths.
  \<^item> Confidentiality: what is stored and logged depends on key and plaintext only
    through the ciphertext; failed decryptions are indistinguishable; what is and what
    is not wiped from memory on every exit (two copies of a key are not: the store's
    \<open>generated_key\<close> and the key array of the decoder).
  \<^item> Storage: the disk format reads back, a crash leaves the old or the new vault file,
    opening keeps the records. Under the mutex and the file lock every interleaving of
    the system calls of concurrent storage calls, some of them abandoned by their callers,
    is a serial run of them and ends; this is what lets the concurrent model take a
    storage call as one step. The boundary behaviour of expiries (the instant itself,
    years beyond 9999) and the unlocked creation of the file are stated as they are.
  \<^item> Server: unauthenticated requests are inert, plain HTTP needs loopback, the limits
    do not wrap, each handler behaves as its reference and reports every error with the
    code and text of a written-out table, the codes are the documented ones (two
    exceptions are named), and the TLS front passes nothing on before the handshake and
    the connection behind it, one client never disturbing another.
  \<^item> Life cycle: the task stops when cancelled and only removes due records; startup
    establishes the invariant; the order of startup and shutdown, what of it comes from
    the flags and what from the settings, and that the log level of the settings is
    never used.
  \<^item> Tests: the repository's unit and integration tests pass for every id, key and
    nonce they draw, through the step rules of a calm backend. The scripts of the
    integration tests are proved once for any backend and interpreted on both; their
    requests go the way of \<open>Rpc_Wire\<close>, so they depend on the body limit, the
    method table, the proxy and the layer of the started server.

  \<^bold>\<open>Termination and bounds.\<close> No function needs fuel: every loop of the
  source is structural recursion or a step relation. The accept loop and the sweep
  loop run forever by design and are reactions to events. A concurrent call takes at
  most two storage steps, and a storage call at most ten system calls, with at most ten
  more steps for callers that go away, which bounds every interleaving.

  \<^bold>\<open>Laws assumed of other code.\<close> Base64 is strict and reversible, UUID
  texts are injective, AES-GCM decryption inverts encryption, \<open>serde_json\<close>
  reads back documents without floats below its depth limit, \<open>chrono\<close> prints
  and parses what it documents, header values are visible ASCII, \<open>ct_eq\<close> is
  equality. Documents read into a \<open>Value\<close> have their keys ordered
  (\<open>json_value\<close>). No law says that a wrong key fails: theorems about wrong keys
  have the failed decryption as their premise, and the test with a tampered claim passes
  exactly when the cipher refuses the one ciphertext and key of that test. For the
  integration tests, the RPC libraries hand on a framed call within the body limit as it
  was made and refuse a longer one, a relay neither loses nor changes bytes, and the
  compact text of a JSON value has at most the length its quotes, escapes and punctuation
  give it.

  \<^bold>\<open>Not modelled.\<close> HTTP and JSON-RPC framing (done by \<open>jsonrpsee\<close>
  and \<open>hyper\<close>; a parameter where requests are followed from the wire, and left
  out of \<open>serve\<close>, which starts from decoded requests and so covers more of them
  than the body limit lets through), which bytes \<open>copy_bidirectional\<close> writes, the TLS protocol itself (\<open>rustls\<close>), the timing of the
  token comparison, the rendering of log lines by the subscriber, the schedule of the
  ticker (a wake-up is an event), SQLite's pragmas beyond their failure, the loss of
  data that was written but not synced (a crash is that of the process), registers and compiler
  temporaries, and the module declarations of \<^verbatim>\<open>lib.rs\<close> and the
  \<^verbatim>\<open>mod.rs\<close> files, which have no behaviour. What is left of the source is
  imports, attributes and comments.
\<close>

section \<open>Requests, end to end\<close>

lemma sample_server:
  obtains srv where "start_server (\<lambda>_. None) ''127.0.0.1:9000'' (Some ''secret'') None False 1048576 = Ok srv"
  using that by (simp add: start_server_def start_plain_def net_sys_def check_tls_for_non_loopback_def parse_loopback_texts)

text \<open>
  C10: without the token nothing happens. On a server that started with a non-empty
  token, a request whose first authorization header is not exactly that bearer token
  gets a 401, whichever method it calls, and neither the vault nor the handlers' log
  changes.
\<close>

theorem unauthenticated_requests_are_inert:
  assumes "header_laws E" "ct_eq_laws E" "t \<noteq> []"
    and "start_server io bind_addr (Some t) tls insecure limit = Ok srv"
    and "map_of (req_headers req) ''authorization'' \<noteq> Some (as_bytes (''Bearer '' @ t))"
    and "svc_call (bearer_layer E NoReply (auth_layer srv) (vault_service E openrpc_spec PV limit env)) req (st, log) = (resp, (st', log'))"
  shows "resp = Ok (unauthorized_response NoReply) \<and> st' = st"
proof -
  have "auth_layer srv = bearer_from_config (Some t)"
    using start_server_Ok [OF assms(4)] by blast
  then show ?thesis
    using assms(5,6) bearer_gate [OF assms(1-3), of NoReply "vault_service E openrpc_spec PV limit env" req "(st, log)"] by simp
qed

theorem unauthenticated_requests_are_inert_witness:
  "\<exists>srv. start_server (\<lambda>_. None) ''127.0.0.1:9000'' (Some ''secret'') None False 1048576 = Ok srv \<and>
     fst (svc_call (bearer_layer ref_ext NoReply (auth_layer srv) (vault_service ref_ext ''{}'' (deployed ref_ext) 1048576 (at_instant 5)))
       \<lparr>req_headers = [(''authorization'', as_bytes ''Bearer guess'')], req_body = CallRetrieve sample_token\<rparr>
       (\<lparr>rpc_vault = sample_db, rpc_log = []\<rparr>, [])) = Ok (unauthorized_response NoReply)"
proof -
  obtain srv where srv: "start_server (\<lambda>_. None) ''127.0.0.1:9000'' (Some ''secret'') None False 1048576 = Ok srv"
    by (rule sample_server)
  let ?req = "\<lparr>req_headers = [(''authorization'', as_bytes ''Bearer guess'')], req_body = CallRetrieve sample_token\<rparr>"
  have "map_of (req_headers ?req) ''authorization'' \<noteq> Some (as_bytes (''Bearer '' @ ''secret''))"
    by simp
  from unauthenticated_requests_are_inert [OF ref_header ref_ct_eq _ srv this, of "''{}''" "deployed ref_ext" "at_instant 5"
      "\<lparr>rpc_vault = sample_db, rpc_log = []\<rparr>" "[]"] srv
  show ?thesis by (metis list.distinct(1) prod.collapse)
qed

text \<open>
  C3: the handoff over the whole path. A server was started with a token. A request
  with the token that stores a document is answered with a claim id; then come any
  requests, with or without the token, of which the authorized ones do not concern the
  record; then a timely request with the token and the claim id, whose storage calls
  work, is answered with status 200 and exactly the document, and the record is gone.
\<close>

theorem service_handoff:
  assumes "header_laws E" "ct_eq_laws E" "base64_url_laws E" "aead_laws E" "serde_json_laws E"
    and "t \<noteq> []" "list_all visible_ascii (as_bytes (''Bearer '' @ t))"
    and "start_server io bind_addr (Some t) tls insecure limit = Ok srv"
    and "authorized t req" "req_body req = CallStore params" "json_exact (proof_json params) \<and> is_value (proof_json params)"
    and "any_inv E (storage (rpc_vault (fst s)))" "any_store_ok E env (expires_in_secs params)"
    and "serve_one E spec limit srv (env, req) s = (Ok resp, s1)" "resp_body resp = StoreReply (Ok tok)"
    and "transpose_res (map_option (expiry_at E (now_expiry env)) (expires_in_secs params)) = Ok ex"
    and "\<forall>op \<in> set (request_ops E limit t rs). any_op_ok E op \<and> avoids E (new_uuid env) ex op"
    and "serve E spec limit srv rs s1 = (resps, s2)"
    and "any_quiet (io_first env') (storage (rpc_vault (fst s2)))" "any_quiet (io_second env') (storage (rpc_vault (fst s2)))"
    and "\<forall>u. ex = Some u \<longrightarrow> now_check env' \<le> u"
    and "authorized t req'" "req_body req' = CallRetrieve tok"
  shows "\<exists>s3. serve_one E spec limit srv (env', req') s2 =
      (Ok \<lparr>status = 200, resp_headers = [], resp_body = RetrieveReply (Ok \<lparr>object_json = proof_json params\<rparr>)\<rparr>, s3) \<and>
    any_abs E (storage (rpc_vault (fst s3))) = (any_abs E (storage (rpc_vault (fst s2))))(new_uuid env := None)"
proof -
  have srv: "token_server E t srv"
    using assms(1,2,5-7) start_server_Ok [OF assms(8)] by (simp add: token_server_def)
  obtain st log where s: "s = (st, log)" by (cases s)
  obtain st1 where store: "rpc_store_proof E (deployed E) limit env params st = (Ok tok, st1)" and s1: "s1 = (st1, log)"
    using assms(14,15) unfolding serve_one_eq [OF srv] s
    by (cases "rpc_store_proof E (deployed E) limit env params st") (auto simp: vault_service_def assms(9,10) simp del: arc_vault_id)
  obtain as where run: "run_ops E (any_backend_ops E) (request_ops E limit t rs) (rpc_vault st1) = (as, rpc_vault (fst s2))"
    using serve_vault [OF srv, of spec limit rs s1] assms(18) s1
    by (cases "run_ops E (any_backend_ops E) (request_ops E limit t rs) (rpc_vault st1)") simp
  obtain res st3 where ret: "rpc_retrieve_proof E (deployed E) env' tok (fst s2) = (res, st3)" by fastforce
  have inv: "any_inv E (storage (rpc_vault st))" using assms(12) s by simp
  have "res = Ok \<lparr>object_json = proof_json params\<rparr> \<and>
      any_abs E (storage (rpc_vault st3)) = (any_abs E (storage (rpc_vault (fst s2))))(new_uuid env := None)"
    by (rule rpc_handoff [OF assms(3,4,5,11) inv assms(13) store assms(16,17) run assms(19-21) ret])
  then show ?thesis
    using ret by (cases s2) (auto simp: serve_one_eq [OF srv] vault_service_def assms(22,23) simp del: arc_vault_id)
qed

text \<open>A client with the token, one without, and the server they talk to.\<close>

definition client_request :: "rpc_call \<Rightarrow> rpc_call http_request" where
  "client_request call = \<lparr>req_headers = [(''authorization'', as_bytes ''Bearer secret'')], req_body = call\<rparr>"

definition stranger_request :: "rpc_call \<Rightarrow> rpc_call http_request" where
  "stranger_request call = \<lparr>req_headers = [(''authorization'', as_bytes ''Bearer guess'')], req_body = call\<rparr>"

theorem service_handoff_witness:
  "\<exists>srv tok s1 s2 resps.
     start_server (\<lambda>_. None) ''127.0.0.1:9000'' (Some ''secret'') None False 1048576 = Ok srv \<and>
     serve ref_ext ''{}'' 1048576 srv [(at_instant 3, stranger_request (CallDelete tok))] s1 = (resps, s2) \<and>
     fst (serve_one ref_ext ''{}'' 1048576 srv (at_instant 5, client_request (CallRetrieve tok)) s2) =
       Ok \<lparr>status = 200, resp_headers = [], resp_body = RetrieveReply (Ok \<lparr>object_json = JObject []\<rparr>)\<rparr>"
proof -
  obtain srv where srv: "start_server (\<lambda>_. None) ''127.0.0.1:9000'' (Some ''secret'') None False 1048576 = Ok srv"
    by (rule sample_server)
  obtain tok st1 db where st: "rpc_store_proof ref_ext (deployed ref_ext) 1048576 (at_instant 0) sample_params fresh_rpc = (Ok tok, st1)"
    and db: "storage (rpc_vault st1) = Sqlite db"
    by (rule sample_rpc_store)
  have visible: "list_all visible_ascii (as_bytes (''Bearer '' @ ''secret''))"
    by code_simp
  have token: "token_server ref_ext ''secret'' srv"
    using start_server_Ok [OF srv] visible by (simp add: token_server_def ref_laws)
  have client: "authorized ''secret'' (client_request call)" and stranger: "\<not> authorized ''secret'' (stranger_request call)" for call
    by (simp_all add: authorized_def client_request_def stranger_request_def)
  let ?rs = "[(at_instant 3, stranger_request (CallDelete tok))]"
  have none: "request_ops ref_ext 1048576 ''secret'' ?rs = []"
    using stranger by (simp add: request_ops_def map_filter_simps)
  let ?resp = "\<lparr>status = 200, resp_headers = [], resp_body = StoreReply (Ok tok)\<rparr>"
  have one: "serve_one ref_ext ''{}'' 1048576 srv (at_instant 0, client_request (CallStore sample_params)) (fresh_rpc, []) =
      (Ok ?resp, (st1, []))"
    unfolding serve_one_eq [OF token] using client st
    by (simp add: vault_service_def client_request_def del: arc_vault_id)
  obtain resps s2 where two: "serve ref_ext ''{}'' 1048576 srv ?rs (st1, []) = (resps, s2)"
    by (metis prod.exhaust)
  have vault: "rpc_vault (fst s2) = rpc_vault st1"
    using serve_vault [OF token, of "''{}''" 1048576 ?rs "(st1, [])"] two none by simp
  have ex: "json_exact (proof_json sample_params) \<and> is_value (proof_json sample_params)" and ok: "any_store_ok ref_ext (at_instant 0) (expires_in_secs sample_params)"
    and inv: "any_inv ref_ext (storage (rpc_vault (fst (fresh_rpc, []))))"
    by (simp_all add: sample_params_def json_exact_def is_value_def rfc3339_range_def fresh_rpc_def)
  have "fst (serve_one ref_ext ''{}'' 1048576 srv (at_instant 5, client_request (CallRetrieve tok)) s2) =
      Ok \<lparr>status = 200, resp_headers = [], resp_body = RetrieveReply (Ok \<lparr>object_json = proof_json sample_params\<rparr>)\<rparr>"
    using service_handoff [OF ref_header ref_ct_eq ref_base64_url ref_aead ref_serde_json _ visible srv client _ ex inv ok one _ _ _ two,
        where tok = tok and ex = None and env' = "at_instant 5" and req' = "client_request (CallRetrieve tok)"] none vault db client
    by (auto simp: sample_params_def client_request_def)
  then have "fst (serve_one ref_ext ''{}'' 1048576 srv (at_instant 5, client_request (CallRetrieve tok)) s2) =
      Ok \<lparr>status = 200, resp_headers = [], resp_body = RetrieveReply (Ok \<lparr>object_json = JObject []\<rparr>)\<rparr>"
    by (simp add: sample_params_def)
  with srv two show ?thesis by blast
qed

end
